(* ===== verification/Go_Base.thy ===== *)
theory Go_Base
  imports Main "HOL-Library.Sublist"
begin

section \<open>Prelude: what every component of the library shares\<close>

text \<open>
  Go values as HOL values. A Go string is its sequence of bytes, so it is a
  \<^typ>\<open>string\<close> whose \<^typ>\<open>char\<close>s are bytes and \<^const>\<open>length\<close> is Go's \<open>len\<close>. An \<open>error\<close>
  result is a \<open>gerror option\<close> (\<^const>\<open>None\<close> is \<open>nil\<close>), a pair of value and error is
  \<open>gerror + 'a\<close>. The parts of the standard library that the sources use on strings
  (\<open>unicode/utf8\<close>, \<open>strings.TrimSpace\<close>, \<open>strings.Split\<close>) are translated here; the error
  chains of \<open>errors\<close> and \<open>fmt.Errorf\<close> are a datatype.
\<close>

named_theorems go_text \<open>evaluation of the string functions on ASCII text\<close>

subsection \<open>Errors\<close>

text \<open>
  \<open>Sentinel\<close> is a package-level variable (compared by identity, here by its name),
  \<open>Plain\<close> an error made in place, \<open>External\<close> one that comes out of code the repository
  does not hold, \<open>Wrapf\<close> a \<open>fmt.Errorf\<close> with one \<open>%w\<close> at the end and \<open>Suffixf\<close> with one at the start, \<open>Joined\<close> an \<open>errors.Join\<close> and
  \<open>CommittedError\<close> the type of package \<open>durablefile\<close>.
\<close>

datatype gerror =
    Sentinel string
  | Plain string
  | External string
  | Wrapf string gerror
  | Suffixf gerror string
  | Joined "gerror list"
  | CommittedError gerror

type_synonym 'a result = "gerror + 'a"

text \<open>\<open>errors.Is\<close>: the error or one it wraps is the target.\<close>

fun errors_is :: "gerror \<Rightarrow> gerror \<Rightarrow> bool" where
  "errors_is (Wrapf m e) t = (Wrapf m e = t \<or> errors_is e t)"
| "errors_is (Suffixf e m) t = (Suffixf e m = t \<or> errors_is e t)"
| "errors_is (CommittedError e) t = (CommittedError e = t \<or> errors_is e t)"
| "errors_is (Joined es) t = (Joined es = t \<or> list_ex (\<lambda>e. errors_is e t) es)"
| "errors_is e t = (e = t)"

text \<open>\<open>errors.As\<close> with target \<open>*CommittedError\<close>: the first one of the chain.\<close>

fun first_some :: "'a option list \<Rightarrow> 'a option" where
  "first_some [] = None"
| "first_some (None # xs) = first_some xs"
| "first_some (Some x # xs) = Some x"

fun as_committed :: "gerror \<Rightarrow> gerror option" where
  "as_committed (CommittedError e) = Some e"
| "as_committed (Wrapf m e) = as_committed e"
| "as_committed (Suffixf e m) = as_committed e"
| "as_committed (Joined es) = first_some (map as_committed es)"
| "as_committed _ = None"

fun separate :: "'a \<Rightarrow> 'a list \<Rightarrow> 'a list" where
  "separate s (x # y # ys) = x # s # separate s (y # ys)"
| "separate s xs = xs"

text \<open>\<open>Error()\<close>: a wrapped error follows its prefix and a colon, joined ones stand on lines of their own.\<close>

fun error_text :: "gerror \<Rightarrow> string" where
  "error_text (Sentinel m) = m"
| "error_text (Plain m) = m"
| "error_text (External m) = m"
| "error_text (Wrapf m e) = m @ '': '' @ error_text e"
| "error_text (Suffixf e m) = error_text e @ '': '' @ m"
| "error_text (Joined es) = concat (separate [char_of (10::nat)] (map error_text es))"
| "error_text (CommittedError e) = error_text e"

text \<open>\<open>errors.Join\<close> drops nil errors and is nil when all are.\<close>

definition errors_join :: "gerror option list \<Rightarrow> gerror option" where
  "errors_join es = (let ns = List.map_filter id es in if ns = [] then None else Some (Joined ns))"

lemma errors_is_refl [simp]: "errors_is e e"
  by (cases e) auto

lemma errors_is_Wrapf [simp, intro]: "errors_is e t \<Longrightarrow> errors_is (Wrapf m e) t"
  by simp

lemma errors_join_None [simp]: "errors_join es = None \<longleftrightarrow> (\<forall>e \<in> set es. e = None)"
  by (induction es) (auto simp: errors_join_def List.map_filter_def)

lemma errors_join_is:
  assumes "Some e \<in> set es" and "errors_is e t"
  shows "\<exists>j. errors_join es = Some j \<and> errors_is j t"
proof -
  have mem: "e \<in> set (List.map_filter id es)"
    using assms(1) by (force simp: List.map_filter_def)
  then have "errors_join es = Some (Joined (List.map_filter id es))"
    by (auto simp: errors_join_def Let_def)
  moreover have "errors_is (Joined (List.map_filter id es)) t"
    using mem assms(2) by (auto simp: list_ex_iff)
  ultimately show ?thesis by blast
qed

subsection \<open>Bytes and UTF-8\<close>

abbreviation ord :: "char \<Rightarrow> nat" where
  "ord c \<equiv> of_char c"

lemma ord_bound [simp]: "ord c < 256"
  using nat_of_char_less_256 [of c] by simp

definition cont :: "char \<Rightarrow> bool" where
  "cont c \<longleftrightarrow> 128 \<le> ord c \<and> ord c \<le> 191"

definition rune_error :: nat where
  "rune_error = 65533"

text \<open>
  \<open>utf8.DecodeRuneInString\<close>: the rune and its width, \<open>RuneError\<close> of width 1 when the
  bytes are not a well-formed sequence (overlong forms, surrogates and code points above
  10FFFF included), of width 0 on the empty string.
\<close>

fun decode2 :: "char \<Rightarrow> string \<Rightarrow> nat \<times> nat" where
  "decode2 a (b # _) =
     (if cont b then ((ord a - 192) * 64 + (ord b - 128), 2) else (rune_error, 1))"
| "decode2 a _ = (rune_error, 1)"

fun decode3 :: "char \<Rightarrow> string \<Rightarrow> nat \<times> nat" where
  "decode3 a (b # c # _) =
     (if (if ord a = 224 then 160 else 128) \<le> ord b \<and>
         ord b \<le> (if ord a = 237 then 159 else 191) \<and> cont c
      then ((ord a - 224) * 4096 + (ord b - 128) * 64 + (ord c - 128), 3)
      else (rune_error, 1))"
| "decode3 a _ = (rune_error, 1)"

fun decode4 :: "char \<Rightarrow> string \<Rightarrow> nat \<times> nat" where
  "decode4 a (b # c # d # _) =
     (if (if ord a = 240 then 144 else 128) \<le> ord b \<and>
         ord b \<le> (if ord a = 244 then 143 else 191) \<and> cont c \<and> cont d
      then ((ord a - 240) * 262144 + (ord b - 128) * 4096 + (ord c - 128) * 64 + (ord d - 128), 4)
      else (rune_error, 1))"
| "decode4 a _ = (rune_error, 1)"

fun decode_rune :: "string \<Rightarrow> nat \<times> nat" where
  "decode_rune [] = (rune_error, 0)"
| "decode_rune (a # s) =
     (if ord a < 128 then (ord a, 1)
      else if 194 \<le> ord a \<and> ord a \<le> 223 then decode2 a s
      else if 224 \<le> ord a \<and> ord a \<le> 239 then decode3 a s
      else if 240 \<le> ord a \<and> ord a \<le> 244 then decode4 a s
      else (rune_error, 1))"

lemma decode2_width: "1 \<le> snd (decode2 a s) \<and> snd (decode2 a s) \<le> Suc (length s)"
  by (cases "(a, s)" rule: decode2.cases) auto

lemma decode3_width: "1 \<le> snd (decode3 a s) \<and> snd (decode3 a s) \<le> Suc (length s)"
  by (cases "(a, s)" rule: decode3.cases) auto

lemma decode4_width: "1 \<le> snd (decode4 a s) \<and> snd (decode4 a s) \<le> Suc (length s)"
  by (cases "(a, s)" rule: decode4.cases) auto

lemma decode_rune_width:
  "s \<noteq> [] \<Longrightarrow> 1 \<le> snd (decode_rune s) \<and> snd (decode_rune s) \<le> length s"
  using decode2_width decode3_width decode4_width by (cases s) auto

lemma decode_rune_width_pos [simp]: "s \<noteq> [] \<Longrightarrow> 0 < snd (decode_rune s)"
  using decode_rune_width [of s] by simp

text \<open>A well-formed first rune does not depend on what follows it.\<close>

lemma decode_rune_append:
  assumes "fst (decode_rune s) \<noteq> rune_error"
  shows "decode_rune (s @ t) = decode_rune s"
proof (cases s)
  case Nil
  with assms show ?thesis by simp
next
  case (Cons a u)
  have two: "fst (decode2 a u) \<noteq> rune_error \<Longrightarrow> decode2 a (u @ t) = decode2 a u"
    by (cases "(a, u)" rule: decode2.cases) auto
  have three: "fst (decode3 a u) \<noteq> rune_error \<Longrightarrow> decode3 a (u @ t) = decode3 a u"
    by (cases "(a, u)" rule: decode3.cases) auto
  have four: "fst (decode4 a u) \<noteq> rune_error \<Longrightarrow> decode4 a (u @ t) = decode4 a u"
    by (cases "(a, u)" rule: decode4.cases) auto
  from Cons assms two three four show ?thesis by (auto split: if_splits)
qed

text \<open>\<open>utf8.RuneCountInString\<close>\<close>

function rune_count :: "string \<Rightarrow> nat" where
  "rune_count s = (if s = [] then 0 else Suc (rune_count (drop (snd (decode_rune s)) s)))"
  by pat_completeness auto
termination
  by (relation "measure length") auto

declare rune_count.simps [simp del]

lemma rune_count_Nil [simp]: "rune_count [] = 0"
  by (simp add: rune_count.simps)

lemma rune_count_le_length: "rune_count s \<le> length s"
proof (induction s rule: rune_count.induct)
  case (1 s)
  show ?case
  proof (cases "s = []")
    case False
    then have "rune_count s = Suc (rune_count (drop (snd (decode_rune s)) s))"
      by (subst rune_count.simps) simp
    moreover have "rune_count (drop (snd (decode_rune s)) s) \<le> length s - snd (decode_rune s)"
      using 1 [OF False] by simp
    ultimately show ?thesis using decode_rune_width [OF False] by linarith
  qed simp
qed

lemma rune_count_ascii: "\<forall>c \<in> set s. ord c < 128 \<Longrightarrow> rune_count s = length s"
  by (induction s) (simp_all add: rune_count.simps)

subsection \<open>strings.TrimSpace\<close>

text \<open>\<open>unicode.IsSpace\<close>\<close>

definition is_space :: "nat \<Rightarrow> bool" where
  "is_space r \<longleftrightarrow> 9 \<le> r \<and> r \<le> 13 \<or> r = 32 \<or> r = 133 \<or> r = 160 \<or> r = 5760 \<or>
     8192 \<le> r \<and> r \<le> 8202 \<or> r = 8232 \<or> r = 8233 \<or> r = 8239 \<or> r = 8287 \<or> r = 12288"

lemma rune_error_not_space [simp]: "\<not> is_space rune_error"
  by (simp add: is_space_def rune_error_def)

text \<open>
  \<open>utf8.DecodeLastRuneInString\<close>: at most four bytes back to a byte that can start a
  rune; the rune counts only when it ends exactly at the end of the string.
\<close>

definition decode_last_rune :: "string \<Rightarrow> nat \<times> nat" where
  "decode_last_rune s =
     (if s = [] then (rune_error, 0)
      else let k = Suc (length (takeWhile cont (rev s))) in
        if k \<le> 4 \<and> k \<le> length s
        then let (r, n) = decode_rune (drop (length s - k) s) in
          if n = k then (r, k) else (rune_error, 1)
        else (rune_error, 1))"

lemma decode_last_rune_width: "s \<noteq> [] \<Longrightarrow> 0 < snd (decode_last_rune s)"
  by (auto simp: decode_last_rune_def Let_def split: prod.splits)

function trim_left :: "string \<Rightarrow> string" where
  "trim_left s =
     (if s = [] then []
      else if is_space (fst (decode_rune s)) then trim_left (drop (snd (decode_rune s)) s) else s)"
  by pat_completeness auto
termination
  by (relation "measure length") auto

function trim_right :: "string \<Rightarrow> string" where
  "trim_right s =
     (if s = [] then []
      else if is_space (fst (decode_last_rune s))
        then trim_right (take (length s - snd (decode_last_rune s)) s) else s)"
  by pat_completeness auto
termination
  by (relation "measure length") (auto simp: decode_last_rune_width)

declare trim_left.simps [simp del] trim_right.simps [simp del]

definition trim_space :: "string \<Rightarrow> string" where
  "trim_space s = trim_right (trim_left s)"

definition no_left_space :: "string \<Rightarrow> bool" where
  "no_left_space s \<longleftrightarrow> s = [] \<or> \<not> is_space (fst (decode_rune s))"

definition no_right_space :: "string \<Rightarrow> bool" where
  "no_right_space s \<longleftrightarrow> s = [] \<or> \<not> is_space (fst (decode_last_rune s))"

lemma trim_left_no_space: "no_left_space (trim_left s)"
proof (induction s rule: trim_left.induct)
  case (1 s)
  then show ?case by (subst trim_left.simps) (auto simp: no_left_space_def)
qed

lemma trim_right_no_space: "no_right_space (trim_right s)"
proof (induction s rule: trim_right.induct)
  case (1 s)
  then show ?case by (subst trim_right.simps) (auto simp: no_right_space_def)
qed

lemma trim_left_id: "no_left_space s \<Longrightarrow> trim_left s = s"
  by (subst trim_left.simps) (auto simp: no_left_space_def)

lemma trim_right_id: "no_right_space s \<Longrightarrow> trim_right s = s"
  by (subst trim_right.simps) (auto simp: no_right_space_def)

lemma no_left_space_prefix:
  assumes "no_left_space (s @ t)"
  shows "no_left_space s"
proof (cases "fst (decode_rune s) = rune_error")
  case True
  then show ?thesis by (simp add: no_left_space_def)
next
  case False
  then have "decode_rune (s @ t) = decode_rune s" by (rule decode_rune_append)
  with assms show ?thesis by (auto simp: no_left_space_def)
qed

lemma trim_right_prefix: "prefix (trim_right s) s"
proof (induction s rule: trim_right.induct)
  case (1 s)
  then show ?case
    by (subst trim_right.simps) (auto intro: prefix_order.trans take_is_prefix)
qed

lemma trim_left_suffix: "suffix (trim_left s) s"
proof (induction s rule: trim_left.induct)
  case (1 s)
  then show ?case
    by (subst trim_left.simps) (auto intro: suffix_order.trans suffix_drop)
qed

lemma trim_space_no_space: "no_left_space (trim_space s) \<and> no_right_space (trim_space s)"
  using trim_right_prefix [of "trim_left s"] trim_left_no_space [of s]
    trim_right_no_space [of "trim_left s"] no_left_space_prefix
  unfolding trim_space_def prefix_def by metis

lemma trim_space_id: "no_left_space s \<Longrightarrow> no_right_space s \<Longrightarrow> trim_space s = s"
  by (simp add: trim_space_def trim_left_id trim_right_id)

lemma decode_last_rune_ascii: "ord c < 128 \<Longrightarrow> decode_last_rune (s @ [c]) = (ord c, 1)"
  by (simp add: decode_last_rune_def cont_def)

text \<open>Text between two characters that are ASCII and no space is not trimmed.\<close>

lemma trim_space_ascii:
  assumes "s \<noteq> []" and "ord (hd s) < 128" and "\<not> is_space (ord (hd s))"
    and "ord (last s) < 128" and "\<not> is_space (ord (last s))"
  shows "trim_space s = s"
proof (rule trim_space_id)
  show "no_left_space s" using assms(1-3) by (cases s) (simp_all add: no_left_space_def)
  have "decode_last_rune s = (ord (last s), 1)"
    using decode_last_rune_ascii [OF assms(4), of "butlast s"] assms(1) by simp
  then show "no_right_space s" using assms(5) by (simp add: no_right_space_def)
qed

lemma trim_space_idem [simp]: "trim_space (trim_space s) = trim_space s"
  using trim_space_no_space trim_space_id by blast

lemma trim_space_fixed_iff: "trim_space s = s \<longleftrightarrow> no_left_space s \<and> no_right_space s"
  using trim_space_id trim_space_no_space by metis

lemma trim_space_Nil [simp]: "trim_space [] = []"
  by (simp add: trim_space_def trim_left.simps trim_right.simps)

lemma trim_space_length: "length (trim_space s) \<le> length s"
  using prefix_length_le [OF trim_right_prefix [of "trim_left s"]]
    suffix_length_le [OF trim_left_suffix [of s]]
  by (simp add: trim_space_def)

lemma trim_space_sublist: "sublist (trim_space s) s"
  using trim_right_prefix [of "trim_left s"] trim_left_suffix [of s] unfolding trim_space_def
  by (meson prefix_imp_sublist sublist_order.order.trans suffix_imp_sublist)

text \<open>On ASCII text \<open>TrimSpace\<close> cuts bytes, which is how Go computes it there too.\<close>

definition ascii_space :: "char \<Rightarrow> bool" where
  "ascii_space c \<longleftrightarrow> is_space (ord c)"

definition trim_bytes :: "string \<Rightarrow> string" where
  "trim_bytes s = rev (dropWhile ascii_space (rev (dropWhile ascii_space s)))"

lemma trim_left_bytes: "list_all (\<lambda>c. ord c < 128) s \<Longrightarrow> trim_left s = dropWhile ascii_space s"
  by (induction s) (simp_all add: trim_left.simps ascii_space_def)

lemma trim_right_bytes: "list_all (\<lambda>c. ord c < 128) s \<Longrightarrow> trim_right s = rev (dropWhile ascii_space (rev s))"
proof (induction s rule: rev_induct)
  case (snoc c s)
  then show ?case by (subst trim_right.simps) (simp add: decode_last_rune_ascii ascii_space_def [abs_def])
qed (simp add: trim_right.simps)

lemma trim_space_bytes [go_text]: "list_all (\<lambda>c. ord c < 128) s \<Longrightarrow> trim_space s = trim_bytes s"
  by (simp add: trim_space_def trim_left_bytes trim_right_bytes trim_bytes_def list_all_iff set_dropWhileD)

lemma trim_space_replicate [go_text]: "ord c < 128 \<Longrightarrow> \<not> is_space (ord c) \<Longrightarrow> trim_space (replicate n c) = replicate n c"
  by (cases n) (auto intro!: trim_space_ascii simp flip: replicate_Suc)

declare trim_bytes_def [go_text] ascii_space_def [go_text] is_space_def [go_text] rune_count_ascii [go_text]

subsection \<open>strings.Split at one byte, strings.Join\<close>

fun split_on :: "char \<Rightarrow> string \<Rightarrow> string list" where
  "split_on c [] = [[]]"
| "split_on c (x # xs) =
     (if x = c then [] # split_on c xs
      else (case split_on c xs of [] \<Rightarrow> [[x]] | p # ps \<Rightarrow> (x # p) # ps))"

fun join_on :: "char \<Rightarrow> string list \<Rightarrow> string" where
  "join_on c [] = []"
| "join_on c [p] = p"
| "join_on c (p # q # ps) = p @ c # join_on c (q # ps)"

lemma split_on_not_Nil [simp]: "split_on c s \<noteq> []"
  by (induction s) (auto split: list.splits)

lemma join_split [simp]: "join_on c (split_on c s) = s"
proof (induction s)
  case (Cons x xs)
  obtain p ps where "split_on c xs = p # ps" by (cases "split_on c xs") auto
  with Cons show ?case by (cases ps) auto
qed simp

lemma split_on_free: "\<forall>p \<in> set (split_on c s). c \<notin> set p"
  by (induction s) (auto split: list.splits)

lemma split_on_no_sep: "c \<notin> set s \<Longrightarrow> split_on c s = [s]"
  by (induction s) auto

lemma split_on_append_sep: "split_on c (s @ c # t) = split_on c s @ split_on c t"
proof (induction s)
  case (Cons x xs)
  then show ?case by (cases "split_on c xs") auto
qed simp

lemma split_join:
  "ps \<noteq> [] \<Longrightarrow> \<forall>p \<in> set ps. c \<notin> set p \<Longrightarrow> split_on c (join_on c ps) = ps"
proof (induction ps rule: induct_list012)
  case (3 p q ps)
  then show ?case by (simp add: split_on_append_sep split_on_no_sep)
qed (auto simp: split_on_no_sep)

subsection \<open>strconv.Itoa on natural numbers\<close>

definition digit :: "nat \<Rightarrow> char" where
  "digit d = char_of (48 + d)"

definition is_digit :: "char \<Rightarrow> bool" where
  "is_digit c \<longleftrightarrow> 48 \<le> ord c \<and> ord c \<le> 57"

fun itoa :: "nat \<Rightarrow> string" where
  "itoa n = (if n < 10 then [digit n] else itoa (n div 10) @ [digit (n mod 10)])"

declare itoa.simps [simp del]

lemma ord_digit [simp]: "d < 10 \<Longrightarrow> ord (digit d) = 48 + d"
  by (simp add: digit_def)

lemma itoa_digits: "\<forall>c \<in> set (itoa n). is_digit c"
proof (induction n rule: itoa.induct)
  case (1 n)
  then show ?case by (subst itoa.simps) (auto simp: is_digit_def)
qed

lemma itoa_not_Nil [simp]: "itoa n \<noteq> []"
  by (subst itoa.simps) simp

text \<open>The value of a string of digits, and the round trip.\<close>

definition digits_value :: "string \<Rightarrow> nat" where
  "digits_value s = foldl (\<lambda>v c. 10 * v + (ord c - 48)) 0 s"

lemma digits_value_itoa [simp]: "digits_value (itoa n) = n"
proof (induction n rule: itoa.induct)
  case (1 n)
  then show ?case by (subst itoa.simps) (simp add: digits_value_def)
qed

lemma itoa_inject: "itoa m = itoa n \<longleftrightarrow> m = n"
  by (metis digits_value_itoa)

subsection \<open>Randomness\<close>

text \<open>
  \<open>crypto/rand\<close> as a source: asked for a number of bytes in some state it gives them, or an
  error, and its next state.
\<close>

type_synonym 's randomness = "nat \<Rightarrow> 's \<Rightarrow> string result \<times> 's"

definition random_ok :: "'s randomness \<Rightarrow> bool" where
  "random_ok rnd \<longleftrightarrow> (\<forall>n s b s'. rnd n s = (Inr b, s') \<longrightarrow> length b = n)"

subsection \<open>Replacing text\<close>

text \<open>\<open>strings.ReplaceAll\<close> for a non-empty \<open>old\<close>: leftmost matches that do not overlap.\<close>

function replace_all :: "string \<Rightarrow> string \<Rightarrow> string \<Rightarrow> string" where
  "replace_all old new [] = []"
| "replace_all old new (c # s) =
     (if prefix old (c # s) then new @ replace_all old new (drop (length old - 1) s)
      else c # replace_all old new s)"
  by pat_completeness auto
termination by (relation "measure (\<lambda>(old, new, s). length s)") auto

text \<open>Characters of neither text are kept, one by one.\<close>

lemma replace_all_count:
  assumes "x \<notin> set old" and "x \<notin> set new" and "old \<noteq> []"
  shows "count_list (replace_all old new s) x = count_list s x"
  using assms
proof (induction old new s rule: replace_all.induct)
  case (2 old new c s)
  show ?case
  proof (cases "prefix old (c # s)")
    case True
    then obtain zs where zs: "c # s = old @ zs" by (auto simp: prefix_def)
    then have "drop (length old - 1) s = zs"
      using 2(5) by (cases old) auto
    moreover have "count_list (c # s) x = count_list zs x" using 2(3) by (simp only: zs) simp
    ultimately show ?thesis using True 2 by (simp del: count_list.simps)
  next
    case False
    with 2 show ?thesis by simp
  qed
qed simp

lemma replace_all_none:
  assumes "\<And>a b. s \<noteq> a @ old @ b"
  shows "replace_all old new s = s"
  using assms
proof (induction old new s rule: replace_all.induct)
  case (2 old new c s)
  have "\<not> prefix old (c # s)" using 2(3) [of "[]"] by (auto simp: prefix_def)
  moreover have "s \<noteq> a @ old @ b" for a b using 2(3) [of "c # a" b] by simp
  ultimately show ?case using 2(2) by simp
qed simp

end
