(* ===== verification/Go_Path.thy ===== *)
theory Go_Path
  imports Go_Base
begin

section \<open>Slash-separated paths: \<open>path/filepath\<close> on Unix\<close>

text \<open>
  \<open>Clean\<close>, \<open>Dir\<close>, \<open>Base\<close>, \<open>IsAbs\<close> and \<open>Abs\<close> as the standard library computes them on a
  system whose separator is the slash, and \<open>resolve\<close>, the list of names the kernel walks
  from the root for a path (symbolic links are not modelled, so the walk is lexical). The
  lemmas show that cleaning a path does not change what it names, that \<open>Dir\<close> and the last
  element split a path the way the kernel sees it, and that repeated \<open>Dir\<close> stops.
\<close>

abbreviation slash :: char where
  "slash \<equiv> CHR ''/''"

abbreviation components :: "string \<Rightarrow> string list" where
  "components p \<equiv> split_on slash p"

definition dot :: string where
  "dot = ''.''"

definition dotdot :: string where
  "dotdot = ''..''"

lemma dot_facts [simp]:
  "dot \<noteq> []" "dotdot \<noteq> []" "[] \<noteq> dot" "[] \<noteq> dotdot" "dot \<noteq> dotdot" "dotdot \<noteq> dot"
  "slash \<notin> set dot" "slash \<notin> set dotdot"
  "length dot = 1" "length dotdot = 2" "hd dot \<noteq> slash"
  by (simp_all add: dot_def dotdot_def)

subsection \<open>Clean\<close>

text \<open>
  One element at a time, the result so far as a stack (its last element first): an empty
  element and \<open>.\<close> change nothing, \<open>..\<close> removes the element before it, is dropped at the
  root and is kept at the start of a relative path.
\<close>

definition clean_step :: "bool \<Rightarrow> string list \<Rightarrow> string \<Rightarrow> string list" where
  "clean_step rooted st c =
     (if c = [] \<or> c = dot then st
      else if c = dotdot then
        (case st of
           [] \<Rightarrow> if rooted then [] else [dotdot]
         | t # ts \<Rightarrow> if t = dotdot then dotdot # st else ts)
      else c # st)"

definition path_is_abs :: "string \<Rightarrow> bool" where
  "path_is_abs p \<longleftrightarrow> p \<noteq> [] \<and> hd p = slash"

definition clean_elements :: "bool \<Rightarrow> string list \<Rightarrow> string list" where
  "clean_elements rooted cs = rev (foldl (clean_step rooted) [] cs)"

definition path_clean :: "string \<Rightarrow> string" where
  "path_clean p =
     (let st = clean_elements (path_is_abs p) (components p) in
      if path_is_abs p then slash # join_on slash st
      else if st = [] then dot else join_on slash st)"

text \<open>The part of a path up to its last slash, and the rest.\<close>

definition dir_prefix :: "string \<Rightarrow> string" where
  "dir_prefix p = rev (dropWhile (\<lambda>c. c \<noteq> slash) (rev p))"

definition last_element :: "string \<Rightarrow> string" where
  "last_element p = rev (takeWhile (\<lambda>c. c \<noteq> slash) (rev p))"

definition path_dir :: "string \<Rightarrow> string" where
  "path_dir p = path_clean (dir_prefix p)"

definition path_base :: "string \<Rightarrow> string" where
  "path_base p =
     (if p = [] then dot
      else let b = last_element (rev (dropWhile (\<lambda>c. c = slash) (rev p))) in
        if b = [] then [slash] else b)"

text \<open>\<open>Abs\<close> asks for the working directory, which may fail; \<open>Join\<close> drops empty elements.\<close>

definition path_join :: "string list \<Rightarrow> string" where
  "path_join es =
     (let ns = filter (\<lambda>e. e \<noteq> []) es in if ns = [] then [] else path_clean (join_on slash ns))"

definition path_abs :: "string result \<Rightarrow> string \<Rightarrow> string result" where
  "path_abs getwd p =
     (if path_is_abs p then Inr (path_clean p)
      else case getwd of Inl e \<Rightarrow> Inl e | Inr wd \<Rightarrow> Inr (path_join [wd, p]))"

subsection \<open>What the kernel makes of a path\<close>

definition resolve :: "string list \<Rightarrow> string \<Rightarrow> string list" where
  "resolve cwd p =
     rev (foldl (clean_step True) (if path_is_abs p then [] else rev cwd) (components p))"

definition plain_name :: "string \<Rightarrow> bool" where
  "plain_name c \<longleftrightarrow> c \<noteq> [] \<and> c \<noteq> dot \<and> c \<noteq> dotdot \<and> slash \<notin> set c"

lemma clean_step_plain: "plain_name c \<Longrightarrow> clean_step r st c = c # st"
  by (simp add: clean_step_def plain_name_def)

lemma clean_step_Nil [simp]: "clean_step r st [] = st"
  by (simp add: clean_step_def)

lemma foldl_clean_plain:
  "\<forall>c \<in> set cs. plain_name c \<Longrightarrow> foldl (clean_step r) st cs = rev cs @ st"
  by (induction cs arbitrary: st) (auto simp: clean_step_plain)

text \<open>The elements a cleaned path can hold.\<close>

definition clean_stack :: "bool \<Rightarrow> string list \<Rightarrow> bool" where
  "clean_stack r st \<longleftrightarrow> (\<forall>c \<in> set st. plain_name c \<or> \<not> r \<and> c = dotdot)"

lemma set_clean_step:
  "set (clean_step r st c) \<subseteq> set st \<union> (if c = [] \<or> c = dot \<or> c = dotdot then {dotdot} else {c})"
  by (cases st) (simp_all add: clean_step_def subset_insertI2)

lemma clean_step_dotdot:
  "dotdot \<notin> set st \<Longrightarrow> dotdot \<notin> set (clean_step True st c)"
  by (cases st) (auto simp: clean_step_def)

lemma clean_stack_step:
  assumes "clean_stack r st" and "slash \<notin> set c"
  shows "clean_stack r (clean_step r st c)"
  unfolding clean_stack_def
proof
  fix x assume x: "x \<in> set (clean_step r st c)"
  show "plain_name x \<or> \<not> r \<and> x = dotdot"
  proof (cases "x \<in> set st")
    case True
    with assms(1) show ?thesis by (auto simp: clean_stack_def)
  next
    case False
    have dd: "r \<Longrightarrow> x \<noteq> dotdot"
      using clean_step_dotdot [of st c] assms(1) x by (auto simp: clean_stack_def plain_name_def)
    show ?thesis
    proof (cases "c = [] \<or> c = dot \<or> c = dotdot")
      case True
      then have "x = dotdot" using set_clean_step [of r st c] x False by auto
      with dd show ?thesis by auto
    next
      case c: False
      then have "x = c" using set_clean_step [of r st c] x False by auto
      then show ?thesis using c assms(2) by (simp add: plain_name_def)
    qed
  qed
qed

lemma clean_stack_foldl:
  assumes "clean_stack r st" and "\<forall>c \<in> set cs. slash \<notin> set c"
  shows "clean_stack r (foldl (clean_step r) st cs)"
  using assms
proof (induction cs arbitrary: st)
  case (Cons c cs)
  then have "clean_stack r (clean_step r st c)" by (intro clean_stack_step) simp_all
  with Cons show ?case by simp
qed simp

lemma clean_elements_stack: "clean_stack r (clean_elements r (components p))"
proof -
  have "clean_stack r (foldl (clean_step r) [] (components p))"
    by (rule clean_stack_foldl, simp add: clean_stack_def, rule split_on_free)
  then show ?thesis by (simp add: clean_elements_def clean_stack_def)
qed

lemma clean_element_free: "plain_name c \<or> \<not> r \<and> c = dotdot \<Longrightarrow> slash \<notin> set c \<and> c \<noteq> []"
  by (elim disjE) (simp_all add: plain_name_def)

lemma clean_stack_free: "clean_stack r st \<Longrightarrow> \<forall>c \<in> set st. slash \<notin> set c \<and> c \<noteq> []"
  unfolding clean_stack_def using clean_element_free by blast

text \<open>Walking the relative result of cleaning is walking the elements it came from.\<close>

lemma walk_clean_step:
  assumes "clean_stack False st"
  shows "foldl (clean_step True) a (rev (clean_step False st c)) =
    clean_step True (foldl (clean_step True) a (rev st)) c"
proof (cases "c = dotdot \<and> (\<exists>t ts. st = t # ts \<and> t \<noteq> dotdot)")
  case True
  then obtain t ts where st: "st = t # ts" "t \<noteq> dotdot" and c: "c = dotdot" by blast
  then have "plain_name t" using assms by (auto simp: clean_stack_def)
  then show ?thesis using st c by (simp add: clean_step_plain) (simp add: clean_step_def)
next
  case False
  then show ?thesis by (cases st) (auto simp: clean_step_def)
qed

lemma walk_clean_foldl:
  assumes "clean_stack False st" and "\<forall>c \<in> set cs. slash \<notin> set c"
  shows "foldl (clean_step True) a (rev (foldl (clean_step False) st cs)) =
    foldl (clean_step True) (foldl (clean_step True) a (rev st)) cs"
  using assms
proof (induction cs arbitrary: st)
  case (Cons c cs)
  then have "clean_stack False (clean_step False st c)" by (intro clean_stack_step) simp_all
  with Cons show ?case by (simp add: walk_clean_step)
qed simp

lemma path_is_abs_clean [simp]: "path_is_abs (path_clean p) = path_is_abs p"
proof (cases "path_is_abs p")
  case True
  then show ?thesis by (simp add: path_clean_def Let_def) (simp add: path_is_abs_def)
next
  case False
  let ?st = "clean_elements False (components p)"
  show ?thesis
  proof (cases ?st)
    case Nil
    with False show ?thesis by (simp add: path_clean_def) (simp add: path_is_abs_def)
  next
    case (Cons c cs)
    moreover have "c \<noteq> []" "slash \<notin> set c"
      using clean_stack_free [OF clean_elements_stack [of False p]] Cons by auto
    ultimately show ?thesis using False
      by (cases cs; cases c) (auto simp: path_clean_def path_is_abs_def)
  qed
qed

theorem resolve_clean: "resolve cwd (path_clean p) = resolve cwd p"
proof (cases "path_is_abs p")
  case True
  let ?st = "clean_elements True (components p)"
  have plain: "\<forall>c \<in> set ?st. plain_name c"
    using clean_elements_stack [of True p] by (auto simp: clean_stack_def)
  then have free: "\<forall>c \<in> set ?st. slash \<notin> set c" by (auto simp: plain_name_def)
  have clean: "path_clean p = slash # join_on slash ?st"
    using True by (simp add: path_clean_def)
  have "foldl (clean_step True) [] (components (path_clean p)) = rev ?st"
    using plain free by (cases "?st = []") (simp_all add: clean split_join foldl_clean_plain)
  then show ?thesis
    using True by (simp add: resolve_def clean_elements_def)
next
  case False
  let ?st = "clean_elements False (components p)"
  have free: "\<forall>c \<in> set ?st. slash \<notin> set c"
    using clean_stack_free [OF clean_elements_stack [of False p]] by auto
  have "foldl (clean_step True) a (components (path_clean p)) = foldl (clean_step True) a ?st" for a
  proof (cases "?st = []")
    case True
    then show ?thesis using False
      by (simp add: path_clean_def split_on_no_sep) (simp add: clean_step_def)
  next
    case st: False
    then show ?thesis using False free by (simp add: path_clean_def split_join)
  qed
  moreover have "foldl (clean_step True) a ?st = foldl (clean_step True) a (components p)" for a
    using walk_clean_foldl [of "[]" "components p" a] split_on_free [of slash p]
    by (simp add: clean_elements_def clean_stack_def)
  ultimately show ?thesis using False by (simp add: resolve_def)
qed

subsection \<open>Dir and the last element\<close>

lemma dir_prefix_last_element: "dir_prefix p @ last_element p = p"
  unfolding dir_prefix_def last_element_def
  by (metis rev_append rev_rev_ident takeWhile_dropWhile_id)

lemma last_element_free: "slash \<notin> set (last_element p)"
  by (auto simp: last_element_def dest: set_takeWhileD)

lemma dir_prefix_cases: "dir_prefix p = [] \<or> (\<exists>q. dir_prefix p = q @ [slash])"
proof (cases "dropWhile (\<lambda>c. c \<noteq> slash) (rev p)")
  case (Cons a as)
  then have "a = slash" by (metis (full_types) dropWhile_eq_Cons_conv)
  with Cons show ?thesis by (simp add: dir_prefix_def)
qed (simp add: dir_prefix_def)

theorem resolve_dir_last:
  assumes "plain_name (last_element p)"
  shows "resolve cwd p = resolve cwd (path_dir p) @ [last_element p]"
proof -
  let ?b = "last_element p"
  have b: "components ?b = [?b]" by (simp add: split_on_no_sep last_element_free)
  consider (rel) "dir_prefix p = []" | (sl) q where "dir_prefix p = q @ [slash]"
    using dir_prefix_cases by blast
  then show ?thesis
  proof cases
    case rel
    then have p: "p = ?b" using dir_prefix_last_element [of p] by simp
    then have "\<not> path_is_abs p" using last_element_free [of p]
      by (metis hd_in_set path_is_abs_def)
    moreover have "resolve cwd (path_dir p) = cwd"
      by (simp add: path_dir_def rel resolve_clean) (simp add: resolve_def path_is_abs_def)
    ultimately show ?thesis using b p assms
      by (simp add: resolve_def clean_step_plain)
  next
    case sl
    then have p: "p = q @ slash # ?b"
      using dir_prefix_last_element [of p] by (metis append.assoc append_Cons append_Nil)
    have abs: "path_is_abs p \<longleftrightarrow> path_is_abs (q @ [slash])"
      by (subst p) (cases q; simp add: path_is_abs_def)
    have "components p = components q @ [?b]"
      by (subst p) (simp add: split_on_append_sep b)
    moreover have "components (q @ [slash]) = components q @ [[]]"
      using split_on_append_sep [of slash q "[]"] by simp
    ultimately show ?thesis using abs assms
      by (simp add: path_dir_def sl resolve_clean) (simp add: resolve_def clean_step_plain)
  qed
qed

subsection \<open>Repeated \<open>Dir\<close> stops\<close>

definition stack_size :: "string list \<Rightarrow> nat" where
  "stack_size st = (\<Sum>c \<leftarrow> st. length c + 1)"

lemma stack_size_append [simp]: "stack_size (xs @ ys) = stack_size xs + stack_size ys"
  by (simp add: stack_size_def)

lemma stack_size_rev [simp]: "stack_size (rev xs) = stack_size xs"
  by (induction xs) (simp_all add: stack_size_def)

lemma stack_size_simps [simp]:
  "stack_size [] = 0" "stack_size (c # cs) = length c + 1 + stack_size cs"
  by (simp_all add: stack_size_def)

lemma stack_size_split: "stack_size (split_on c s) = length s + 1"
proof (induction s)
  case (Cons x xs)
  then show ?case by (cases "split_on c xs") (auto simp: stack_size_def)
qed simp

lemma stack_size_step: "stack_size (clean_step r st c) \<le> stack_size st + length c + 1"
  by (auto simp: clean_step_def split: list.splits)

lemma stack_size_foldl: "stack_size (foldl (clean_step r) st cs) \<le> stack_size st + stack_size cs"
proof (induction cs arbitrary: st)
  case (Cons c cs)
  then show ?case using stack_size_step [of r st c] by (simp add: add.assoc) (metis add.commute
      add_le_mono1 le_trans add.left_commute add_Suc_right)
qed simp

lemma join_length: "st \<noteq> [] \<Longrightarrow> length (join_on c st) + 1 = stack_size st"
  by (induction st rule: induct_list012) auto

lemma clean_elements_shorter: "stack_size (clean_elements r (components (q @ [slash]))) \<le> length q + 1"
  using split_on_append_sep [of slash q "[]"] stack_size_foldl [of r "[]" "components q"]
  by (simp add: clean_elements_def stack_size_split)

lemma clean_trailing_slash: "q \<noteq> [] \<Longrightarrow> length (path_clean (q @ [slash])) < length (q @ [slash])"
proof -
  assume q: "q \<noteq> []"
  let ?r = "path_is_abs (q @ [slash])"
  let ?st = "clean_elements ?r (components (q @ [slash]))"
  have size: "stack_size ?st \<le> length q + 1" by (rule clean_elements_shorter)
  have abs: "stack_size ?st \<le> length q" if "?r"
  proof -
    from that q obtain q' where "q = slash # q'" by (cases q) (auto simp: path_is_abs_def)
    then show ?thesis using clean_elements_shorter [of ?r q']
      by (simp add: clean_elements_def)
  qed
  show ?thesis
  proof (cases "?st = []")
    case True
    with q show ?thesis by (auto simp: path_clean_def)
  next
    case False
    then show ?thesis using join_length [OF False, of slash] size abs
      by (auto simp: path_clean_def Let_def)
  qed
qed

text \<open>A measure that every step from a path to a different parent decreases.\<close>

definition dir_measure :: "string \<Rightarrow> nat" where
  "dir_measure p = (if p = [] then 3 else 2 * length p + (if p = dot then 0 else 1))"

lemma path_clean_not_Nil: "path_clean p \<noteq> []"
proof (cases "clean_elements (path_is_abs p) (components p)")
  case (Cons c cs)
  moreover have "c \<noteq> []"
    using clean_stack_free [OF clean_elements_stack [of "path_is_abs p" p]] Cons by auto
  ultimately show ?thesis by (cases cs) (auto simp: path_clean_def Let_def split: if_splits)
qed (simp add: path_clean_def)

lemma path_clean_slash: "path_clean [slash] = [slash]"
  by (simp add: path_clean_def path_is_abs_def clean_elements_def)

lemma path_clean_Nil: "path_clean [] = dot"
  by (simp add: path_clean_def path_is_abs_def clean_elements_def)

lemma dir_measure_decreases:
  assumes "path_dir p \<noteq> p"
  shows "dir_measure (path_dir p) < dir_measure p"
proof -
  have len: "length (dir_prefix p) + length (last_element p) = length p"
    using dir_prefix_last_element [of p] by (metis length_append)
  consider (nil) "dir_prefix p = []" | (root) "dir_prefix p = [slash]"
    | (long) q where "dir_prefix p = q @ [slash]" "q \<noteq> []"
    using dir_prefix_cases [of p] by (metis append_Nil)
  then show ?thesis
  proof cases
    case nil
    then have "path_dir p = dot" by (simp add: path_dir_def path_clean_Nil)
    with assms show ?thesis by (cases p) (auto simp: dir_measure_def)
  next
    case root
    then have d: "path_dir p = [slash]" by (simp add: path_dir_def path_clean_slash)
    have "last_element p \<noteq> []"
      using assms d root dir_prefix_last_element [of p] by auto
    then have "2 \<le> length p" using len root by (cases "last_element p") auto
    with d show ?thesis by (auto simp: dir_measure_def)
  next
    case long
    then have "length (path_dir p) < length p"
      using clean_trailing_slash [of q] len by (simp add: path_dir_def)
    moreover have "path_dir p \<noteq> []" by (simp add: path_dir_def path_clean_not_Nil)
    ultimately show ?thesis by (auto simp: dir_measure_def)
  qed
qed

end
