(* ===== verification/Durable_Fs.thy ===== *)
theory Durable_Fs
  imports Go_Path "HOL-Library.Word"
begin

unbundle bit_operations_syntax

section \<open>The file system below package durablefile\<close>

text \<open>
  The part of \<open>os\<close> and of the kernel that \<open>durablefile\<close> uses. A directory entry has two
  versions: the visible one and the one that is already on stable storage; an inode says
  whether its content has been flushed. A crash may leave either version of an entry, and
  guarantees the content of flushed inodes only. Every system call that changes the
  kernel's state appends the new state to a ghost list, so that a property can speak of
  every moment of an operation. Calls may fail as the environment decides; symbolic and
  hard links are not modelled.
\<close>

type_synonym kpath = "string list"
type_synonym file_mode = "32 word"

datatype entry = DirEnt file_mode | FileEnt nat

record inode =
  content :: string
  perm :: file_mode
  flushed :: bool

record kernel =
  entries :: "kpath \<rightharpoonup> entry"
  stable :: "kpath \<rightharpoonup> entry"
  inodes :: "nat \<rightharpoonup> inode"
  next_inode :: nat

text \<open>
  The environment: working directory, umask, the random numbers \<open>os.CreateTemp\<close> draws, a
  possible failure of each call, and \<open>atomic.ReplaceFile\<close> of \<open>natefinch/atomic\<close>, which is
  third-party code.
\<close>

record env =
  cwd :: kpath
  getwd :: "string result"
  umask :: file_mode
  suffixes :: "nat list"
  stat_fault :: "string \<Rightarrow> gerror option"
  mkdir_fault :: "kpath \<Rightarrow> gerror option"
  temp_fault :: "gerror option"
  open_fault :: "gerror option"
  chmod_fault :: "gerror option"
  write_fault :: "nat \<Rightarrow> (nat \<times> gerror) option"
  fsync_fault :: "gerror option"
  close_fault :: "gerror option"
  remove_fault :: "gerror option"
  dir_open_fault :: "string \<Rightarrow> gerror option"
  dir_sync_fault :: "string \<Rightarrow> gerror option"
  dir_close_fault :: "string \<Rightarrow> gerror option"
  replace_file :: "string \<Rightarrow> string \<Rightarrow> kernel \<Rightarrow> gerror option \<times> kernel"

record world =
  kern :: kernel
  seen :: "kernel list"
  fds :: "nat set"

definition emit :: "(kernel \<Rightarrow> kernel) \<Rightarrow> 'a world_scheme \<Rightarrow> 'a world_scheme" where
  "emit f w = w\<lparr>kern := f (kern w), seen := seen w @ [f (kern w)]\<rparr>"

lemma emit_simps [simp]:
  "kern (emit f w) = f (kern w)"
  "seen (emit f w) = seen w @ [f (kern w)]"
  "fds (emit f w) = fds w"
  by (simp_all add: emit_def)

lemma emit_more [simp]: "world.more (emit f w) = world.more w"
  by (simp add: emit_def)

subsection \<open>Lookups\<close>

fun is_dir :: "entry \<Rightarrow> bool" where
  "is_dir (DirEnt _) = True"
| "is_dir (FileEnt _) = False"

datatype stat_result = StatOk entry | StatNotExist | StatErr gerror

definition ENOTDIR :: gerror where "ENOTDIR = External ''ENOTDIR''"
definition EEXIST :: gerror where "EEXIST = External ''EEXIST''"
definition ENOENT :: gerror where "ENOENT = External ''ENOENT''"
definition EISDIR :: gerror where "EISDIR = External ''EISDIR''"

fun walk :: "kernel \<Rightarrow> kpath \<Rightarrow> string list \<Rightarrow> stat_result" where
  "walk k pre [] = (case entries k pre of None \<Rightarrow> StatNotExist | Some e \<Rightarrow> StatOk e)"
| "walk k pre (c # cs) =
     (case entries k pre of
        None \<Rightarrow> StatNotExist
      | Some (FileEnt _) \<Rightarrow> StatErr ENOTDIR
      | Some (DirEnt _) \<Rightarrow> walk k (pre @ [c]) cs)"

definition os_stat :: "env \<Rightarrow> kernel \<Rightarrow> string \<Rightarrow> stat_result" where
  "os_stat env k p =
     (case stat_fault env p of
        Some e \<Rightarrow> StatErr e
      | None \<Rightarrow> if p = [] then StatNotExist else walk k [] (resolve (cwd env) p))"

text \<open>
  A well-formed kernel: the root is a directory, an entry lies in a directory, inode
  numbers in use are below the next one.
\<close>

definition wf_kernel :: "kernel \<Rightarrow> bool" where
  "wf_kernel k \<longleftrightarrow>
     (\<exists>m. entries k [] = Some (DirEnt m)) \<and>
     (\<forall>p c. entries k (p @ [c]) \<noteq> None \<longrightarrow> (\<exists>m. entries k p = Some (DirEnt m))) \<and>
     (\<forall>p i. entries k p = Some (FileEnt i) \<longrightarrow> i < next_inode k) \<and>
     (\<forall>p i. stable k p = Some (FileEnt i) \<longrightarrow> i < next_inode k)"

subsection \<open>System calls\<close>

definition add_dir :: "env \<Rightarrow> kpath \<Rightarrow> file_mode \<Rightarrow> kernel \<Rightarrow> kernel" where
  "add_dir env d mode k = k\<lparr>entries := (entries k)(d \<mapsto> DirEnt (mode AND NOT (umask env)))\<rparr>"

text \<open>\<open>os.MkdirAll\<close>: from the root down, stopping at a file or at the first failure.\<close>

fun mkdir_all ::
  "env \<Rightarrow> file_mode \<Rightarrow> kpath \<Rightarrow> string list \<Rightarrow> 'a world_scheme \<Rightarrow> gerror option \<times> 'a world_scheme" where
  "mkdir_all env mode pre [] w = (None, w)"
| "mkdir_all env mode pre (c # cs) w =
     (case entries (kern w) (pre @ [c]) of
        Some (DirEnt _) \<Rightarrow> mkdir_all env mode (pre @ [c]) cs w
      | Some (FileEnt _) \<Rightarrow> (Some ENOTDIR, w)
      | None \<Rightarrow> (case mkdir_fault env (pre @ [c]) of
            Some e \<Rightarrow> (Some e, w)
          | None \<Rightarrow> mkdir_all env mode (pre @ [c]) cs (emit (add_dir env (pre @ [c]) mode) w)))"

text \<open>\<open>os.CreateTemp\<close> with pattern \<open>.durable-*.tmp\<close>: the first free name, at most 10000 tries.\<close>

definition temp_name :: "nat \<Rightarrow> string" where
  "temp_name s = ''.durable-'' @ itoa s @ ''.tmp''"

definition temp_path :: "string \<Rightarrow> nat \<Rightarrow> string" where
  "temp_path directory s =
     (if directory \<noteq> [] \<and> last directory = slash then directory @ temp_name s
      else directory @ slash # temp_name s)"

definition add_file :: "env \<Rightarrow> kpath \<Rightarrow> nat \<Rightarrow> kernel \<Rightarrow> kernel" where
  "add_file env p i k = k\<lparr>entries := (entries k)(p \<mapsto> FileEnt i),
     inodes := (inodes k)(i \<mapsto> \<lparr>content = [], perm = 384 AND NOT (umask env), flushed = False\<rparr>),
     next_inode := Suc i\<rparr>"

definition create_temp ::
  "env \<Rightarrow> string \<Rightarrow> 'a world_scheme \<Rightarrow> (string \<times> nat) result \<times> 'a world_scheme" where
  "create_temp env directory w =
     (case temp_fault env of
        Some e \<Rightarrow> (Inl e, w)
      | None \<Rightarrow>
        (case List.find (\<lambda>s. entries (kern w) (resolve (cwd env) (temp_path directory s)) = None)
                (take 10000 (suffixes env)) of
           None \<Rightarrow> (Inl EEXIST, w)
         | Some s \<Rightarrow>
           (let p = temp_path directory s; i = next_inode (kern w);
                w' = emit (add_file env (resolve (cwd env) p) i) w in
            (Inr (p, i), w'\<lparr>fds := insert i (fds w')\<rparr>))))"

text \<open>An open file refers to its inode, whatever happens to its name.\<close>

definition upd_inode :: "nat \<Rightarrow> (inode \<Rightarrow> inode) \<Rightarrow> kernel \<Rightarrow> kernel" where
  "upd_inode i f k = k\<lparr>inodes := (inodes k)(i := map_option f (inodes k i))\<rparr>"

definition os_chmod :: "env \<Rightarrow> nat \<Rightarrow> file_mode \<Rightarrow> 'a world_scheme \<Rightarrow> gerror option \<times> 'a world_scheme" where
  "os_chmod env i mode w =
     (case chmod_fault env of
        Some e \<Rightarrow> (Some e, w)
      | None \<Rightarrow> (None, emit (upd_inode i (\<lambda>n. n\<lparr>perm := mode\<rparr>)) w))"

text \<open>
  A reader delivers chunks and then end of file or an error; \<open>io.Copy\<close> writes each chunk
  and stops at the first error. A failing write may have written a part of its chunk.
\<close>

record reader =
  chunks :: "string list"
  read_err :: "gerror option"

definition append_bytes :: "string \<Rightarrow> inode \<Rightarrow> inode" where
  "append_bytes s n = n\<lparr>content := content n @ s, flushed := False\<rparr>"

fun io_copy ::
  "env \<Rightarrow> nat \<Rightarrow> string list \<Rightarrow> gerror option \<Rightarrow> nat \<Rightarrow> 'a world_scheme \<Rightarrow>
   gerror option \<times> 'a world_scheme" where
  "io_copy env i [] err n w = (err, w)"
| "io_copy env i (c # cs) err n w =
     (case write_fault env n of
        Some (m, e) \<Rightarrow> (Some e, emit (upd_inode i (append_bytes (take m c))) w)
      | None \<Rightarrow> io_copy env i cs err (Suc n) (emit (upd_inode i (append_bytes c)) w))"

definition os_fsync :: "env \<Rightarrow> nat \<Rightarrow> 'a world_scheme \<Rightarrow> gerror option \<times> 'a world_scheme" where
  "os_fsync env i w =
     (case fsync_fault env of
        Some e \<Rightarrow> (Some e, w)
      | None \<Rightarrow> (None, emit (upd_inode i (\<lambda>n. n\<lparr>flushed := True\<rparr>)) w))"

definition os_close :: "env \<Rightarrow> nat \<Rightarrow> 'a world_scheme \<Rightarrow> gerror option \<times> 'a world_scheme" where
  "os_close env i w = (close_fault env, w\<lparr>fds := fds w - {i}\<rparr>)"

text \<open>
  \<open>os.Remove\<close> of a file. Only temporary files are removed; a directory, which \<open>os.Remove\<close> would
  remove when it is empty, is refused here.
\<close>

definition os_remove :: "env \<Rightarrow> string \<Rightarrow> 'a world_scheme \<Rightarrow> gerror option \<times> 'a world_scheme" where
  "os_remove env p w =
     (case remove_fault env of
        Some e \<Rightarrow> (Some e, w)
      | None \<Rightarrow> (case entries (kern w) (resolve (cwd env) p) of
            None \<Rightarrow> (Some ENOENT, w)
          | Some (DirEnt _) \<Rightarrow> (Some EISDIR, w)
          | Some (FileEnt _) \<Rightarrow>
              (None, emit (\<lambda>k. k\<lparr>entries := (entries k)(resolve (cwd env) p := None)\<rparr>) w)))"

text \<open>\<open>os.OpenFile\<close> of an existing file for reading and writing.\<close>

definition os_open :: "env \<Rightarrow> string \<Rightarrow> 'a world_scheme \<Rightarrow> nat result \<times> 'a world_scheme" where
  "os_open env p w =
     (case open_fault env of
        Some e \<Rightarrow> (Inl e, w)
      | None \<Rightarrow> (case entries (kern w) (resolve (cwd env) p) of
            None \<Rightarrow> (Inl ENOENT, w)
          | Some (DirEnt _) \<Rightarrow> (Inl EISDIR, w)
          | Some (FileEnt i) \<Rightarrow> (Inr i, w\<lparr>fds := insert i (fds w)\<rparr>)))"

text \<open>Syncing a directory puts the visible entries of its children on stable storage.\<close>

definition sync_children :: "kpath \<Rightarrow> kernel \<Rightarrow> kernel" where
  "sync_children d k =
     k\<lparr>stable := (\<lambda>p. if p \<noteq> [] \<and> butlast p = d then entries k p else stable k p)\<rparr>"

subsection \<open>What third-party code promises\<close>

text \<open>
  \<open>atomic.ReplaceFile\<close>: it either replaces the target entirely, by the file the source
  names, or fails and changes nothing.
\<close>

definition replace_file_spec :: "env \<Rightarrow> bool" where
  "replace_file_spec env \<longleftrightarrow>
     (\<forall>src dst k e k'. replace_file env src dst k = (e, k') \<longrightarrow>
        (case e of
           Some _ \<Rightarrow> k' = k
         | None \<Rightarrow> \<exists>i. entries k (resolve (cwd env) src) = Some (FileEnt i) \<and>
             (\<forall>m. entries k (resolve (cwd env) dst) \<noteq> Some (DirEnt m)) \<and>
             k' = k\<lparr>entries := (entries k)(resolve (cwd env) src := None,
                                            resolve (cwd env) dst \<mapsto> FileEnt i)\<rparr>))"

text \<open>What a crash can leave of an entry: the version on stable storage or the visible one.\<close>

definition crash_view :: "kernel \<Rightarrow> kpath \<Rightarrow> entry option \<Rightarrow> bool" where
  "crash_view k p e \<longleftrightarrow> e = stable k p \<or> e = entries k p"

end
