(* ===== verification/Durable_Lock.thy ===== *)
theory Durable_Lock
  imports Go_Path
begin

section \<open>Package durablefile: the registry of destination locks\<close>

text \<open>
  \<open>destinationLockRegistry\<close>, \<open>destinationLock\<close> and \<open>lockDestination\<close> of
  \<open>durablefile/durablefile.go\<close>. The registry maps a destination to a reference-counted lock
  object (a pointer, here an index of \<open>objs\<close>); an entry is made on demand and deleted when
  the last user leaves. The two critical sections under the registry's own mutex are one
  step each; between them a thread waits for, holds and unlocks the object's mutex. The
  step relation interleaves any number of threads. The lemmas show the invariant of the
  registry, mutual exclusion, and that the registry refines one independent mutex per destination.
\<close>

subsection \<open>State\<close>

record lock_obj =
  lk_refs :: int
  lk_held :: bool

record registry =
  locks :: "string \<rightharpoonup> nat"
  objs :: "nat \<Rightarrow> lock_obj"
  next_obj :: nat

definition empty_registry :: registry where
  "empty_registry = \<lparr>locks = Map.empty, objs = (\<lambda>_. \<lparr>lk_refs = 0, lk_held = False\<rparr>), next_obj = 0\<rparr>"

subsection \<open>Operations\<close>

text \<open>The key: the absolute path, or the cleaned one when there is no working directory.\<close>

definition lock_key :: "string result \<Rightarrow> string \<Rightarrow> string" where
  "lock_key getwd path = (case path_abs getwd path of Inl _ \<Rightarrow> path_clean path | Inr k \<Rightarrow> k)"

text \<open>First critical section: find or make the object, count the reference.\<close>

definition lock_enter :: "string \<Rightarrow> registry \<Rightarrow> nat \<times> registry" where
  "lock_enter key r =
     (case locks r key of
        None \<Rightarrow>
          (let p = next_obj r in
           (p, r\<lparr>locks := (locks r)(key \<mapsto> p),
                 objs := (objs r)(p := \<lparr>lk_refs = 1, lk_held = False\<rparr>),
                 next_obj := Suc p\<rparr>))
      | Some p \<Rightarrow> (p, r\<lparr>objs := (objs r)(p := (objs r p)\<lparr>lk_refs := lk_refs (objs r p) + 1\<rparr>)\<rparr>))"

text \<open>\<open>lock.mu.Lock()\<close>: \<^const>\<open>None\<close> while another thread holds it.\<close>

definition lock_mu :: "nat \<Rightarrow> registry \<Rightarrow> registry option" where
  "lock_mu p r =
     (if lk_held (objs r p) then None
      else Some (r\<lparr>objs := (objs r)(p := (objs r p)\<lparr>lk_held := True\<rparr>)\<rparr>))"

definition unlock_mu :: "nat \<Rightarrow> registry \<Rightarrow> registry" where
  "unlock_mu p r = r\<lparr>objs := (objs r)(p := (objs r p)\<lparr>lk_held := False\<rparr>)\<rparr>"

text \<open>Second critical section: drop the reference, delete the entry with the last one.\<close>

definition lock_exit :: "string \<Rightarrow> nat \<Rightarrow> registry \<Rightarrow> registry" where
  "lock_exit key p r =
     (let n = lk_refs (objs r p) - 1;
          r' = r\<lparr>objs := (objs r)(p := (objs r p)\<lparr>lk_refs := n\<rparr>)\<rparr> in
      if n = 0 then r'\<lparr>locks := (locks r')(key := None)\<rparr> else r')"

text \<open>The function and the closure it returns, run by one thread with nobody in between.\<close>

definition lock_destination :: "string \<Rightarrow> registry \<Rightarrow> (nat \<times> registry) option" where
  "lock_destination key r =
     (let (p, r1) = lock_enter key r in
      case lock_mu p r1 of None \<Rightarrow> None | Some r2 \<Rightarrow> Some (p, r2))"

definition release_destination :: "string \<Rightarrow> nat \<Rightarrow> registry \<Rightarrow> registry" where
  "release_destination key p r = lock_exit key p (unlock_mu p r)"

lemma lock_destination_uncontended:
  assumes "locks r key = None"
  shows "\<exists>p r2. lock_destination key r = Some (p, r2) \<and>
    locks (release_destination key p r2) = locks r"
  using assms
  by (simp add: lock_destination_def lock_enter_def lock_mu_def release_destination_def
      lock_exit_def unlock_mu_def Let_def fun_upd_idem)

subsection \<open>Threads\<close>

datatype lock_pc =
    Out
  | Waiting string nat
  | Inside string nat
  | Leaving string nat

record lock_sys =
  reg :: registry
  pcs :: "nat \<Rightarrow> lock_pc"

definition init_lock_sys :: lock_sys where
  "init_lock_sys = \<lparr>reg = empty_registry, pcs = (\<lambda>_. Out)\<rparr>"

inductive lock_step :: "lock_sys \<Rightarrow> lock_sys \<Rightarrow> bool" where
  enter: "pcs s t = Out \<Longrightarrow> lock_enter k (reg s) = (p, r) \<Longrightarrow>
     lock_step s (s\<lparr>reg := r, pcs := (pcs s)(t := Waiting k p)\<rparr>)"
| acquire: "pcs s t = Waiting k p \<Longrightarrow> lock_mu p (reg s) = Some r \<Longrightarrow>
     lock_step s (s\<lparr>reg := r, pcs := (pcs s)(t := Inside k p)\<rparr>)"
| unlock: "pcs s t = Inside k p \<Longrightarrow>
     lock_step s (s\<lparr>reg := unlock_mu p (reg s), pcs := (pcs s)(t := Leaving k p)\<rparr>)"
| leave: "pcs s t = Leaving k p \<Longrightarrow>
     lock_step s (s\<lparr>reg := lock_exit k p (reg s), pcs := (pcs s)(t := Out)\<rparr>)"

inductive lock_reachable :: "lock_sys \<Rightarrow> bool" where
  start: "lock_reachable init_lock_sys"
| step: "lock_reachable s \<Longrightarrow> lock_step s s' \<Longrightarrow> lock_reachable s'"

subsection \<open>The invariant\<close>

text \<open>What a thread is attached to: its destination and the object it counted itself at.\<close>

fun pc_lock :: "lock_pc \<Rightarrow> (string \<times> nat) option" where
  "pc_lock Out = None"
| "pc_lock (Waiting k p) = Some (k, p)"
| "pc_lock (Inside k p) = Some (k, p)"
| "pc_lock (Leaving k p) = Some (k, p)"

definition users :: "(nat \<Rightarrow> lock_pc) \<Rightarrow> nat \<Rightarrow> nat set" where
  "users f p = {t. \<exists>k. pc_lock (f t) = Some (k, p)}"

definition insiders :: "(nat \<Rightarrow> lock_pc) \<Rightarrow> nat \<Rightarrow> nat set" where
  "insiders f p = {t. \<exists>k. f t = Inside k p}"

definition obj_ok :: "lock_obj \<Rightarrow> nat set \<Rightarrow> nat set \<Rightarrow> bool" where
  "obj_ok ob U I \<longleftrightarrow> lk_refs ob = int (card U) \<and> U \<noteq> {} \<and> (lk_held ob \<longleftrightarrow> I \<noteq> {}) \<and>
     (\<forall>t \<in> I. \<forall>u \<in> I. t = u)"

definition lock_inv :: "lock_sys \<Rightarrow> bool" where
  "lock_inv s \<longleftrightarrow>
     finite {t. pcs s t \<noteq> Out} \<and>
     (\<forall>t k p. pc_lock (pcs s t) = Some (k, p) \<longrightarrow> locks (reg s) k = Some p) \<and>
     (\<forall>k p. locks (reg s) k = Some p \<longrightarrow>
        p < next_obj (reg s) \<and> obj_ok (objs (reg s) p) (users (pcs s) p) (insiders (pcs s) p)) \<and>
     (\<forall>k k' p. locks (reg s) k = Some p \<longrightarrow> locks (reg s) k' = Some p \<longrightarrow> k = k')"

lemma lock_inv_finite: "lock_inv s \<Longrightarrow> finite {t. pcs s t \<noteq> Out}"
  and lock_inv_attached:
    "lock_inv s \<Longrightarrow> pc_lock (pcs s t) = Some (k, p) \<Longrightarrow> locks (reg s) k = Some p"
  and lock_inv_bound: "lock_inv s \<Longrightarrow> locks (reg s) k = Some p \<Longrightarrow> p < next_obj (reg s)"
  and lock_inv_obj: "lock_inv s \<Longrightarrow> locks (reg s) k = Some p \<Longrightarrow>
    obj_ok (objs (reg s) p) (users (pcs s) p) (insiders (pcs s) p)"
  and lock_inv_inj:
    "lock_inv s \<Longrightarrow> locks (reg s) k = Some p \<Longrightarrow> locks (reg s) k' = Some p \<Longrightarrow> k = k'"
  unfolding lock_inv_def by blast+

lemma lock_invI:
  assumes "finite {t. pcs s t \<noteq> Out}"
    and "\<And>t k p. pc_lock (pcs s t) = Some (k, p) \<Longrightarrow> locks (reg s) k = Some p"
    and "\<And>k p. locks (reg s) k = Some p \<Longrightarrow> p < next_obj (reg s)"
    and "\<And>k p. locks (reg s) k = Some p \<Longrightarrow>
      obj_ok (objs (reg s) p) (users (pcs s) p) (insiders (pcs s) p)"
    and "\<And>k k' p. locks (reg s) k = Some p \<Longrightarrow> locks (reg s) k' = Some p \<Longrightarrow> k = k'"
  shows "lock_inv s"
  using assms unfolding lock_inv_def by blast

lemma users_finite: "lock_inv s \<Longrightarrow> finite (users (pcs s) p)"
  by (rule finite_subset [OF _ lock_inv_finite]) (auto simp: users_def)

lemma users_update:
  "users (f(t := c)) p =
     (if \<exists>k. pc_lock c = Some (k, p) then insert t (users f p) else users f p - {t})"
  by (auto simp: users_def)

lemma insiders_update:
  "insiders (f(t := c)) p = (if \<exists>k. c = Inside k p then insert t (insiders f p) else insiders f p - {t})"
  by (auto simp: insiders_def)

lemma users_same: "pc_lock c = pc_lock (f t) \<Longrightarrow> users (f(t := c)) p = users f p"
  by (auto simp: users_def)

lemma not_user: "\<forall>k. pc_lock (f t) \<noteq> Some (k, p) \<Longrightarrow> users f p - {t} = users f p"
  and not_insider: "\<forall>k. f t \<noteq> Inside k p \<Longrightarrow> insiders f p - {t} = insiders f p"
  by (auto simp: users_def insiders_def)

lemma insider_user: "insiders f p \<subseteq> users f p"
  by (auto simp: users_def insiders_def)

lemma finite_pcs_update: "finite {t. f t \<noteq> Out} \<Longrightarrow> finite {u. (f(t := c)) u \<noteq> Out}"
  by (rule finite_subset [of _ "insert t {t. f t \<noteq> Out}"]) auto

lemma lock_inv_init: "lock_inv init_lock_sys"
  by (simp add: lock_inv_def init_lock_sys_def empty_registry_def)

subsection \<open>Every step keeps it\<close>

lemma lock_inv_acquire:
  assumes inv: "lock_inv s" and pc: "pcs s t = Waiting k p" and mu: "lock_mu p (reg s) = Some r"
  shows "lock_inv (s\<lparr>reg := r, pcs := (pcs s)(t := Inside k p)\<rparr>)"
proof -
  have kp: "locks (reg s) k = Some p" using lock_inv_attached [OF inv, of t k p] pc by simp
  have free: "\<not> lk_held (objs (reg s) p)"
    and r: "r = (reg s)\<lparr>objs := (objs (reg s))(p := (objs (reg s) p)\<lparr>lk_held := True\<rparr>)\<rparr>"
    using mu by (auto simp: lock_mu_def split: if_splits)
  have none: "insiders (pcs s) p = {}"
    using lock_inv_obj [OF inv kp] free by (simp add: obj_ok_def)
  have users: "users ((pcs s)(t := Inside k p)) q = users (pcs s) q" for q
    by (rule users_same) (simp add: pc)
  show ?thesis
  proof (rule lock_invI, goal_cases)
    case 1
    show ?case using finite_pcs_update [OF lock_inv_finite [OF inv]] by simp
  next
    case (2 u k' q)
    then show ?case using lock_inv_attached [OF inv] kp by (simp add: r split: if_splits)
  next
    case (4 k' q)
    then show ?case using lock_inv_obj [OF inv] none pc
      by (auto simp: r users insiders_update not_insider obj_ok_def)
  qed (use lock_inv_bound [OF inv] lock_inv_inj [OF inv] in \<open>simp_all add: r\<close>)
qed

lemma lock_inv_unlock:
  assumes inv: "lock_inv s" and pc: "pcs s t = Inside k p"
  shows "lock_inv (s\<lparr>reg := unlock_mu p (reg s), pcs := (pcs s)(t := Leaving k p)\<rparr>)"
proof -
  have kp: "locks (reg s) k = Some p" using lock_inv_attached [OF inv, of t k p] pc by simp
  have users: "users ((pcs s)(t := Leaving k p)) q = users (pcs s) q" for q
    by (rule users_same) (simp add: pc)
  have "t \<in> insiders (pcs s) p" using pc by (simp add: insiders_def)
  then have alone: "insiders (pcs s) p - {t} = {}"
    using lock_inv_obj [OF inv kp] by (auto simp: obj_ok_def)
  have ins: "insiders ((pcs s)(t := Leaving k p)) q = (if q = p then {} else insiders (pcs s) q)" for q
    using pc alone by (simp add: insiders_update not_insider)
  show ?thesis
  proof (rule lock_invI, goal_cases)
    case 1
    show ?case using finite_pcs_update [OF lock_inv_finite [OF inv]] by simp
  next
    case (2 u k' q)
    then show ?case using lock_inv_attached [OF inv] kp
      by (simp add: unlock_mu_def split: if_splits)
  next
    case (4 k' q)
    then show ?case using lock_inv_obj [OF inv]
      by (auto simp: unlock_mu_def users ins obj_ok_def)
  qed (use lock_inv_bound [OF inv] lock_inv_inj [OF inv] in \<open>simp_all add: unlock_mu_def\<close>)
qed

lemma lock_inv_enter:
  assumes inv: "lock_inv s" and pc: "pcs s t = Out" and en: "lock_enter k (reg s) = (p, r)"
  shows "lock_inv (s\<lparr>reg := r, pcs := (pcs s)(t := Waiting k p)\<rparr>)"
proof -
  have users: "users ((pcs s)(t := Waiting k p)) q =
      (if q = p then insert t (users (pcs s) q) else users (pcs s) q)" for q
    using pc by (simp add: users_update not_user)
  have ins: "insiders ((pcs s)(t := Waiting k p)) q = insiders (pcs s) q" for q
    using pc by (simp add: insiders_update not_insider)
  have t: "t \<notin> users (pcs s) q" for q using pc by (simp add: users_def)
  have fin: "finite {u. ((pcs s)(t := Waiting k p)) u \<noteq> Out}"
    by (rule finite_pcs_update [OF lock_inv_finite [OF inv]])
  show ?thesis
  proof (cases "locks (reg s) k")
    case None
    then have p: "p = next_obj (reg s)"
      and r: "r = (reg s)\<lparr>locks := (locks (reg s))(k \<mapsto> p),
        objs := (objs (reg s))(p := \<lparr>lk_refs = 1, lk_held = False\<rparr>), next_obj := Suc p\<rparr>"
      using en by (auto simp: lock_enter_def Let_def)
    have fresh: "locks (reg s) k' \<noteq> Some p" for k'
      using lock_inv_bound [OF inv, of k' p] p by auto
    then have no_users: "users (pcs s) p = {}"
      using lock_inv_attached [OF inv] by (auto simp: users_def)
    then have no_insiders: "insiders (pcs s) p = {}" using insider_user [of "pcs s" p] by simp
    show ?thesis
    proof (rule lock_invI, goal_cases)
      case (2 u k' q)
      then show ?case using lock_inv_attached [OF inv] None by (auto simp: r split: if_splits)
    next
      case (3 k' q)
      then show ?case using lock_inv_bound [OF inv] p
        by (auto simp: r less_Suc_eq split: if_splits)
    next
      case (4 k' q)
      then show ?case using lock_inv_obj [OF inv] fresh no_users no_insiders
        by (auto simp: r users ins obj_ok_def split: if_splits)
    next
      case (5 k1 k2 q)
      then show ?case using lock_inv_inj [OF inv] fresh by (auto simp: r split: if_splits)
    qed (use fin in simp)
  next
    case (Some p')
    then have kp: "locks (reg s) k = Some p"
      and r: "r = (reg s)\<lparr>objs := (objs (reg s))(p := (objs (reg s) p)\<lparr>lk_refs := lk_refs (objs (reg s) p) + 1\<rparr>)\<rparr>"
      using en by (auto simp: lock_enter_def)
    show ?thesis
    proof (rule lock_invI, goal_cases)
      case (2 u k' q)
      then show ?case using lock_inv_attached [OF inv] kp by (auto simp: r split: if_splits)
    next
      case (4 k' q)
      then show ?case using lock_inv_obj [OF inv] t users_finite [OF inv]
        by (auto simp: r users ins obj_ok_def)
    qed (use fin lock_inv_bound [OF inv] lock_inv_inj [OF inv] in \<open>simp_all add: r\<close>)
  qed
qed

lemma lock_inv_leave:
  assumes inv: "lock_inv s" and pc: "pcs s t = Leaving k p"
  shows "lock_inv (s\<lparr>reg := lock_exit k p (reg s), pcs := (pcs s)(t := Out)\<rparr>)"
proof -
  have kp: "locks (reg s) k = Some p" using lock_inv_attached [OF inv, of t k p] pc by simp
  have t: "t \<in> users (pcs s) p" using pc by (simp add: users_def)
  have users: "users ((pcs s)(t := Out)) q =
      (if q = p then users (pcs s) p - {t} else users (pcs s) q)" for q
    using pc by (auto simp: users_update not_user)
  have ins: "insiders ((pcs s)(t := Out)) q = insiders (pcs s) q" for q
    using pc by (simp add: insiders_update not_insider)
  have fin: "finite {u. ((pcs s)(t := Out)) u \<noteq> Out}"
    by (rule finite_pcs_update [OF lock_inv_finite [OF inv]])
  have refs: "lk_refs (objs (reg s) p) - 1 = int (card (users (pcs s) p - {t}))"
    using lock_inv_obj [OF inv kp] t users_finite [OF inv, of p]
    by (simp add: obj_ok_def card_Diff_singleton) (metis card_gt_0_iff empty_iff of_nat_1 of_nat_diff
        Suc_leI One_nat_def)
  have empty: "lk_refs (objs (reg s) p) - 1 = 0 \<longleftrightarrow> users (pcs s) p - {t} = {}"
    unfolding refs using users_finite [OF inv, of p] by simp
  have other: "q \<noteq> p" if "locks (reg s) k' = Some q" "k' \<noteq> k" for k' q
    using lock_inv_inj [OF inv kp] that by auto
  show ?thesis
  proof (cases "users (pcs s) p - {t} = {}")
    case True
    then have r: "lock_exit k p (reg s) = (reg s)\<lparr>objs := (objs (reg s))(p := (objs (reg s) p)\<lparr>lk_refs := 0\<rparr>),
        locks := (locks (reg s))(k := None)\<rparr>"
      using empty by (simp add: lock_exit_def Let_def)
    show ?thesis
    proof (rule lock_invI, goal_cases)
      case (2 u k' q)
      then have u: "u \<noteq> t" "pc_lock (pcs s u) = Some (k', q)" by (auto split: if_splits)
      then have "locks (reg s) k' = Some q" using lock_inv_attached [OF inv] by blast
      moreover have "k' \<noteq> k"
      proof
        assume "k' = k"
        then have "u \<in> users (pcs s) p" using u kp calculation by (auto simp: users_def)
        with True u(1) show False by blast
      qed
      ultimately show ?case by (simp add: r)
    next
      case (4 k' q)
      then show ?case using lock_inv_obj [OF inv] other
        by (auto simp: r users ins split: if_splits)
    qed (use fin lock_inv_bound [OF inv] lock_inv_inj [OF inv] in \<open>auto simp: r split: if_splits\<close>)
  next
    case False
    then have r: "lock_exit k p (reg s) = (reg s)\<lparr>objs := (objs (reg s))(p := (objs (reg s) p)\<lparr>lk_refs := lk_refs (objs (reg s) p) - 1\<rparr>)\<rparr>"
      using empty by (simp add: lock_exit_def Let_def)
    show ?thesis
    proof (rule lock_invI, goal_cases)
      case (2 u k' q)
      then show ?case using lock_inv_attached [OF inv] by (auto simp: r split: if_splits)
    next
      case (4 k' q)
      then show ?case using lock_inv_obj [OF inv] refs False
        by (auto simp: r users ins obj_ok_def)
    qed (use fin lock_inv_bound [OF inv] lock_inv_inj [OF inv] in \<open>simp_all add: r\<close>)
  qed
qed

lemma lock_step_inv: "lock_step s s' \<Longrightarrow> lock_inv s \<Longrightarrow> lock_inv s'"
  by (induction rule: lock_step.induct)
    (blast intro: lock_inv_enter lock_inv_acquire lock_inv_unlock lock_inv_leave)+

lemma lock_reachable_inv: "lock_reachable s \<Longrightarrow> lock_inv s"
  by (induction rule: lock_reachable.induct) (auto intro: lock_inv_init lock_step_inv)

subsection \<open>The steps as a function of the thread that moves\<close>

fun lock_move :: "nat \<Rightarrow> string \<Rightarrow> lock_sys \<Rightarrow> lock_sys option" where
  "lock_move t key s =
     (case pcs s t of
        Out \<Rightarrow> (let (p, r) = lock_enter key (reg s) in
                  Some (s\<lparr>reg := r, pcs := (pcs s)(t := Waiting key p)\<rparr>))
      | Waiting k p \<Rightarrow> (case lock_mu p (reg s) of
            None \<Rightarrow> None
          | Some r \<Rightarrow> Some (s\<lparr>reg := r, pcs := (pcs s)(t := Inside k p)\<rparr>))
      | Inside k p \<Rightarrow> Some (s\<lparr>reg := unlock_mu p (reg s), pcs := (pcs s)(t := Leaving k p)\<rparr>)
      | Leaving k p \<Rightarrow> Some (s\<lparr>reg := lock_exit k p (reg s), pcs := (pcs s)(t := Out)\<rparr>))"

fun lock_run :: "(nat \<times> string) list \<Rightarrow> lock_sys \<Rightarrow> lock_sys option" where
  "lock_run [] s = Some s"
| "lock_run ((t, k) # ms) s = (case lock_move t k s of None \<Rightarrow> None | Some s' \<Rightarrow> lock_run ms s')"

lemma lock_move_step: "lock_move t k s = Some s' \<Longrightarrow> lock_step s s'"
  by (cases "pcs s t") (auto simp: Let_def split: prod.splits option.splits intro: lock_step.intros)

lemma lock_step_move: "lock_step s s' \<Longrightarrow> \<exists>t k. lock_move t k s = Some s'"
proof (induction rule: lock_step.induct)
  case (enter s t k p r)
  then have "lock_move t k s = Some (s\<lparr>reg := r, pcs := (pcs s)(t := Waiting k p)\<rparr>)" by simp
  then show ?case by blast
next
  case (acquire s t k p r)
  then have "lock_move t k s = Some (s\<lparr>reg := r, pcs := (pcs s)(t := Inside k p)\<rparr>)" by simp
  then show ?case by blast
next
  case (unlock s t k p)
  then have "lock_move t k s = Some (s\<lparr>reg := unlock_mu p (reg s), pcs := (pcs s)(t := Leaving k p)\<rparr>)" by simp
  then show ?case by blast
next
  case (leave s t k p)
  then have "lock_move t k s = Some (s\<lparr>reg := lock_exit k p (reg s), pcs := (pcs s)(t := Out)\<rparr>)" by simp
  then show ?case by blast
qed

lemma lock_run_reachable: "lock_run ms s = Some s' \<Longrightarrow> lock_reachable s \<Longrightarrow> lock_reachable s'"
  by (induction ms s rule: lock_run.induct)
    (auto split: option.splits intro: lock_reachable.step lock_move_step simp del: lock_move.simps)

text \<open>A run used by the witnesses: thread 0 is inside \<open>/a\<close>, thread 1 waits for it.\<close>

definition lock_example :: lock_sys where
  "lock_example = the (lock_run [(0, ''/a''), (1, ''/a''), (0, ''/a'')] init_lock_sys)"

lemmas lock_eval = lock_enter_def lock_mu_def unlock_mu_def lock_exit_def init_lock_sys_def
  empty_registry_def Let_def

lemma lock_example_pcs:
  "pcs lock_example 0 = Inside ''/a'' 0" "pcs lock_example (Suc 0) = Waiting ''/a'' 0"
  by (simp_all add: lock_example_def lock_eval)

lemma lock_example_reachable: "lock_reachable lock_example"
proof -
  have "lock_run [(0, ''/a''), (1, ''/a''), (0, ''/a'')] init_lock_sys = Some lock_example"
    by (simp add: lock_example_def lock_eval)
  then show ?thesis by (rule lock_run_reachable) (rule lock_reachable.start)
qed

subsection \<open>Mutual exclusion\<close>

lemma inside_unique:
  assumes "lock_reachable s" and "pcs s t = Inside k p" and "pcs s u = Inside k q"
  shows "t = u"
proof -
  have inv: "lock_inv s" using assms(1) by (rule lock_reachable_inv)
  have "locks (reg s) k = Some p" "locks (reg s) k = Some q"
    using lock_inv_attached [OF inv, of t k p] lock_inv_attached [OF inv, of u k q] assms(2,3)
    by simp_all
  then show ?thesis using lock_inv_obj [OF inv, of k p] assms(2,3)
    by (auto simp: obj_ok_def insiders_def)
qed

text \<open>
  C11. Mutual exclusion of replacements: in every reachable state of any number of threads, a
  thread between \<open>lockDestination\<close> and the release of a destination is the only one there.
\<close>

theorem lock_mutual_exclusion:
  assumes "lock_reachable s" and "pcs s t = Inside k p"
  shows "{u. \<exists>q. pcs s u = Inside k q} = {t}"
  using inside_unique [OF assms(1)] assms(2) by blast

theorem lock_mutual_exclusion_witness:
  "{u. \<exists>q. pcs lock_example u = Inside ''/a'' q} = {0}"
  by (rule lock_mutual_exclusion [OF lock_example_reachable lock_example_pcs(1)])

text \<open>
  The registry never leaks and never loses a lock: a destination has an entry exactly
  while some thread is between its two critical sections, the entry's reference count is
  the number of those threads, and when nobody is left the registry is empty again.
\<close>

theorem lock_registry_exact:
  assumes "lock_reachable s"
  shows "(locks (reg s) k = None \<longleftrightarrow> (\<forall>t p. pc_lock (pcs s t) \<noteq> Some (k, p))) \<and>
    (\<forall>p. locks (reg s) k = Some p \<longrightarrow>
       lk_refs (objs (reg s) p) = int (card {t. pc_lock (pcs s t) = Some (k, p)}))"
proof -
  have inv: "lock_inv s" using assms by (rule lock_reachable_inv)
  have same: "users (pcs s) p = {t. pc_lock (pcs s t) = Some (k, p)}" if "locks (reg s) k = Some p" for p
    using lock_inv_inj [OF inv that] lock_inv_attached [OF inv] by (auto simp: users_def)
  have used: "\<exists>t. pc_lock (pcs s t) = Some (k, p)" if "locks (reg s) k = Some p" for p
    using lock_inv_obj [OF inv that] same [OF that] by (auto simp: obj_ok_def)
  have "locks (reg s) k = None \<longleftrightarrow> (\<forall>t p. pc_lock (pcs s t) \<noteq> Some (k, p))"
  proof (cases "locks (reg s) k")
    case None
    then show ?thesis using lock_inv_attached [OF inv, of _ k] by force
  next
    case (Some p)
    then show ?thesis using used [OF Some] by auto
  qed
  moreover have "lk_refs (objs (reg s) p) = int (card {t. pc_lock (pcs s t) = Some (k, p)})"
    if "locks (reg s) k = Some p" for p
    using lock_inv_obj [OF inv that] same [OF that] by (simp add: obj_ok_def)
  ultimately show ?thesis by blast
qed

theorem lock_registry_exact_witness:
  "locks (reg lock_example) ''/b'' = None \<longleftrightarrow>
     (\<forall>t p. pc_lock (pcs lock_example t) \<noteq> Some (''/b'', p))"
  using lock_registry_exact [OF lock_example_reachable, of "''/b''"] by blast

text \<open>
  Independence: a thread that waits for a destination can always take it at once,
  unless another thread is inside the very same destination. Operations on other
  destinations never block it, and unlocking finds the mutex locked.
\<close>

theorem lock_blocked_only_by_same_destination:
  assumes "lock_reachable s" and "pcs s t = Waiting k p"
  shows "lock_move t k s = None \<longleftrightarrow> (\<exists>u. u \<noteq> t \<and> pcs s u = Inside k p)"
proof -
  have inv: "lock_inv s" using assms(1) by (rule lock_reachable_inv)
  have kp: "locks (reg s) k = Some p" using lock_inv_attached [OF inv, of t k p] assms(2) by simp
  have "insiders (pcs s) p = {u. pcs s u = Inside k p}"
    using lock_inv_inj [OF inv kp] lock_inv_attached [OF inv]
    unfolding insiders_def by (metis pc_lock.simps(3))
  then have "lk_held (objs (reg s) p) \<longleftrightarrow> (\<exists>u. pcs s u = Inside k p)"
    using lock_inv_obj [OF inv kp] by (auto simp: obj_ok_def)
  moreover have "lock_move t k s = None \<longleftrightarrow> lk_held (objs (reg s) p)"
    using assms(2) by (simp add: lock_mu_def)
  ultimately show ?thesis using assms(2) by (metis lock_pc.distinct(7))
qed

theorem lock_blocked_only_by_same_destination_witness:
  "lock_move 1 ''/a'' lock_example = None \<longleftrightarrow>
     (\<exists>u. u \<noteq> 1 \<and> pcs lock_example u = Inside ''/a'' 0)"
  using lock_blocked_only_by_same_destination [OF lock_example_reachable, of 1] lock_example_pcs(2)
  by simp

subsection \<open>The registry implements one mutex per destination\<close>

text \<open>
  The specification knows no registry, no objects and no counts: there is a mutex per
  destination, and a thread that wants one goes on exactly when nobody owns it.
\<close>

datatype mutex_pc =
    Idle
  | Seeks string
  | Owns string
  | Released string

record mutexes =
  taken :: "string set"
  mutex_phase :: "nat \<Rightarrow> mutex_pc"

definition init_mutexes :: mutexes where
  "init_mutexes = \<lparr>taken = {}, mutex_phase = (\<lambda>_. Idle)\<rparr>"

definition mutex_move :: "nat \<Rightarrow> string \<Rightarrow> mutexes \<Rightarrow> mutexes option" where
  "mutex_move t key m =
     (case mutex_phase m t of
        Idle \<Rightarrow> Some (m\<lparr>mutex_phase := (mutex_phase m)(t := Seeks key)\<rparr>)
      | Seeks k \<Rightarrow> (if k \<in> taken m then None
          else Some (m\<lparr>taken := insert k (taken m), mutex_phase := (mutex_phase m)(t := Owns k)\<rparr>))
      | Owns k \<Rightarrow> Some (m\<lparr>taken := taken m - {k}, mutex_phase := (mutex_phase m)(t := Released k)\<rparr>)
      | Released k \<Rightarrow> Some (m\<lparr>mutex_phase := (mutex_phase m)(t := Idle)\<rparr>))"

fun mutex_run :: "(nat \<times> string) list \<Rightarrow> mutexes \<Rightarrow> mutexes option" where
  "mutex_run [] m = Some m"
| "mutex_run ((t, k) # ms) m = (case mutex_move t k m of None \<Rightarrow> None | Some m' \<Rightarrow> mutex_run ms m')"

text \<open>
  What the registry represents: a destination is taken when it has an entry and the mutex of
  the entry's object is locked. The pointers that the threads keep are forgotten.
\<close>

definition lock_held_in :: "registry \<Rightarrow> string \<Rightarrow> bool" where
  "lock_held_in r k = (case locks r k of None \<Rightarrow> False | Some p \<Rightarrow> lk_held (objs r p))"

fun pc_view :: "lock_pc \<Rightarrow> mutex_pc" where
  "pc_view Out = Idle"
| "pc_view (Waiting k p) = Seeks k"
| "pc_view (Inside k p) = Owns k"
| "pc_view (Leaving k p) = Released k"

definition mutex_view :: "lock_sys \<Rightarrow> mutexes" where
  "mutex_view s = \<lparr>taken = {k. lock_held_in (reg s) k}, mutex_phase = (\<lambda>t. pc_view (pcs s t))\<rparr>"

lemma mutex_view_eq:
  assumes "\<And>k. lock_held_in r k \<longleftrightarrow> k \<in> H" and "pc_view c = v"
  shows "mutex_view (s\<lparr>reg := r, pcs := (pcs s)(t := c)\<rparr>) =
    mutex_view s\<lparr>taken := H, mutex_phase := (mutex_phase (mutex_view s))(t := v)\<rparr>"
  using assms by (auto simp: mutex_view_def)

lemma held_after_enter:
  assumes "lock_inv s" and "lock_enter k (reg s) = (p, r)"
  shows "lock_held_in r k' = lock_held_in (reg s) k'"
proof (cases "locks (reg s) k")
  case None
  have "q \<noteq> next_obj (reg s)" if "locks (reg s) k' = Some q" for q
    using lock_inv_bound [OF assms(1) that] by simp
  with None assms(2) show ?thesis
    by (auto simp: lock_enter_def lock_held_in_def Let_def split: option.splits if_splits)
qed (use assms(2) in \<open>auto simp: lock_enter_def lock_held_in_def split: option.splits if_splits\<close>)

lemma held_after_mutex:
  assumes "lock_inv s" and "locks (reg s) k = Some p"
  shows "lock_held_in ((reg s)\<lparr>objs := (objs (reg s))(p := (objs (reg s) p)\<lparr>lk_held := b\<rparr>)\<rparr>) k' =
    (if k' = k then b else lock_held_in (reg s) k')"
proof (cases "k' = k")
  case False
  then have "locks (reg s) k' \<noteq> Some p" using lock_inv_inj [OF assms, of k'] by auto
  with False show ?thesis by (auto simp: lock_held_in_def split: option.splits)
qed (simp add: lock_held_in_def assms(2))

text \<open>The last user only deletes the entry of a mutex that is not locked.\<close>

lemma held_after_exit:
  assumes inv: "lock_inv s" and pc: "pcs s t = Leaving k p"
  shows "lock_held_in (lock_exit k p (reg s)) k' = lock_held_in (reg s) k'"
proof -
  have kp: "locks (reg s) k = Some p" using lock_inv_attached [OF inv, of t k p] pc by simp
  note ob = lock_inv_obj [OF inv kp]
  have "\<not> lk_held (objs (reg s) p)" if "lk_refs (objs (reg s) p) - 1 = 0"
  proof -
    have "card (users (pcs s) p) = 1" using that ob by (simp add: obj_ok_def)
    moreover have "t \<in> users (pcs s) p" "t \<notin> insiders (pcs s) p" using pc by (auto simp: users_def insiders_def)
    ultimately have "insiders (pcs s) p = {}" using insider_user [of "pcs s" p] by (auto simp: card_1_singleton_iff)
    with ob show ?thesis by (simp add: obj_ok_def)
  qed
  with kp show ?thesis by (auto simp: lock_exit_def lock_held_in_def Let_def split: option.splits)
qed

lemma lock_move_simulates:
  assumes inv: "lock_inv s"
  shows "map_option mutex_view (lock_move t key s) = mutex_move t key (mutex_view s)"
proof -
  have pc: "mutex_phase (mutex_view s) t = pc_view (pcs s t)" by (simp add: mutex_view_def)
  have own: "taken (mutex_view s) = {k. lock_held_in (reg s) k}" by (simp add: mutex_view_def)
  show ?thesis
  proof (cases "pcs s t")
    case Out
    obtain p r where en: "lock_enter key (reg s) = (p, r)" by fastforce
    have "mutex_view (s\<lparr>reg := r, pcs := (pcs s)(t := Waiting key p)\<rparr>) =
        mutex_view s\<lparr>taken := taken (mutex_view s), mutex_phase := (mutex_phase (mutex_view s))(t := Seeks key)\<rparr>"
      by (rule mutex_view_eq) (simp_all add: own held_after_enter [OF inv en])
    with Out en pc show ?thesis by (simp add: mutex_move_def)
  next
    case (Waiting k p)
    have kp: "locks (reg s) k = Some p" using lock_inv_attached [OF inv, of t k p] Waiting by simp
    then have blocked: "k \<in> taken (mutex_view s) \<longleftrightarrow> lk_held (objs (reg s) p)" by (simp add: own lock_held_in_def)
    have "mutex_view (s\<lparr>reg := r, pcs := (pcs s)(t := Inside k p)\<rparr>) =
        mutex_view s\<lparr>taken := insert k (taken (mutex_view s)), mutex_phase := (mutex_phase (mutex_view s))(t := Owns k)\<rparr>"
      if "r = (reg s)\<lparr>objs := (objs (reg s))(p := (objs (reg s) p)\<lparr>lk_held := True\<rparr>)\<rparr>" for r
      unfolding that by (rule mutex_view_eq) (auto simp: own held_after_mutex [OF inv kp])
    with Waiting blocked pc show ?thesis by (simp add: mutex_move_def lock_mu_def)
  next
    case (Inside k p)
    have kp: "locks (reg s) k = Some p" using lock_inv_attached [OF inv, of t k p] Inside by simp
    have "mutex_view (s\<lparr>reg := unlock_mu p (reg s), pcs := (pcs s)(t := Leaving k p)\<rparr>) =
        mutex_view s\<lparr>taken := taken (mutex_view s) - {k}, mutex_phase := (mutex_phase (mutex_view s))(t := Released k)\<rparr>"
      unfolding unlock_mu_def by (rule mutex_view_eq) (auto simp: own held_after_mutex [OF inv kp])
    with Inside pc show ?thesis by (simp add: mutex_move_def)
  next
    case (Leaving k p)
    have "mutex_view (s\<lparr>reg := lock_exit k p (reg s), pcs := (pcs s)(t := Out)\<rparr>) =
        mutex_view s\<lparr>taken := taken (mutex_view s), mutex_phase := (mutex_phase (mutex_view s))(t := Idle)\<rparr>"
      by (rule mutex_view_eq) (simp_all add: own held_after_exit [OF inv Leaving])
    with Leaving pc show ?thesis by (simp add: mutex_move_def)
  qed
qed

lemma lock_run_simulates:
  "lock_inv s \<Longrightarrow> map_option mutex_view (lock_run ms s) = mutex_run ms (mutex_view s)"
proof (induction ms arbitrary: s)
  case (Cons m ms)
  obtain t k where m: "m = (t, k)" by fastforce
  note sim = lock_move_simulates [OF Cons.prems, of t k]
  show ?case
  proof (cases "lock_move t k s")
    case None
    with sim m show ?thesis by (simp del: lock_move.simps)
  next
    case (Some s')
    then have "lock_inv s'" using lock_step_inv [OF lock_move_step Cons.prems] by blast
    moreover have "mutex_move t k (mutex_view s) = Some (mutex_view s')" using sim Some by simp
    ultimately show ?thesis using Some m Cons.IH by (simp del: lock_move.simps)
  qed
qed simp

lemma init_mutex_view: "mutex_view init_lock_sys = init_mutexes"
  by (simp add: mutex_view_def init_lock_sys_def init_mutexes_def lock_held_in_def empty_registry_def)

text \<open>The second taker of a destination is blocked, the taker of another one is not.\<close>

lemma mutex_examples:
  "mutex_run [(0, ''/a''), (1, ''/a''), (0, ''/a''), (1, ''/a'')] init_mutexes = None"
  "mutex_run [(0, ''/a''), (1, ''/b''), (0, ''/a''), (1, ''/b'')] init_mutexes \<noteq> None"
  "mutex_run [(0, ''/a''), (1, ''/a''), (0, ''/a''), (0, ''/a''), (1, ''/a'')] init_mutexes \<noteq> None"
  by (simp_all add: mutex_move_def init_mutexes_def)

text \<open>
  C17. The registry refines one independent mutex per destination. For every schedule of any
  number of threads, the program run on the registry (entries made on demand, reference counts,
  locks of objects reached by pointers, deletion with the last user) and the same schedule run on
  plain mutexes reach corresponding states, and a step is blocked in one exactly when it is in
  the other. The abstraction reads the registry: taken are the destinations whose entry leads to
  a locked object. So no lock is lost with a deleted entry, none is made twice, and a thread is
  only held up by an owner of its own destination.
\<close>

theorem lock_registry_refines_mutexes:
  "map_option mutex_view (lock_run schedule init_lock_sys) = mutex_run schedule init_mutexes"
  using lock_run_simulates [OF lock_inv_init] by (simp add: init_mutex_view)

end
