(* ===== verification/Durable_File.thy ===== *)
theory Durable_File
  imports Durable_Fs Durable_Lock
begin

section \<open>Package durablefile: complete, crash-resistant file replacement\<close>

text \<open>
  \<open>Write\<close>, \<open>WriteReader\<close>, \<open>Replace\<close> and the replacement transaction of
  \<open>durablefile/durablefile.go\<close>, with \<open>syncDirectory\<close> of \<open>syncdir.go\<close> and
  \<open>syncdir_windows.go\<close>, over the file system of theory \<open>Durable_Fs\<close> and the lock registry of
  theory \<open>Durable_Lock\<close>. A call of the transaction returns \<^const>\<open>None\<close> only when another
  operation holds the destination's lock for ever. The branch for \<open>runtime.GOOS\<close> being
  \<open>windows\<close> in \<open>lockDestination\<close> is not modelled: the paths here are Unix paths.
\<close>

subsection \<open>State and errors\<close>

record file_world = world +
  lockreg :: registry

type_synonym outcome = "(gerror option \<times> file_world) option"
type_synonym directory_sync = "string \<Rightarrow> file_world \<Rightarrow> gerror option \<times> file_world"

definition committed :: "gerror \<Rightarrow> gerror" where
  "committed e = CommittedError e"

fun is_committed :: "gerror option \<Rightarrow> bool" where
  "is_committed (Some (CommittedError _)) = True"
| "is_committed _ = False"

text \<open>The errors after a replacement that has succeeded.\<close>

definition half_done :: "string \<Rightarrow> string \<Rightarrow> gerror \<Rightarrow> gerror" where
  "half_done dst what e = committed (Wrapf (''replacement of '' @ dst @ '' succeeded but '' @ what @ '' failed'') e)"

lemma half_done_committed [simp]: "is_committed (Some (half_done dst what e))"
  by (simp add: half_done_def committed_def)

lemma half_done_not_plain [simp]: "half_done dst what e \<noteq> Plain m" "Plain m \<noteq> half_done dst what e"
  by (simp_all add: half_done_def committed_def)

subsection \<open>Validation\<close>

definition mode_perm :: "file_mode \<Rightarrow> file_mode" where
  "mode_perm m = m AND 511"

definition validate_path_and_directory_mode :: "string \<Rightarrow> file_mode \<Rightarrow> gerror option" where
  "validate_path_and_directory_mode path directory_mode =
     (if path = [] \<or> path_base path = ''.'' then Some (Plain ''destination file path is required'')
      else if directory_mode \<noteq> mode_perm directory_mode
        then Some (Plain ''directory mode contains non-permission bits'')
      else None)"

definition validate :: "string \<Rightarrow> file_mode \<Rightarrow> file_mode \<Rightarrow> gerror option" where
  "validate path file_mode directory_mode =
     (case validate_path_and_directory_mode path directory_mode of
        Some e \<Rightarrow> Some e
      | None \<Rightarrow> if file_mode \<noteq> mode_perm file_mode
                 then Some (Plain ''file mode contains non-permission bits'') else None)"

subsection \<open>Syncing directories\<close>

text \<open>\<open>syncDirectory\<close> on Unix; the deferred \<open>Close\<close> joins its error to the result.\<close>

definition sync_directory :: "env \<Rightarrow> directory_sync" where
  "sync_directory env path w =
     (case dir_open_fault env path of
        Some e \<Rightarrow> (Some e, w)
      | None \<Rightarrow>
        (case entries (kern w) (resolve (cwd env) path) of
           None \<Rightarrow> (Some ENOENT, w)
         | Some _ \<Rightarrow>
           (let (err, w') =
                (case dir_sync_fault env path of
                   Some e \<Rightarrow> (Some e, w)
                 | None \<Rightarrow> (None, emit (sync_children (resolve (cwd env) path)) w)) in
            (errors_join [err, dir_close_fault env path], w'))))"

text \<open>\<open>syncDirectory\<close> on Windows.\<close>

definition sync_directory_windows :: directory_sync where
  "sync_directory_windows path w = (None, w)"

subsection \<open>Parent directories\<close>

text \<open>The loop over the missing ancestors, from the directory upwards.\<close>

function missing_dirs :: "(string \<Rightarrow> stat_result) \<Rightarrow> string \<Rightarrow> string list \<Rightarrow> string list result" where
  "missing_dirs stat current missing =
     (case stat current of
        StatOk _ \<Rightarrow> Inr missing
      | StatErr e \<Rightarrow> Inl e
      | StatNotExist \<Rightarrow>
          if path_dir current = current then Inr (missing @ [current])
          else missing_dirs stat (path_dir current) (missing @ [current]))"
  by pat_completeness auto
termination
  by (relation "measure (\<lambda>(stat, current, missing). dir_measure current)")
    (simp_all add: dir_measure_decreases)

declare missing_dirs.simps [simp del]

definition create_parent_directories ::
  "env \<Rightarrow> string \<Rightarrow> file_mode \<Rightarrow> file_world \<Rightarrow> string list result \<times> file_world" where
  "create_parent_directories env directory mode w =
     (case missing_dirs (os_stat env (kern w)) (path_clean directory) [] of
        Inl e \<Rightarrow> (Inl e, w)
      | Inr missing \<Rightarrow>
        (case mkdir_all env mode [] (resolve (cwd env) directory) w of
           (Some e, w') \<Rightarrow> (Inl e, w')
         | (None, w') \<Rightarrow> (Inr missing, w')))"

text \<open>Sync the parent of each created directory, each parent once.\<close>

fun sync_created_directory_parents ::
  "directory_sync \<Rightarrow> string list \<Rightarrow> string list \<Rightarrow> file_world \<Rightarrow> gerror option \<times> file_world" where
  "sync_created_directory_parents sync synced [] w = (None, w)"
| "sync_created_directory_parents sync synced (directory # created) w =
     (let parent = path_dir directory in
      if parent \<in> set synced then sync_created_directory_parents sync synced created w
      else case sync parent w of
          (Some e, w') \<Rightarrow> (Some e, w')
        | (None, w') \<Rightarrow> sync_created_directory_parents sync (parent # synced) created w')"

definition same_directory :: "env \<Rightarrow> string \<Rightarrow> string \<Rightarrow> bool" where
  "same_directory env first second =
     (case (path_abs (getwd env) first, path_abs (getwd env) second) of
        (Inr a, Inr b) \<Rightarrow> path_clean a = path_clean b
      | _ \<Rightarrow> False)"

subsection \<open>The transaction\<close>

record transaction =
  source :: string
  destination :: string
  source_directory :: string
  destination_dir :: string
  created_directories :: "string list"

definition replace_atomically :: "env \<Rightarrow> string \<Rightarrow> string \<Rightarrow> file_world \<Rightarrow> gerror option \<times> file_world" where
  "replace_atomically env src dst w =
     (case replace_file env src dst (kern w) of
        (Some e, k) \<Rightarrow> (Some (Wrapf (''replace '' @ dst @ '' with '' @ src) e), emit (\<lambda>_. k) w)
      | (None, k) \<Rightarrow> (None, emit (\<lambda>_. k) w))"

definition sync_source_directory ::
  "env \<Rightarrow> directory_sync \<Rightarrow> transaction \<Rightarrow> file_world \<Rightarrow> gerror option \<times> file_world" where
  "sync_source_directory env sync tx w =
     (if same_directory env (source_directory tx) (destination_dir tx) then (None, w)
      else sync (source_directory tx) w)"

text \<open>The body of \<open>commit\<close>, between taking and releasing the destination's lock.\<close>

definition commit_locked ::
  "env \<Rightarrow> directory_sync \<Rightarrow> transaction \<Rightarrow> file_world \<Rightarrow> gerror option \<times> file_world" where
  "commit_locked env sync tx w =
     (case replace_atomically env (source tx) (destination tx) w of
        (Some e, w1) \<Rightarrow> (Some e, w1)
      | (None, w1) \<Rightarrow>
        (case sync (destination_dir tx) w1 of
           (Some e, w2) \<Rightarrow> (Some (half_done (destination tx) ''syncing its directory'' e), w2)
         | (None, w2) \<Rightarrow>
           (case sync_source_directory env sync tx w2 of
              (Some e, w3) \<Rightarrow> (Some (half_done (destination tx) (''syncing source directory '' @ source_directory tx) e), w3)
            | (None, w3) \<Rightarrow>
              (case sync_created_directory_parents sync [] (created_directories tx) w3 of
                 (Some e, w4) \<Rightarrow>
                   (Some (half_done (destination tx) ''syncing a created directory parent'' e), w4)
               | (None, w4) \<Rightarrow> (None, w4)))))"

definition commit :: "env \<Rightarrow> directory_sync \<Rightarrow> transaction \<Rightarrow> file_world \<Rightarrow> outcome" where
  "commit env sync tx w =
     (let key = lock_key (getwd env) (destination tx) in
      case lock_destination key (lockreg w) of
        None \<Rightarrow> None
      | Some (p, r) \<Rightarrow>
        (let (err, w') = commit_locked env sync tx (w\<lparr>lockreg := r\<rparr>) in
         Some (err, w'\<lparr>lockreg := release_destination key p (lockreg w')\<rparr>)))"

subsection \<open>Writing\<close>

text \<open>
  From the chmod of the temporary file to the commit. The middle component is the variable
  \<open>temporary\<close> of the code: the open file, or \<open>nil\<close> once it has been closed.
\<close>

definition fill_and_commit ::
  "env \<Rightarrow> directory_sync \<Rightarrow> string \<Rightarrow> string list \<Rightarrow> string \<Rightarrow> nat \<Rightarrow> reader \<Rightarrow> file_mode \<Rightarrow>
   file_world \<Rightarrow> (gerror option \<times> nat option \<times> file_world) option" where
  "fill_and_commit env sync path created tmp i reader mode w =
     (case os_chmod env i mode w of
        (Some e, w1) \<Rightarrow> Some (Some (Wrapf (''set temporary file mode for '' @ path) e), Some i, w1)
      | (None, w1) \<Rightarrow>
        (case io_copy env i (chunks reader) (read_err reader) 0 w1 of
           (Some e, w2) \<Rightarrow> Some (Some (Wrapf (''write temporary file for '' @ path) e), Some i, w2)
         | (None, w2) \<Rightarrow>
           (case os_fsync env i w2 of
              (Some e, w3) \<Rightarrow> Some (Some (Wrapf (''flush temporary file for '' @ path) e), Some i, w3)
            | (None, w3) \<Rightarrow>
              (case os_close env i w3 of
                 (Some e, w4) \<Rightarrow> Some (Some (Wrapf (''close temporary file for '' @ path) e), Some i, w4)
               | (None, w4) \<Rightarrow>
                 (case commit env sync
                    \<lparr>source = tmp, destination = path, source_directory = path_dir path,
                     destination_dir = path_dir path, created_directories = created\<rparr> w4 of
                    None \<Rightarrow> None
                  | Some (err, w5) \<Rightarrow> Some (err, None, w5))))))"

text \<open>The deferred function: close what is open, remove the temporary file on an error.\<close>

definition cleanup ::
  "env \<Rightarrow> string \<Rightarrow> gerror option \<Rightarrow> nat option \<Rightarrow> file_world \<Rightarrow> file_world" where
  "cleanup env tmp err temporary w =
     (let w1 = (case temporary of None \<Rightarrow> w | Some i \<Rightarrow> snd (os_close env i w)) in
      if err = None then w1 else snd (os_remove env tmp w1))"

definition write_reader ::
  "env \<Rightarrow> directory_sync \<Rightarrow> string \<Rightarrow> reader option \<Rightarrow> file_mode \<Rightarrow> file_mode \<Rightarrow> file_world \<Rightarrow> outcome" where
  "write_reader env sync path reader file_mode directory_mode w =
     (case validate path file_mode directory_mode of
        Some e \<Rightarrow> Some (Some e, w)
      | None \<Rightarrow>
        (case reader of
           None \<Rightarrow> Some (Some (Plain ''source reader is required''), w)
         | Some rd \<Rightarrow>
           (case create_parent_directories env (path_dir path) directory_mode w of
              (Inl e, w1) \<Rightarrow> Some (Some (Wrapf (''create parent directory for '' @ path) e), w1)
            | (Inr created, w1) \<Rightarrow>
              (case create_temp env (path_dir path) w1 of
                 (Inl e, w2) \<Rightarrow> Some (Some (Wrapf (''create temporary file for '' @ path) e), w2)
               | (Inr (tmp, i), w2) \<Rightarrow>
                 (case fill_and_commit env sync path created tmp i rd file_mode w2 of
                    None \<Rightarrow> None
                  | Some (err, temporary, w3) \<Rightarrow> Some (err, cleanup env tmp err temporary w3))))))"

definition WriteReader ::
  "env \<Rightarrow> string \<Rightarrow> reader option \<Rightarrow> file_mode \<Rightarrow> file_mode \<Rightarrow> file_world \<Rightarrow> outcome" where
  "WriteReader env path reader file_mode directory_mode w =
     write_reader env (sync_directory env) path reader file_mode directory_mode w"

text \<open>\<open>Write\<close> reads its bytes through a \<open>bytes.Reader\<close>, which delivers them in one piece.\<close>

definition Write ::
  "env \<Rightarrow> string \<Rightarrow> string \<Rightarrow> file_mode \<Rightarrow> file_mode \<Rightarrow> file_world \<Rightarrow> outcome" where
  "Write env path data file_mode directory_mode w =
     WriteReader env path (Some \<lparr>chunks = (if data = [] then [] else [data]), read_err = None\<rparr>)
       file_mode directory_mode w"

subsection \<open>Replacing\<close>

definition replace_with ::
  "env \<Rightarrow> directory_sync \<Rightarrow> string \<Rightarrow> string \<Rightarrow> file_mode \<Rightarrow> file_world \<Rightarrow> outcome" where
  "replace_with env sync src dst directory_mode w =
     (if src = [] then Some (Some (Plain ''source path is required''), w)
      else case validate_path_and_directory_mode dst directory_mode of
        Some e \<Rightarrow> Some (Some e, w)
      | None \<Rightarrow>
        (case create_parent_directories env (path_dir dst) directory_mode w of
           (Inl e, w1) \<Rightarrow> Some (Some (Wrapf (''create parent directory for '' @ dst) e), w1)
         | (Inr created, w1) \<Rightarrow>
           (case os_open env src w1 of
              (Inl e, w2) \<Rightarrow> Some (Some (Wrapf (''open source file '' @ src) e), w2)
            | (Inr i, w2) \<Rightarrow>
              (case os_fsync env i w2 of
                 (Some e, w3) \<Rightarrow>
                   Some (Some (Wrapf (''flush source file '' @ src) e), snd (os_close env i w3))
               | (None, w3) \<Rightarrow>
                 (case os_close env i w3 of
                    (Some e, w4) \<Rightarrow> Some (Some (Wrapf (''close source file '' @ src) e), w4)
                  | (None, w4) \<Rightarrow>
                    commit env sync
                      \<lparr>source = src, destination = dst, source_directory = path_dir src,
                       destination_dir = path_dir dst, created_directories = created\<rparr> w4)))))"

definition Replace :: "env \<Rightarrow> string \<Rightarrow> string \<Rightarrow> file_mode \<Rightarrow> file_world \<Rightarrow> outcome" where
  "Replace env src dst directory_mode w = replace_with env (sync_directory env) src dst directory_mode w"

end
