(* ===== verification/Durable_Frame.thy ===== *)
theory Durable_Frame
  imports Durable_File
begin

section \<open>What each step of a replacement can touch\<close>

text \<open>
  Frame lemmas of the system calls and of the transaction of theory \<open>Durable_File\<close>: which
  entries and inodes a step may change, which kernels it passes through. A predicate of
  kernels that holds now and at every recorded moment is \<open>all_seen\<close>. The interface
  \<open>dir_sync\<close> is what the transaction relies on from the \<open>syncDir\<close> function it is given;
  both \<open>syncDirectory\<close> functions of the package are interpretations.
\<close>

definition all_seen :: "(kernel \<Rightarrow> bool) \<Rightarrow> file_world \<Rightarrow> bool" where
  "all_seen P w \<longleftrightarrow> P (kern w) \<and> (\<forall>k \<in> set (seen w). P k)"

text \<open>Nothing but kernel, history and descriptors differ.\<close>

definition same_rest :: "file_world \<Rightarrow> file_world \<Rightarrow> bool" where
  "same_rest w w' \<longleftrightarrow> fds w' = fds w \<and> lockreg w' = lockreg w"

lemma lockreg_emit [simp]: "lockreg (emit f w) = lockreg w"
  by (simp add: emit_def)

lemma same_rest_refl [simp]: "same_rest w w"
  by (simp add: same_rest_def)

lemma same_rest_emit [simp]: "same_rest w (emit f w)"
  by (simp add: same_rest_def)

lemma same_rest_trans [trans]: "same_rest a b \<Longrightarrow> same_rest b c \<Longrightarrow> same_rest a c"
  by (simp add: same_rest_def)

lemma all_seen_emit [intro]: "all_seen P w \<Longrightarrow> P (f (kern w)) \<Longrightarrow> all_seen P (emit f w)"
  by (auto simp: all_seen_def)

lemma all_seen_kern: "all_seen P w \<Longrightarrow> P (kern w)"
  by (simp add: all_seen_def)

lemma all_seen_mono: "all_seen P w \<Longrightarrow> (\<And>k. P k \<Longrightarrow> Q k) \<Longrightarrow> all_seen Q w"
  by (simp add: all_seen_def)

lemma all_seen_fds [simp]:
  "all_seen P (w\<lparr>fds := F\<rparr>) = all_seen P w" "all_seen P (w\<lparr>lockreg := r\<rparr>) = all_seen P w"
  by (simp_all add: all_seen_def)

subsection \<open>Creating directories\<close>

definition grows_dirs :: "kpath \<Rightarrow> kernel \<Rightarrow> kernel \<Rightarrow> bool" where
  "grows_dirs D k k' \<longleftrightarrow>
     stable k' = stable k \<and> inodes k' = inodes k \<and> next_inode k' = next_inode k \<and>
     (\<forall>q. entries k' q = entries k q \<or>
        prefix q D \<and> entries k q = None \<and> (\<exists>m. entries k' q = Some (DirEnt m)))"

lemma grows_dirs_refl [simp]: "grows_dirs D k k"
  by (simp add: grows_dirs_def)

lemma grows_dirs_trans: "grows_dirs D a b \<Longrightarrow> grows_dirs D b c \<Longrightarrow> grows_dirs D a c"
  unfolding grows_dirs_def by (metis)

lemma grows_dirs_add_dir:
  "entries k d = None \<Longrightarrow> prefix d D \<Longrightarrow> grows_dirs D k (add_dir env d mode k)"
  by (simp add: grows_dirs_def add_dir_def)

lemma grows_dirs_dir: "grows_dirs D k k' \<Longrightarrow> entries k q = Some (DirEnt m) \<Longrightarrow> entries k' q = Some (DirEnt m)"
  by (metis grows_dirs_def option.distinct(1))

lemma mkdir_all_frame:
  fixes w w' :: file_world
  assumes "mkdir_all env mode pre cs w = (e, w')"
  shows "same_rest w w' \<and> grows_dirs (pre @ cs) (kern w) (kern w') \<and>
    (\<forall>k \<in> set (seen w'). k \<in> set (seen w) \<or> grows_dirs (pre @ cs) (kern w) k)"
  using assms
proof (induction env mode pre cs w rule: mkdir_all.induct)
  case (2 env mode pre c cs w)
  show ?case
  proof (cases "entries (kern w) (pre @ [c])")
    case (Some x)
    then show ?thesis using 2 by (cases x) auto
  next
    case None
    show ?thesis
    proof (cases "mkdir_fault env (pre @ [c])")
      case (Some f)
      with None 2 show ?thesis by auto
    next
      case fine: None
      let ?w1 = "emit (add_dir env (pre @ [c]) mode) w"
      have step: "grows_dirs (pre @ c # cs) (kern w) (kern ?w1)"
        using None by (simp add: grows_dirs_add_dir)
      have "mkdir_all env mode (pre @ [c]) cs ?w1 = (e, w')" using "2.prems" None fine by simp
      from "2.IH"(1) [OF None fine this]
      have rest: "same_rest ?w1 w'" "grows_dirs (pre @ c # cs) (kern ?w1) (kern w')"
        and seen: "\<forall>k \<in> set (seen w'). k \<in> set (seen ?w1) \<or> grows_dirs (pre @ c # cs) (kern ?w1) k"
        by simp_all
      then show ?thesis
        using step grows_dirs_trans [OF step] same_rest_trans [OF same_rest_emit] by auto
    qed
  qed
qed simp

lemma mkdir_all_dirs:
  fixes w w' :: file_world
  assumes "mkdir_all env mode pre cs w = (None, w')"
    and "entries (kern w) pre = Some (DirEnt m)" and "prefix pre q" and "prefix q (pre @ cs)"
  shows "\<exists>m. entries (kern w') q = Some (DirEnt m)"
  using assms
proof (induction env mode pre cs w arbitrary: m rule: mkdir_all.induct)
  case (1 env mode pre w)
  then have "q = pre" using prefix_order.antisym by fastforce
  with 1 show ?case by simp
next
  case (2 env mode pre c cs w)
  have keep: "entries (kern w') pre = Some (DirEnt m)"
    using mkdir_all_frame [OF "2.prems"(1)] "2.prems"(2) grows_dirs_dir by blast
  show ?case
  proof (cases "q = pre")
    case False
    obtain zs where zs: "q = pre @ zs" using "2.prems"(3) by (auto simp: prefix_def)
    then have pq: "prefix (pre @ [c]) q" "prefix q ((pre @ [c]) @ cs)"
      using False "2.prems"(4) by (cases zs; simp)+
    show ?thesis using 2 pq by (auto split: option.splits entry.splits simp: add_dir_def)
  qed (use keep in blast)
qed

lemma create_parent_directories_frame:
  assumes "create_parent_directories env directory mode w = (r, w')"
  shows "same_rest w w' \<and> grows_dirs (resolve (cwd env) directory) (kern w) (kern w') \<and>
    (\<forall>k \<in> set (seen w'). k \<in> set (seen w) \<or> grows_dirs (resolve (cwd env) directory) (kern w) k)"
proof -
  obtain e w1 where m: "mkdir_all env mode [] (resolve (cwd env) directory) w = (e, w1)" by fastforce
  have "w' = w \<or> w' = w1"
    using assms m by (auto simp: create_parent_directories_def split: sum.splits option.splits)
  then show ?thesis using mkdir_all_frame [OF m] by auto
qed

lemma create_parent_directories_dirs:
  assumes "create_parent_directories env directory mode w = (Inr created, w')"
    and "wf_kernel (kern w)" and "prefix q (resolve (cwd env) directory)"
  shows "\<exists>m. entries (kern w') q = Some (DirEnt m)"
proof -
  have "mkdir_all env mode [] (resolve (cwd env) directory) w = (None, w')"
    using assms(1) by (auto simp: create_parent_directories_def split: sum.splits option.splits prod.splits)
  then show ?thesis using mkdir_all_dirs [of env mode "[]" _ w w'] assms(2,3)
    by (auto simp: wf_kernel_def)
qed

subsection \<open>Filling the temporary file\<close>

text \<open>Only the inode \<open>i\<close> changes.\<close>

definition only_inode :: "nat \<Rightarrow> kernel \<Rightarrow> kernel \<Rightarrow> bool" where
  "only_inode i k k' \<longleftrightarrow> entries k' = entries k \<and> stable k' = stable k \<and>
     next_inode k' = next_inode k \<and> (\<forall>j. j \<noteq> i \<longrightarrow> inodes k' j = inodes k j)"

lemma only_inode_refl [simp]: "only_inode i k k"
  by (simp add: only_inode_def)

lemma only_inode_trans: "only_inode i a b \<Longrightarrow> only_inode i b c \<Longrightarrow> only_inode i a c"
  by (simp add: only_inode_def)

lemma only_inode_upd [simp]: "only_inode i k (upd_inode i f k)"
  by (simp add: only_inode_def upd_inode_def)

definition inode_closed :: "nat \<Rightarrow> (kernel \<Rightarrow> bool) \<Rightarrow> bool" where
  "inode_closed i P \<longleftrightarrow> (\<forall>k k'. P k \<longrightarrow> only_inode i k k' \<longrightarrow> P k')"

lemma inode_closedD: "inode_closed i P \<Longrightarrow> P k \<Longrightarrow> only_inode i k k' \<Longrightarrow> P k'"
  by (simp add: inode_closed_def)

definition fills :: "nat \<Rightarrow> file_world \<Rightarrow> file_world \<Rightarrow> bool" where
  "fills i w w' \<longleftrightarrow> only_inode i (kern w) (kern w') \<and>
     (\<forall>P. inode_closed i P \<longrightarrow> all_seen P w \<longrightarrow> all_seen P w')"

lemma fills_refl [simp]: "fills i w w"
  by (simp add: fills_def)

lemma fills_trans [trans]: "fills i a b \<Longrightarrow> fills i b c \<Longrightarrow> fills i a c"
  unfolding fills_def by (auto intro: only_inode_trans)

lemma fills_emit [simp]: "fills i w (emit (upd_inode i f) w)"
  unfolding fills_def
  by (auto simp: all_seen_kern intro: inode_closedD [OF _ all_seen_kern only_inode_upd])

lemma os_chmod_fills: "os_chmod env i mode w = (e, w') \<Longrightarrow> fills i w w' \<and> fds w' = fds w"
  by (auto simp: os_chmod_def split: option.splits)

lemma os_fsync_fills: "os_fsync env i w = (e, w') \<Longrightarrow> fills i w w' \<and> fds w' = fds w"
  by (auto simp: os_fsync_def split: option.splits)

lemma os_close_fills: "os_close env i w = (e, w') \<Longrightarrow> fills i w w' \<and> fds w' = fds w - {i} \<and> kern w' = kern w \<and> seen w' = seen w"
  by (auto simp: os_close_def fills_def)

lemma io_copy_fills: "io_copy env i cs err n w = (e, w') \<Longrightarrow> fills i w w' \<and> fds w' = fds w"
proof (induction env i cs err n w rule: io_copy.induct)
  case (2 env i c cs err n w)
  show ?case
  proof (cases "write_fault env n")
    case None
    then have "io_copy env i cs err (Suc n) (emit (upd_inode i (append_bytes c)) w) = (e, w')"
      using "2.prems" by simp
    from "2.IH" [OF None this] show ?thesis
      using fills_trans [OF fills_emit [of i w "append_bytes c"], of w'] by simp
  next
    case (Some f)
    then show ?thesis using "2.prems" by (cases f) auto
  qed
qed simp

lemma io_copy_complete:
  fixes w w' :: file_world
  assumes "io_copy env i cs err n w = (None, w')" and "inodes (kern w) i = Some ino"
  shows "err = None \<and> (\<exists>b. inodes (kern w') i = Some (ino\<lparr>content := content ino @ concat cs, flushed := b\<rparr>))"
  using assms
proof (induction env i cs err n w arbitrary: ino rule: io_copy.induct)
  case (1 env i err n w)
  then have "inodes (kern w') i = Some (ino\<lparr>content := content ino @ concat [], flushed := flushed ino\<rparr>)"
    by simp
  moreover have "err = None" using 1 by simp
  ultimately show ?case by blast
next
  case (2 env i c cs err n w)
  then have fine: "write_fault env n = None" by (auto split: option.splits)
  have "inodes (kern (emit (upd_inode i (append_bytes c)) w)) i = Some (append_bytes c ino)"
    using "2.prems"(2) by (simp add: upd_inode_def)
  from "2.IH" [OF fine _ this] "2.prems"(1) fine show ?case by (simp add: append_bytes_def)
qed

subsection \<open>Syncing directories: the interface the transaction relies on\<close>

definition sync_update :: "(kpath \<Rightarrow> entry option) \<Rightarrow> kernel \<Rightarrow> bool" where
  "sync_update st k \<longleftrightarrow> (\<forall>q. st q = stable k q \<or> st q = entries k q)"

definition sync_closed :: "(kernel \<Rightarrow> bool) \<Rightarrow> bool" where
  "sync_closed P \<longleftrightarrow> (\<forall>k st. P k \<longrightarrow> sync_update st k \<longrightarrow> P (k\<lparr>stable := st\<rparr>))"

text \<open>What any number of directory syncs preserves, of the last kernel and of all of them.\<close>

definition now_holds :: "(kernel \<Rightarrow> bool) \<Rightarrow> file_world \<Rightarrow> bool" where
  "now_holds P w \<longleftrightarrow> P (kern w)"

definition synced :: "file_world \<Rightarrow> file_world \<Rightarrow> bool" where
  "synced w w' \<longleftrightarrow> fds w' = fds w \<and>
     (\<forall>P. sync_closed P \<longrightarrow> now_holds P w \<longrightarrow> now_holds P w') \<and>
     (\<forall>P. sync_closed P \<longrightarrow> all_seen P w \<longrightarrow> all_seen P w')"

lemma synced_refl [simp]: "synced w w"
  by (simp add: synced_def)

lemma synced_trans: "synced a b \<Longrightarrow> synced b c \<Longrightarrow> synced a c"
  by (simp add: synced_def)

lemma syncedD:
  assumes "synced w w'"
  shows "fds w' = fds w" and "sync_closed P \<Longrightarrow> P (kern w) \<Longrightarrow> P (kern w')"
    and "sync_closed P \<Longrightarrow> all_seen P w \<Longrightarrow> all_seen P w'"
proof -
  show "fds w' = fds w" using assms by (simp add: synced_def)
  show "sync_closed P \<Longrightarrow> all_seen P w \<Longrightarrow> all_seen P w'" using assms by (simp add: synced_def)
  assume "sync_closed P" and "P (kern w)"
  then have "now_holds P w'" using assms by (simp add: synced_def now_holds_def [of P w])
  then show "P (kern w')" by (simp add: now_holds_def)
qed

text \<open>The kernel after \<open>atomic.ReplaceFile\<close> moved inode \<open>i\<close> to the destination.\<close>

definition renamed :: "env \<Rightarrow> string \<Rightarrow> string \<Rightarrow> nat \<Rightarrow> kernel \<Rightarrow> kernel" where
  "renamed env src dst i k = k\<lparr>entries := (entries k)(resolve (cwd env) src := None,
     resolve (cwd env) dst \<mapsto> FileEnt i)\<rparr>"

locale dir_sync =
  fixes sync :: directory_sync
  assumes sync_only_stable: "sync p w = (e, w') \<Longrightarrow>
    w' = w \<or> (\<exists>st. sync_update st (kern w) \<and> w' = emit (\<lambda>k. k\<lparr>stable := st\<rparr>) w)"
begin

lemma sync_synced: "sync p w = (e, w') \<Longrightarrow> synced w w'"
  using sync_only_stable [of p w e w']
  by (auto simp: synced_def sync_closed_def all_seen_kern now_holds_def)

lemma parents_synced:
  "sync_created_directory_parents sync already created w = (e, w') \<Longrightarrow> synced w w'"
proof (induction created arbitrary: already w)
  case (Cons d created)
  show ?case
  proof (cases "path_dir d \<in> set already")
    case True
    with Cons show ?thesis by simp
  next
    case False
    obtain e1 w1 where s: "sync (path_dir d) w = (e1, w1)" by fastforce
    show ?thesis
    proof (cases e1)
      case None
      then have "sync_created_directory_parents sync (path_dir d # already) created w1 = (e, w')"
        using Cons.prems False s by simp
      from synced_trans [OF sync_synced [OF s] Cons.IH [OF this]] show ?thesis .
    next
      case (Some x)
      then show ?thesis using Cons.prems False s sync_synced by simp
    qed
  qed
qed simp

lemma source_synced: "sync_source_directory env sync tx w = (e, w') \<Longrightarrow> synced w w'"
  using sync_synced by (auto simp: sync_source_directory_def split: if_splits)

text \<open>
  The transaction either fails before the replacement and changes nothing, or replaces the
  destination and from then on only syncs.
\<close>

lemma commit_locked_cases:
  assumes "commit_locked env sync tx w = (err, w')" and "replace_file_spec env"
  shows "(err \<noteq> None \<and> \<not> is_committed err \<and> w' = emit (\<lambda>k. k) w) \<or>
    ((err = None \<or> is_committed err) \<and>
     (\<exists>i. entries (kern w) (resolve (cwd env) (source tx)) = Some (FileEnt i) \<and>
        (\<forall>m. entries (kern w) (resolve (cwd env) (destination tx)) \<noteq> Some (DirEnt m)) \<and>
        synced (emit (renamed env (source tx) (destination tx) i) w) w'))"
proof -
  obtain e k where rf: "replace_file env (source tx) (destination tx) (kern w) = (e, k)" by fastforce
  show ?thesis
  proof (cases e)
    case (Some x)
    then have "k = kern w" using assms(2) rf by (fastforce simp: replace_file_spec_def)
    then show ?thesis using Some rf assms(1)
      by (auto simp: commit_locked_def replace_atomically_def emit_def)
  next
    case None
    then obtain i where i: "entries (kern w) (resolve (cwd env) (source tx)) = Some (FileEnt i)"
      "\<forall>m. entries (kern w) (resolve (cwd env) (destination tx)) \<noteq> Some (DirEnt m)"
      "k = renamed env (source tx) (destination tx) i (kern w)"
      using assms(2) rf unfolding replace_file_spec_def renamed_def by fastforce
    let ?w1 = "emit (renamed env (source tx) (destination tx) i) w"
    have ra: "replace_atomically env (source tx) (destination tx) w = (None, ?w1)"
      using None rf i(3) by (simp add: replace_atomically_def emit_def)
    obtain e2 w2 where s2: "sync (destination_dir tx) ?w1 = (e2, w2)" by fastforce
    obtain e3 w3 where s3: "sync_source_directory env sync tx w2 = (e3, w3)" by fastforce
    obtain e4 w4 where s4: "sync_created_directory_parents sync [] (created_directories tx) w3 = (e4, w4)"
      by fastforce
    note steps = sync_synced [OF s2] source_synced [OF s3] parents_synced [OF s4]
    have "(err = None \<or> is_committed err) \<and> (w' = w2 \<or> w' = w3 \<or> w' = w4)"
      using assms(1) ra s2 s3 s4
      by (auto simp: commit_locked_def committed_def split: option.splits)
    moreover have "synced ?w1 w2" "synced ?w1 w3" "synced ?w1 w4"
      using steps synced_trans by blast+
    ultimately show ?thesis using i by blast
  qed
qed

lemma commit_cases:
  assumes "commit env sync tx w = Some (err, w')" and "replace_file_spec env"
  shows "\<exists>w1. kern w1 = kern w' \<and> seen w1 = seen w' \<and> fds w1 = fds w' \<and>
    ((err \<noteq> None \<and> \<not> is_committed err \<and> w1 = emit (\<lambda>k. k) w) \<or>
     ((err = None \<or> is_committed err) \<and>
      (\<exists>i. entries (kern w) (resolve (cwd env) (source tx)) = Some (FileEnt i) \<and>
         (\<forall>m. entries (kern w) (resolve (cwd env) (destination tx)) \<noteq> Some (DirEnt m)) \<and>
         synced (emit (renamed env (source tx) (destination tx) i) w) w1)))"
proof -
  let ?key = "lock_key (getwd env) (destination tx)"
  obtain p r where l: "lock_destination ?key (lockreg w) = Some (p, r)"
    using assms(1) by (auto simp: commit_def Let_def split: option.splits)
  obtain e w2 where c: "commit_locked env sync tx (w\<lparr>lockreg := r\<rparr>) = (e, w2)" by fastforce
  then have e: "e = err" and w': "w' = w2\<lparr>lockreg := release_destination ?key p (lockreg w2)\<rparr>"
    using assms(1) l by (auto simp: commit_def Let_def)
  let ?w1 = "w2\<lparr>lockreg := lockreg w\<rparr>"
  have plain: "kern ?w1 = kern w'" "seen ?w1 = seen w'" "fds ?w1 = fds w'" by (simp_all add: w')
  have unlock: "emit f (w\<lparr>lockreg := r\<rparr>)\<lparr>lockreg := lockreg w\<rparr> = emit f w" for f
    by (simp add: emit_def)
  have sy: "synced (emit f w) ?w1" if "synced (emit f (w\<lparr>lockreg := r\<rparr>)) w2" for f
    using that by (auto simp: synced_def all_seen_def now_holds_def)
  from commit_locked_cases [OF c assms(2)] show ?thesis
    using plain unlock sy e by (intro exI [of _ ?w1]) auto
qed

end

lemma sync_directory_update:
  "sync_update (stable (sync_children d k)) k"
  by (simp add: sync_update_def sync_children_def)

interpretation unix_sync: dir_sync "sync_directory env" for env
proof
  fix p w e w'
  assume "sync_directory env p w = (e, w')"
  then have "w' = w \<or> w' = emit (sync_children (resolve (cwd env) p)) w"
    by (auto simp: sync_directory_def split: option.splits prod.splits)
  moreover have "emit (sync_children d) w = emit (\<lambda>k. k\<lparr>stable := stable (sync_children d (kern w))\<rparr>) w" for d
    by (simp add: emit_def sync_children_def)
  ultimately show "w' = w \<or> (\<exists>st. sync_update st (kern w) \<and> w' = emit (\<lambda>k. k\<lparr>stable := st\<rparr>) w)"
    using sync_directory_update by metis
qed

interpretation windows_sync: dir_sync sync_directory_windows
  by unfold_locales (simp add: sync_directory_windows_def)

end
