(* ===== verification/Durable_Safety.thy ===== *)
theory Durable_Safety
  imports Durable_Frame
begin

section \<open>Replacing a file is atomic, crash safe and leaves nothing behind\<close>

text \<open>
  The properties of \<open>WriteReader\<close> that hold at every moment of a call and for every outcome,
  whatever system call fails: the destination is what it was or the complete new file, also
  after a crash; which results mean that the replacement happened; no temporary file and no
  descriptor is left; the destination's lock is given back.
\<close>

subsection \<open>From the temporary file to the transaction\<close>

lemma fills_same: "kern w1 = kern w2 \<Longrightarrow> seen w1 = seen w2 \<Longrightarrow> fills i w w1 = fills i w w2"
  by (simp add: fills_def all_seen_def)

lemma synced_same:
  "kern w1 = kern w2 \<Longrightarrow> seen w1 = seen w2 \<Longrightarrow> fds w1 = fds w2 \<Longrightarrow> synced w w1 = synced w w2"
  by (simp add: synced_def all_seen_def now_holds_def)

lemma fills_emit_same: "fills i w w1 \<Longrightarrow> fills i w (emit (\<lambda>k. k) w1)"
  by (auto simp: fills_def all_seen_def)

definition filled :: "reader \<Rightarrow> file_mode \<Rightarrow> inode" where
  "filled rd mode = \<lparr>content = concat (chunks rd), perm = mode, flushed = True\<rparr>"

context dir_sync
begin

lemma fill_and_commit_cases:
  assumes fc: "fill_and_commit env sync path created tmp i rd mode w = Some (err, temporary, w')"
    and spec: "replace_file_spec env"
    and ino: "inodes (kern w) i = Some ino" "content ino = []"
  shows "fds w' - {i} = fds w - {i} \<and> (temporary = None \<longrightarrow> i \<notin> fds w') \<and>
    (temporary = None \<or> temporary = Some i) \<and>
    ((err \<noteq> None \<and> \<not> is_committed err \<and> fills i w w') \<or>
     ((err = None \<or> is_committed err) \<and> read_err rd = None \<and>
      (\<exists>w4 j. fills i w w4 \<and> inodes (kern w4) i = Some (filled rd mode) \<and>
         entries (kern w4) (resolve (cwd env) tmp) = Some (FileEnt j) \<and>
         (\<forall>m. entries (kern w4) (resolve (cwd env) path) \<noteq> Some (DirEnt m)) \<and>
         synced (emit (renamed env tmp path j) w4) w')))"
proof -
  obtain e1 w1 where s1: "os_chmod env i mode w = (e1, w1)" by fastforce
  obtain e2 w2 where s2: "io_copy env i (chunks rd) (read_err rd) 0 w1 = (e2, w2)" by fastforce
  obtain e3 w3 where s3: "os_fsync env i w2 = (e3, w3)" by fastforce
  obtain e4 w4 where s4: "os_close env i w3 = (e4, w4)" by fastforce
  note f1 = os_chmod_fills [OF s1] and f2 = io_copy_fills [OF s2]
    and f3 = os_fsync_fills [OF s3] and f4 = os_close_fills [OF s4]
  have fw1: "fills i w w1" using f1 by simp
  have fw2: "fills i w w2" using f2 by (intro fills_trans [OF fw1]) simp
  have fw3: "fills i w w3" using f3 by (intro fills_trans [OF fw2]) simp
  have fw4: "fills i w w4" using f4 by (intro fills_trans [OF fw3]) simp
  note fw = fw1 fw2 fw3 fw4
  have fd: "fds w1 = fds w" "fds w2 = fds w" "fds w3 = fds w" "fds w4 = fds w - {i}"
    using f1 f2 f3 f4 by auto
  let ?tx = "\<lparr>source = tmp, destination = path, source_directory = path_dir path,
    destination_dir = path_dir path, created_directories = created\<rparr>"
  show ?thesis
  proof (cases "e1 = None \<and> e2 = None \<and> e3 = None \<and> e4 = None")
    case False
    then show ?thesis using fc s1 s2 s3 s4 fw fd
      by (auto simp: fill_and_commit_def split: option.splits)
  next
    case True
    have "inodes (kern w1) i = Some (ino\<lparr>perm := mode\<rparr>)"
      using s1 True ino by (auto simp: os_chmod_def upd_inode_def split: option.splits)
    with s2 True obtain b where rd: "read_err rd = None"
      and "inodes (kern w2) i = Some (ino\<lparr>perm := mode, content := concat (chunks rd), flushed := b\<rparr>)"
      using io_copy_complete [of env i "chunks rd" "read_err rd" 0 w1 w2] ino(2) by auto
    then have full: "inodes (kern w4) i = Some (filled rd mode)"
      using s3 s4 True by (auto simp: os_fsync_def os_close_def upd_inode_def filled_def
          split: option.splits)
    have c: "commit env sync ?tx w4 = Some (err, w')" and t: "temporary = None"
      using fc s1 s2 s3 s4 True by (auto simp: fill_and_commit_def split: option.splits)
    from commit_cases [OF c spec] obtain w5 where
      w5: "kern w5 = kern w'" "seen w5 = seen w'" "fds w5 = fds w'" and
      "(err \<noteq> None \<and> \<not> is_committed err \<and> w5 = emit (\<lambda>k. k) w4) \<or>
       ((err = None \<or> is_committed err) \<and>
        (\<exists>j. entries (kern w4) (resolve (cwd env) tmp) = Some (FileEnt j) \<and>
           (\<forall>m. entries (kern w4) (resolve (cwd env) path) \<noteq> Some (DirEnt m)) \<and>
           synced (emit (renamed env tmp path j) w4) w5))"
      by auto
    then show ?thesis
    proof (elim disjE)
      assume a: "err \<noteq> None \<and> \<not> is_committed err \<and> w5 = emit (\<lambda>k. k) w4"
      then have "fills i w w5" using fills_emit_same fw(4) by blast
      then show ?thesis using a t fd(4) w5 fills_same [OF w5(1,2)] by auto
    next
      assume a: "(err = None \<or> is_committed err) \<and>
        (\<exists>j. entries (kern w4) (resolve (cwd env) tmp) = Some (FileEnt j) \<and>
           (\<forall>m. entries (kern w4) (resolve (cwd env) path) \<noteq> Some (DirEnt m)) \<and>
           synced (emit (renamed env tmp path j) w4) w5)"
      then obtain j where j: "entries (kern w4) (resolve (cwd env) tmp) = Some (FileEnt j)"
        "\<forall>m. entries (kern w4) (resolve (cwd env) path) \<noteq> Some (DirEnt m)"
        "synced (emit (renamed env tmp path j) w4) w'"
        using synced_same [OF w5] by blast
      have "fds w' = fds w - {i}" using syncedD(1) [OF j(3)] fd(4) by simp
      then show ?thesis using a j t rd full fw(4) by auto
    qed
  qed
qed

end

subsection \<open>Names\<close>

lemma temp_name_plain: "plain_name (temp_name s)"
proof -
  have "slash \<notin> set (temp_name s)"
    using itoa_digits [of s] by (auto simp: temp_name_def is_digit_def)
  then show ?thesis by (simp add: plain_name_def temp_name_def dot_def dotdot_def)
qed

lemma resolve_temp:
  assumes "d \<noteq> []"
  shows "resolve dir (temp_path d s) = resolve dir d @ [temp_name s]"
proof -
  let ?n = "temp_name s"
  have n: "components ?n = [?n]" "clean_step r st ?n = ?n # st" for r st
    using temp_name_plain [of s] by (simp_all add: split_on_no_sep plain_name_def clean_step_plain)
  show ?thesis
  proof (cases "last d = slash")
    case True
    then obtain q where d: "d = q @ [slash]" using assms by (metis append_butlast_last_id)
    have "components d = components q @ [[]]" "components (d @ ?n) = components q @ [?n]"
      using split_on_append_sep [of slash q "[]"] split_on_append_sep [of slash q ?n] n
      by (simp_all add: d)
    moreover have "path_is_abs (d @ ?n) = path_is_abs d" using assms by (cases d) (simp_all add: path_is_abs_def)
    ultimately show ?thesis using True assms n by (simp add: resolve_def temp_path_def)
  next
    case False
    have "components (d @ slash # ?n) = components d @ [?n]"
      using split_on_append_sep [of slash d ?n] n by simp
    moreover have "path_is_abs (d @ slash # ?n) = path_is_abs d"
      using assms by (cases d) (simp_all add: path_is_abs_def)
    ultimately show ?thesis using False assms n by (simp add: resolve_def temp_path_def)
  qed
qed

lemma path_dir_not_Nil [simp]: "path_dir p \<noteq> []"
  by (simp add: path_dir_def path_clean_not_Nil)

text \<open>
  Destinations the transaction is meant for: the last element names a file, and not one of
  the names the random source draws for temporary files.
\<close>

definition proper_destination :: "env \<Rightarrow> string \<Rightarrow> bool" where
  "proper_destination env path \<longleftrightarrow> plain_name (last_element path) \<and>
     (\<forall>s \<in> set (suffixes env). temp_name s \<noteq> last_element path)"

subsection \<open>What a kernel looks like before and after the replacement\<close>

definition untouched :: "kernel \<Rightarrow> kpath \<Rightarrow> kernel \<Rightarrow> bool" where
  "untouched k0 K k \<longleftrightarrow> entries k K = entries k0 K \<and>
     (stable k K = stable k0 K \<or> stable k K = entries k0 K) \<and>
     (\<forall>j < next_inode k0. inodes k j = inodes k0 j)"

definition replaced :: "kernel \<Rightarrow> kpath \<Rightarrow> inode \<Rightarrow> kernel \<Rightarrow> bool" where
  "replaced k0 K n k \<longleftrightarrow> entries k K = Some (FileEnt (next_inode k0)) \<and>
     inodes k (next_inode k0) = Some n \<and>
     (stable k K = stable k0 K \<or> stable k K = entries k0 K \<or>
      stable k K = Some (FileEnt (next_inode k0))) \<and>
     (\<forall>j < next_inode k0. inodes k j = inodes k0 j)"

text \<open>Outside the given set of paths only missing ancestors of the destination have appeared.\<close>

definition only_new_dirs :: "kernel \<Rightarrow> kpath \<Rightarrow> kpath set \<Rightarrow> kernel \<Rightarrow> bool" where
  "only_new_dirs k0 D X k \<longleftrightarrow> (\<forall>q. q \<notin> X \<longrightarrow> entries k q = entries k0 q \<or>
     prefix q D \<and> entries k0 q = None \<and> (\<exists>m. entries k q = Some (DirEnt m)))"

lemma untouched_refl [simp]: "untouched k K k"
  by (simp add: untouched_def)

lemma untouched_inode_closed [simp]: "next_inode k0 \<le> i \<Longrightarrow> inode_closed i (untouched k0 K)"
  by (auto simp: inode_closed_def untouched_def only_inode_def)

lemma untouched_grows: "grows_dirs D k0 k \<Longrightarrow> \<not> prefix K D \<Longrightarrow> untouched k0 K k"
  by (auto simp: grows_dirs_def untouched_def)

lemma untouched_add_file:
  "untouched k0 K k \<Longrightarrow> T \<noteq> K \<Longrightarrow> next_inode k0 \<le> i \<Longrightarrow> untouched k0 K (add_file env T i k)"
  by (simp add: untouched_def add_file_def)

lemma untouched_entry:
  "untouched k0 K k \<Longrightarrow> f K = entries k K \<Longrightarrow> untouched k0 K (k\<lparr>entries := f\<rparr>)"
  by (simp add: untouched_def)

lemma untouched_renamed:
  assumes "untouched k0 (resolve (cwd env) dst) k" and "inodes k (next_inode k0) = Some n"
  shows "replaced k0 (resolve (cwd env) dst) n (renamed env src dst (next_inode k0) k)"
  using assms by (auto simp: untouched_def replaced_def renamed_def)

lemma replaced_sync_closed [simp]: "sync_closed (replaced k0 K n)"
  unfolding sync_closed_def replaced_def sync_update_def by simp metis

lemma safe_sync_closed [simp]: "sync_closed (\<lambda>k. untouched k0 K k \<or> replaced k0 K n k)"
  unfolding sync_closed_def replaced_def untouched_def sync_update_def by simp metis

lemma entries_sync_closed [simp]: "sync_closed (\<lambda>k. P (entries k))"
  by (simp add: sync_closed_def)

lemma only_new_dirs_grows: "grows_dirs D k0 k \<Longrightarrow> only_new_dirs k0 D X k"
  by (simp add: grows_dirs_def only_new_dirs_def)

lemma create_temp_fails: "create_temp env d w = (Inl e, w') \<Longrightarrow> w' = w"
  by (auto simp: create_temp_def Let_def split: option.splits)

lemma create_temp_succeeds:
  assumes "create_temp env d w = (Inr (tmp, i), w')"
  shows "\<exists>s \<in> set (suffixes env). tmp = temp_path d s \<and> i = next_inode (kern w) \<and>
    entries (kern w) (resolve (cwd env) tmp) = None \<and>
    w' = (emit (add_file env (resolve (cwd env) tmp) i) w)\<lparr>fds := insert i (fds w)\<rparr>"
proof -
  let ?free = "\<lambda>s. entries (kern w) (resolve (cwd env) (temp_path d s)) = None"
  obtain s where s: "List.find ?free (take 10000 (suffixes env)) = Some s"
    using assms by (auto simp: create_temp_def split: option.splits)
  then have "s \<in> set (suffixes env)" "?free s"
    by (auto simp: find_Some_iff dest: in_set_takeD)
  then show ?thesis using assms s
    by (auto simp: create_temp_def Let_def split: option.splits)
qed

lemma os_remove_cases:
  assumes "os_remove env p w = (e, w')"
  shows "w' = w \<and> (remove_fault env \<noteq> None \<or> (\<forall>i. entries (kern w) (resolve (cwd env) p) \<noteq> Some (FileEnt i))) \<or>
    w' = emit (\<lambda>k. k\<lparr>entries := (entries k)(resolve (cwd env) p := None)\<rparr>) w"
  using assms by (auto simp: os_remove_def split: option.splits entry.splits)

lemma cleanup_kern:
  fixes w :: file_world
  assumes "cleanup env tmp err temporary w = w'" and "err \<noteq> None"
    and "e = entries (kern w) (resolve (cwd env) tmp)"
  shows "fds w' = fds w - set_option temporary \<and>
    (kern w' = kern w \<and> seen w' = seen w \<and> (remove_fault env \<noteq> None \<or> (\<forall>i. e \<noteq> Some (FileEnt i))) \<or>
     kern w' = (kern w)\<lparr>entries := (entries (kern w))(resolve (cwd env) tmp := None)\<rparr> \<and>
     seen w' = seen w @ [kern w'])"
proof -
  let ?w1 = "case temporary of None \<Rightarrow> w | Some i \<Rightarrow> snd (os_close env i w)"
  have w1: "kern ?w1 = kern w" "seen ?w1 = seen w" "fds ?w1 = fds w - set_option temporary"
    by (auto simp: os_close_def split: option.splits)
  obtain x w2 where r: "os_remove env tmp ?w1 = (x, w2)" by fastforce
  have "w' = w2" using assms(1,2) r by (simp add: cleanup_def Let_def)
  from os_remove_cases [OF r] show ?thesis
  proof (rule disjE)
    assume "w2 = ?w1 \<and> (remove_fault env \<noteq> None \<or>
      (\<forall>i. entries (kern ?w1) (resolve (cwd env) tmp) \<noteq> Some (FileEnt i)))"
    then show ?thesis using \<open>w' = w2\<close> w1 assms(3) by simp
  next
    assume "w2 = emit (\<lambda>k. k\<lparr>entries := (entries k)(resolve (cwd env) tmp := None)\<rparr>) ?w1"
    then show ?thesis using \<open>w' = w2\<close> w1 by simp
  qed
qed

subsection \<open>The outcome of writing\<close>

text \<open>
  What a call of \<open>write_reader\<close> is judged by: at every moment the destination is old or
  complete, the result tells which, no descriptor and no temporary file is left.
\<close>

definition write_outcome ::
  "env \<Rightarrow> string \<Rightarrow> reader \<Rightarrow> file_mode \<Rightarrow> file_world \<Rightarrow> gerror option \<Rightarrow> file_world \<Rightarrow> bool" where
  "write_outcome env path rd mode w err w' \<longleftrightarrow>
     (let K = resolve (cwd env) path; k0 = kern w; n = filled rd mode;
          tidy = only_new_dirs k0 (resolve (cwd env) (path_dir path)) {K} (kern w') in
      all_seen (\<lambda>k. untouched k0 K k \<or> replaced k0 K n k) w' \<and> fds w' = fds w \<and>
      (if err = None \<or> is_committed err then read_err rd = None \<and> replaced k0 K n (kern w') \<and> tidy
       else untouched k0 K (kern w') \<and> (remove_fault env = None \<longrightarrow> tidy)))"

lemma write_outcome_early:
  assumes "same_rest w w'" and "grows_dirs (resolve (cwd env) (path_dir path)) (kern w) (kern w')"
    and "\<forall>k \<in> set (seen w'). grows_dirs (resolve (cwd env) (path_dir path)) (kern w) k"
    and "plain_name (last_element path)" and "err \<noteq> None" and "\<not> is_committed err"
  shows "write_outcome env path rd mode w err w'"
proof -
  have "\<not> prefix (resolve (cwd env) path) (resolve (cwd env) (path_dir path))"
    using resolve_dir_last [OF assms(4), of "cwd env"] by (auto dest: prefix_length_le)
  then show ?thesis using assms
    by (auto simp: write_outcome_def Let_def all_seen_def same_rest_def
        intro: untouched_grows only_new_dirs_grows)
qed

text \<open>The temporary file: a fresh inode under a fresh name beside the destination.\<close>

lemma temp_beside:
  assumes "proper_destination env path"
    and "grows_dirs (resolve (cwd env) (path_dir path)) k0 (kern w1)"
    and "create_temp env (path_dir path) w1 = (Inr (tmp, i), w2)"
  shows "i = next_inode k0" and "resolve (cwd env) tmp \<noteq> resolve (cwd env) path"
    and "untouched k0 (resolve (cwd env) path) (kern w2)"
    and "only_new_dirs k0 (resolve (cwd env) (path_dir path)) {resolve (cwd env) tmp} (kern w2)"
    and "entries k0 (resolve (cwd env) tmp) = None"
proof -
  let ?K = "resolve (cwd env) path" and ?D = "resolve (cwd env) (path_dir path)"
  have K: "?K = ?D @ [last_element path]"
    using assms(1) resolve_dir_last by (simp add: proper_destination_def)
  then have nK: "\<not> prefix ?K ?D" by (auto dest: prefix_length_le)
  from create_temp_succeeds [OF assms(3)] obtain s where s: "s \<in> set (suffixes env)"
    "tmp = temp_path (path_dir path) s" "i = next_inode (kern w1)"
    "entries (kern w1) (resolve (cwd env) tmp) = None"
    and k2: "kern w2 = add_file env (resolve (cwd env) tmp) i (kern w1)" by auto
  show i: "i = next_inode k0" using s(3) assms(2) by (simp add: grows_dirs_def)
  have T: "resolve (cwd env) tmp = ?D @ [temp_name s]" by (simp add: s(2) resolve_temp)
  show TK: "resolve (cwd env) tmp \<noteq> ?K"
    using T K s(1) assms(1) by (auto simp: proper_destination_def)
  show "untouched k0 ?K (kern w2)"
    using untouched_grows [OF assms(2) nK] TK i by (simp add: k2 untouched_add_file)
  show "only_new_dirs k0 ?D {resolve (cwd env) tmp} (kern w2)"
    using assms(2) by (simp add: k2 only_new_dirs_def add_file_def grows_dirs_def)
  have "\<not> prefix (resolve (cwd env) tmp) ?D" by (simp add: T)
  then show "entries k0 (resolve (cwd env) tmp) = None"
    using s(4) assms(2) by (simp add: grows_dirs_def) metis
qed

lemma validate_error: "validate path mode dmode = Some e \<Longrightarrow> \<not> is_committed (Some e)"
  by (auto simp: validate_def validate_path_and_directory_mode_def split: option.splits if_splits)

lemma cleanup_all_seen:
  assumes "all_seen P w3" and "w' = cleanup env tmp err temporary w3"
    and "\<And>k. P k \<Longrightarrow> P (k\<lparr>entries := (entries k)(resolve (cwd env) tmp := None)\<rparr>)"
  shows "all_seen P w'"
proof (cases "err = None")
  case True
  then show ?thesis using assms(1,2)
    by (auto simp: cleanup_def os_close_def all_seen_def split: option.splits)
next
  case False
  from cleanup_kern [OF assms(2) [symmetric] False refl] show ?thesis
    using assms(1,3) by (auto simp: all_seen_def)
qed

lemma safe_remove:
  assumes "T \<noteq> K" and "untouched k0 K k \<or> replaced k0 K n k"
  shows "untouched k0 K (k\<lparr>entries := (entries k)(T := None)\<rparr>) \<or>
    replaced k0 K n (k\<lparr>entries := (entries k)(T := None)\<rparr>)"
  using assms by (auto simp: untouched_def replaced_def)

lemma finish_failed:
  assumes w': "w' = cleanup env tmp err temporary w3" and err: "err \<noteq> None"
    and f: "fills (next_inode k0) w2 w3" and seen: "all_seen (untouched k0 K) w2"
    and TK: "resolve (cwd env) tmp \<noteq> K"
    and T0: "entries k0 (resolve (cwd env) tmp) = None"
    and T2: "entries (kern w2) (resolve (cwd env) tmp) = Some (FileEnt i)"
    and new: "only_new_dirs k0 D {resolve (cwd env) tmp} (kern w2)"
  shows "all_seen (untouched k0 K) w'"
    and "remove_fault env = None \<Longrightarrow> only_new_dirs k0 D {K} (kern w')"
proof -
  let ?T = "resolve (cwd env) tmp"
  have "all_seen (untouched k0 K) w3" using f seen by (simp add: fills_def)
  then show "all_seen (untouched k0 K) w'"
    by (rule cleanup_all_seen [OF _ w']) (use TK in \<open>simp add: untouched_def\<close>)
  have e3: "entries (kern w3) = entries (kern w2)" using f by (simp add: fills_def only_inode_def)
  assume "remove_fault env = None"
  then have "kern w' = (kern w3)\<lparr>entries := (entries (kern w3))(?T := None)\<rparr>"
    using cleanup_kern [OF w' [symmetric] err refl] T2 e3 by auto
  then show "only_new_dirs k0 D {K} (kern w')"
    using new T0 e3 by (simp add: only_new_dirs_def)
qed

lemma finish_replaced:
  assumes w': "w' = cleanup env tmp err temporary w3"
    and f: "fills i w2 w4" and i: "i = next_inode k0"
    and n: "inodes (kern w4) i = Some n"
    and sy: "synced (emit (renamed env tmp path i) w4) w3"
    and seen: "all_seen (untouched k0 (resolve (cwd env) path)) w2"
    and TK: "resolve (cwd env) tmp \<noteq> resolve (cwd env) path"
    and T0: "entries k0 (resolve (cwd env) tmp) = None"
    and new: "only_new_dirs k0 D {resolve (cwd env) tmp} (kern w2)"
  shows "all_seen (\<lambda>k. untouched k0 (resolve (cwd env) path) k \<or>
      replaced k0 (resolve (cwd env) path) n k) w'"
    and "replaced k0 (resolve (cwd env) path) n (kern w')"
    and "only_new_dirs k0 D {resolve (cwd env) path} (kern w')"
proof -
  let ?K = "resolve (cwd env) path" and ?T = "resolve (cwd env) tmp"
  let ?safe = "\<lambda>k. untouched k0 ?K k \<or> replaced k0 ?K n k" and ?w5 = "emit (renamed env tmp path i) w4"
  have un: "all_seen (untouched k0 ?K) w4" using f seen i by (simp add: fills_def)
  then have re: "replaced k0 ?K n (kern ?w5)"
    using untouched_renamed [OF all_seen_kern [OF un]] n i by simp
  have "all_seen ?safe ?w5"
    by (rule all_seen_emit [OF all_seen_mono [OF un]]) (use re in simp_all)
  then have "all_seen ?safe w3" using syncedD(3) [OF sy] by simp
  then show "all_seen ?safe w'"
    by (rule cleanup_all_seen [OF _ w']) (rule safe_remove [OF TK])
  define good where "good k \<longleftrightarrow> replaced k0 ?K n k \<and> only_new_dirs k0 D {?K} k" for k
  have "only_new_dirs k0 D {?K} (kern ?w5)"
    using new T0 f by (auto simp: only_new_dirs_def renamed_def fills_def only_inode_def)
  then have "good (kern ?w5)" using re by (simp add: good_def)
  moreover have "sync_closed good"
    using replaced_sync_closed [of k0 ?K n]
    by (simp add: good_def sync_closed_def only_new_dirs_def)
  ultimately have g3: "good (kern w3)" using syncedD(2) [OF sy] by blast
  moreover have "good ((kern w3)\<lparr>entries := (entries (kern w3))(?T := None)\<rparr>)"
    using g3 TK T0 by (simp add: good_def replaced_def only_new_dirs_def)
  moreover have "kern w' = kern w3 \<or> kern w' = (kern w3)\<lparr>entries := (entries (kern w3))(?T := None)\<rparr>"
  proof (cases "err = None")
    case True
    then show ?thesis by (auto simp: w' cleanup_def os_close_def split: option.splits)
  next
    case False
    from cleanup_kern [OF w' [symmetric] False refl] show ?thesis by blast
  qed
  ultimately have "good (kern w')" by auto
  then show "replaced k0 ?K n (kern w')" "only_new_dirs k0 D {?K} (kern w')"
    by (simp_all add: good_def)
qed

lemma cleanup_fds: "fds (cleanup env tmp err temporary w) = fds w - set_option temporary"
  by (auto simp: cleanup_def os_close_def os_remove_def Let_def split: option.splits entry.splits)

context dir_sync
begin

lemma write_reader_outcome:
  assumes wr: "write_reader env sync path (Some rd) mode dmode w = Some (err, w')"
    and spec: "replace_file_spec env" and proper: "proper_destination env path"
    and start: "seen w = []" "\<forall>i \<in> fds w. i < next_inode (kern w)"
  shows "write_outcome env path rd mode w err w'"
proof -
  let ?K = "resolve (cwd env) path" and ?D = "resolve (cwd env) (path_dir path)"
  let ?k0 = "kern w" and ?n = "filled rd mode"
  have plain: "plain_name (last_element path)" using proper by (simp add: proper_destination_def)
  obtain r w1 where s1: "create_parent_directories env (path_dir path) dmode w = (r, w1)" by fastforce
  note f1 = create_parent_directories_frame [OF s1]
  then have g1: "same_rest w w1" "grows_dirs ?D ?k0 (kern w1)" "\<forall>k \<in> set (seen w1). grows_dirs ?D ?k0 k"
    using start(1) by auto
  note early = write_outcome_early [OF g1 plain]
  show ?thesis
  proof (cases "\<exists>e. validate path mode dmode = Some e \<or> r = Inl e")
    case True
    have refl: "write_outcome env path rd mode w err w" if "err \<noteq> None" "\<not> is_committed err"
      using that plain start(1) by (intro write_outcome_early) auto
    show ?thesis
    proof (cases "validate path mode dmode")
      case (Some e)
      then have "w' = w" "err = Some e" using wr by (simp_all add: write_reader_def)
      then show ?thesis using refl validate_error [OF Some] by simp
    next
      case None
      then obtain e where "r = Inl e" using True by auto
      then have "w' = w1" "err = Some (Wrapf (''create parent directory for '' @ path) e)"
        using wr s1 None by (simp_all add: write_reader_def)
      then show ?thesis using early by simp
    qed
  next
    case False
    then obtain created where v: "validate path mode dmode = None" and r: "r = Inr created"
      by (cases r) auto
    obtain t w2 where s2: "create_temp env (path_dir path) w1 = (t, w2)" by fastforce
    show ?thesis
    proof (cases t)
      case (Inl e)
      then show ?thesis using wr v s1 r s2 early create_temp_fails [of env "path_dir path" w1 e w2]
        by (auto simp: write_reader_def)
    next
      case (Inr ti)
      then obtain tmp i where t: "t = Inr (tmp, i)" by (cases ti) auto
      note s2 = s2 [unfolded t]
      let ?T = "resolve (cwd env) tmp"
      from create_temp_succeeds [OF s2] have
        w2: "w2 = (emit (add_file env ?T i) w1)\<lparr>fds := insert i (fds w1)\<rparr>" by auto
      note tb = temp_beside [OF proper g1(2) s2]
      obtain temporary w3 where
        s3: "fill_and_commit env sync path created tmp i rd mode w2 = Some (err, temporary, w3)" and
        w': "w' = cleanup env tmp err temporary w3"
        using wr v s1 r s2 by (auto simp: write_reader_def split: option.splits)
      have seen2: "all_seen (untouched ?k0 ?K) w2"
      proof -
        have "\<not> prefix ?K ?D" using resolve_dir_last [OF plain, of "cwd env"] by (auto dest: prefix_length_le)
        then have "all_seen (untouched ?k0 ?K) w1"
          using g1(2,3) untouched_grows by (auto simp: all_seen_def)
        then show ?thesis using tb(3) by (auto simp: w2 all_seen_def)
      qed
      have T2: "entries (kern w2) ?T = Some (FileEnt i)" "inodes (kern w2) i =
          Some \<lparr>content = [], perm = 384 AND NOT (umask env), flushed = False\<rparr>"
        by (simp_all add: w2 add_file_def)
      note fc = fill_and_commit_cases [OF s3 spec T2(2)]
      have "i \<notin> fds w" using start(2) tb(1) by auto
      moreover have "fds w2 = insert i (fds w)" using g1(1) by (simp add: w2 same_rest_def)
      ultimately have fd: "fds w' = fds w"
        using fc by (cases temporary) (auto simp: w' cleanup_fds)
      show ?thesis
      proof (cases "err = None \<or> is_committed err")
        case False
        then have "fills (next_inode ?k0) w2 w3" "err \<noteq> None" using fc tb(1) by auto
        from finish_failed [OF w' this(2,1) seen2 tb(2,5) T2(1) tb(4)] show ?thesis
          using False fd by (auto simp: write_outcome_def Let_def all_seen_def)
      next
        case True
        then obtain w4 j where ok: "read_err rd = None" and w4: "fills i w2 w4" "inodes (kern w4) i = Some ?n"
          "entries (kern w4) ?T = Some (FileEnt j)" "synced (emit (renamed env tmp path j) w4) w3"
          using fc by auto
        then have "j = i" using T2(1) by (auto simp: fills_def only_inode_def)
        from finish_replaced [OF w' w4(1) tb(1) w4(2) w4(4) [unfolded this] seen2 tb(2,5,4)]
        show ?thesis using True fd ok by (simp add: write_outcome_def Let_def)
      qed
    qed
  qed
qed

end

end
