(* ===== verification/Durable_Threads.thy ===== *)
theory Durable_Threads
  imports Durable_Safety
begin

section \<open>Package durablefile: calls that run at the same time\<close>

text \<open>
  The steps of a call of \<open>WriteReader\<close> or \<open>Replace\<close>, one per system call and per critical section of the
  lock registry, and a system of any number of calls that share the file system and the
  registry. The steps are written with the operations of \<open>Durable_Fs\<close>, \<open>Durable_Lock\<close> and
  \<open>Durable_File\<close>; run by one thread alone they are \<open>WriteReader\<close> and \<open>Replace\<close>.
\<close>

subsection \<open>A call and where it is\<close>

text \<open>A call of \<open>Replace\<close> has a source; reader and file mode are those of a call of \<open>WriteReader\<close>.\<close>

record write_job =
  job_env :: env
  job_path :: string
  job_source :: "string option"
  job_reader :: reader
  job_mode :: file_mode
  job_dir_mode :: file_mode

text \<open>The variables of a call once it has a file: the temporary one, or the source.\<close>

record draft =
  temp_file :: string
  temp_inode :: nat
  made :: "string list"

datatype write_pc =
    Called
  | Scanning string "string list"
  | Making kpath "string list" "string list"
  | Naming "nat list" "string list"
  | Sourcing string "string list"
  | Syncing draft
  | Synced draft
  | Opened draft
  | Copying draft "string list" nat
  | Copied draft
  | Flushed draft
  | Closed draft
  | Queued draft nat
  | Locked draft nat
  | Swapped draft nat
  | Settled draft nat
  | Linking draft nat "string list" "string list"
  | Releasing draft nat "gerror option"
  | Parting draft nat "gerror option"
  | Deferred draft "nat option" "gerror option"
  | Returned "draft option" "gerror option"

definition job_key :: "write_job \<Rightarrow> string" where
  "job_key j = lock_key (getwd (job_env j)) (job_path j)"

definition job_dir :: "write_job \<Rightarrow> string" where
  "job_dir j = path_dir (job_path j)"

definition job_transaction :: "write_job \<Rightarrow> draft \<Rightarrow> transaction" where
  "job_transaction j d = \<lparr>source = temp_file d, destination = job_path j,
     source_directory = (case job_source j of None \<Rightarrow> job_dir j | Some src \<Rightarrow> path_dir src),
     destination_dir = job_dir j, created_directories = made d\<rparr>"

definition job_check :: "write_job \<Rightarrow> gerror option" where
  "job_check j =
     (case job_source j of
        None \<Rightarrow> validate (job_path j) (job_mode j) (job_dir_mode j)
      | Some src \<Rightarrow>
          if src = [] then Some (Plain ''source path is required'')
          else validate_path_and_directory_mode (job_path j) (job_dir_mode j))"

definition fails_with :: "string \<Rightarrow> gerror \<Rightarrow> gerror option" where
  "fails_with msg e = Some (Wrapf msg e)"

subsection \<open>The steps\<close>

text \<open>\<^const>\<open>None\<close> means that the call is over, or waits for a mutex that is held.\<close>

fun write_move :: "write_job \<Rightarrow> write_pc \<Rightarrow> file_world \<Rightarrow> (write_pc \<times> file_world) option" where
  "write_move j Called w =
     Some (case job_check j of
         Some e \<Rightarrow> (Returned None (Some e), w)
       | None \<Rightarrow> (Scanning (path_clean (job_dir j)) [], w))"
| "write_move j (Scanning current missing) w =
     Some (case os_stat (job_env j) (kern w) current of
         StatOk _ \<Rightarrow> (Making [] (resolve (cwd (job_env j)) (job_dir j)) missing, w)
       | StatErr e \<Rightarrow> (Returned None (fails_with (''create parent directory for '' @ job_path j) e), w)
       | StatNotExist \<Rightarrow>
           if path_dir current = current
           then (Making [] (resolve (cwd (job_env j)) (job_dir j)) (missing @ [current]), w)
           else (Scanning (path_dir current) (missing @ [current]), w))"
| "write_move j (Making pre [] missing) w =
     Some (case job_source j of
         None \<Rightarrow> (Naming (take 10000 (suffixes (job_env j))) missing, w)
       | Some src \<Rightarrow> (Sourcing src missing, w))"
| "write_move j (Making pre (c # cs) missing) w =
     Some (case entries (kern w) (pre @ [c]) of
         Some (DirEnt _) \<Rightarrow> (Making (pre @ [c]) cs missing, w)
       | Some (FileEnt _) \<Rightarrow> (Returned None (fails_with (''create parent directory for '' @ job_path j) ENOTDIR), w)
       | None \<Rightarrow> (case mkdir_fault (job_env j) (pre @ [c]) of
             Some e \<Rightarrow> (Returned None (fails_with (''create parent directory for '' @ job_path j) e), w)
           | None \<Rightarrow> (Making (pre @ [c]) cs missing,
               emit (add_dir (job_env j) (pre @ [c]) (job_dir_mode j)) w)))"
| "write_move j (Naming ss missing) w =
     Some (case temp_fault (job_env j) of
         Some e \<Rightarrow> (Returned None (fails_with (''create temporary file for '' @ job_path j) e), w)
       | None \<Rightarrow> (case ss of
             [] \<Rightarrow> (Returned None (fails_with (''create temporary file for '' @ job_path j) EEXIST), w)
           | s # ss' \<Rightarrow>
               (let p = temp_path (job_dir j) s; q = resolve (cwd (job_env j)) p; i = next_inode (kern w);
                    w' = emit (add_file (job_env j) q i) w in
                if entries (kern w) q = None
                then (Opened \<lparr>temp_file = p, temp_inode = i, made = missing\<rparr>, w'\<lparr>fds := insert i (fds w')\<rparr>)
                else (Naming ss' missing, w))))"
| "write_move j (Sourcing src missing) w =
     Some (case os_open (job_env j) src w of
         (Inl e, w') \<Rightarrow> (Returned None (fails_with (''open source file '' @ src) e), w')
       | (Inr i, w') \<Rightarrow> (Syncing \<lparr>temp_file = src, temp_inode = i, made = missing\<rparr>, w'))"
| "write_move j (Syncing d) w =
     Some (case os_fsync (job_env j) (temp_inode d) w of
         (Some e, w') \<Rightarrow> (Returned (Some d) (fails_with (''flush source file '' @ temp_file d) e),
             snd (os_close (job_env j) (temp_inode d) w'))
       | (None, w') \<Rightarrow> (Synced d, w'))"
| "write_move j (Synced d) w =
     Some (case os_close (job_env j) (temp_inode d) w of
         (Some e, w') \<Rightarrow> (Returned (Some d) (fails_with (''close source file '' @ temp_file d) e), w')
       | (None, w') \<Rightarrow> (Closed d, w'))"
| "write_move j (Opened d) w =
     Some (case os_chmod (job_env j) (temp_inode d) (job_mode j) w of
         (Some e, w') \<Rightarrow> (Deferred d (Some (temp_inode d)) (fails_with (''set temporary file mode for '' @ job_path j) e), w')
       | (None, w') \<Rightarrow> (Copying d (chunks (job_reader j)) 0, w'))"
| "write_move j (Copying d [] n) w =
     Some (case read_err (job_reader j) of
         Some e \<Rightarrow> (Deferred d (Some (temp_inode d)) (fails_with (''write temporary file for '' @ job_path j) e), w)
       | None \<Rightarrow> (Copied d, w))"
| "write_move j (Copying d (c # cs) n) w =
     Some (case write_fault (job_env j) n of
         Some (m, e) \<Rightarrow> (Deferred d (Some (temp_inode d)) (fails_with (''write temporary file for '' @ job_path j) e),
             emit (upd_inode (temp_inode d) (append_bytes (take m c))) w)
       | None \<Rightarrow> (Copying d cs (Suc n), emit (upd_inode (temp_inode d) (append_bytes c)) w))"
| "write_move j (Copied d) w =
     Some (case os_fsync (job_env j) (temp_inode d) w of
         (Some e, w') \<Rightarrow> (Deferred d (Some (temp_inode d)) (fails_with (''flush temporary file for '' @ job_path j) e), w')
       | (None, w') \<Rightarrow> (Flushed d, w'))"
| "write_move j (Flushed d) w =
     Some (case os_close (job_env j) (temp_inode d) w of
         (Some e, w') \<Rightarrow> (Deferred d (Some (temp_inode d)) (fails_with (''close temporary file for '' @ job_path j) e), w')
       | (None, w') \<Rightarrow> (Closed d, w'))"
| "write_move j (Closed d) w =
     Some (case lock_enter (job_key j) (lockreg w) of (p, r) \<Rightarrow> (Queued d p, w\<lparr>lockreg := r\<rparr>))"
| "write_move j (Queued d p) w =
     (case lock_mu p (lockreg w) of None \<Rightarrow> None | Some r \<Rightarrow> Some (Locked d p, w\<lparr>lockreg := r\<rparr>))"
| "write_move j (Locked d p) w =
     Some (case replace_atomically (job_env j) (temp_file d) (job_path j) w of
         (Some e, w') \<Rightarrow> (Releasing d p (Some e), w')
       | (None, w') \<Rightarrow> (Swapped d p, w'))"
| "write_move j (Swapped d p) w =
     Some (case sync_directory (job_env j) (job_dir j) w of
         (Some e, w') \<Rightarrow> (Releasing d p (Some (half_done (job_path j) ''syncing its directory'' e)), w')
       | (None, w') \<Rightarrow> (Settled d p, w'))"
| "write_move j (Settled d p) w =
     Some (case sync_source_directory (job_env j) (sync_directory (job_env j)) (job_transaction j d) w of
         (Some e, w') \<Rightarrow> (Releasing d p (Some (half_done (job_path j) (''syncing source directory '' @ source_directory (job_transaction j d)) e)), w')
       | (None, w') \<Rightarrow> (Linking d p [] (made d), w'))"
| "write_move j (Linking d p already []) w = Some (Releasing d p None, w)"
| "write_move j (Linking d p already (directory # created)) w =
     Some (let parent = path_dir directory in
       if parent \<in> set already then (Linking d p already created, w)
       else (case sync_directory (job_env j) parent w of
           (Some e, w') \<Rightarrow>
             (Releasing d p (Some (half_done (job_path j) ''syncing a created directory parent'' e)), w')
         | (None, w') \<Rightarrow> (Linking d p (parent # already) created, w')))"
| "write_move j (Releasing d p err) w = Some (Parting d p err, w\<lparr>lockreg := unlock_mu p (lockreg w)\<rparr>)"
| "write_move j (Parting d p err) w =
     Some (case job_source j of None \<Rightarrow> Deferred d None err | Some _ \<Rightarrow> Returned (Some d) err,
       w\<lparr>lockreg := lock_exit (job_key j) p (lockreg w)\<rparr>)"
| "write_move j (Deferred d temporary err) w =
     Some (Returned (Some d) err, cleanup (job_env j) (temp_file d) err temporary w)"
| "write_move j (Returned d err) w = None"

text \<open>One call, alone.\<close>

definition alone :: "write_job \<Rightarrow> write_pc \<times> file_world \<Rightarrow> write_pc \<times> file_world \<Rightarrow> bool" where
  "alone j a b \<longleftrightarrow> write_move j (fst a) (snd a) = Some b"

text \<open>Calls that share files and locks.\<close>

record writers =
  files :: file_world
  stage :: "nat \<Rightarrow> write_pc"

inductive writer_step :: "(nat \<Rightarrow> write_job) \<Rightarrow> writers \<Rightarrow> writers \<Rightarrow> bool" for J where
  moves: "write_move (J t) (stage s t) (files s) = Some (c, w) \<Longrightarrow>
     writer_step J s \<lparr>files = w, stage = (stage s)(t := c)\<rparr>"

definition write_start :: "kernel \<Rightarrow> writers \<Rightarrow> bool" where
  "write_start k0 s \<longleftrightarrow> kern (files s) = k0 \<and> lockreg (files s) = empty_registry \<and> stage s = (\<lambda>_. Called)"

definition write_reachable :: "(nat \<Rightarrow> write_job) \<Rightarrow> kernel \<Rightarrow> writers \<Rightarrow> bool" where
  "write_reachable J k0 s \<longleftrightarrow> (\<exists>s0. write_start k0 s0 \<and> (writer_step J)\<^sup>*\<^sup>* s0 s)"

text \<open>A schedule says which call moves next.\<close>

fun write_schedule :: "(nat \<Rightarrow> write_job) \<Rightarrow> nat list \<Rightarrow> writers \<Rightarrow> writers option" where
  "write_schedule J [] s = Some s"
| "write_schedule J (t # ts) s =
     (case write_move (J t) (stage s t) (files s) of
        None \<Rightarrow> None
      | Some (c, w) \<Rightarrow> write_schedule J ts \<lparr>files = w, stage = (stage s)(t := c)\<rparr>)"

lemma write_schedule_steps: "write_schedule J ts s = Some s' \<Longrightarrow> (writer_step J)\<^sup>*\<^sup>* s s'"
  by (induction J ts s rule: write_schedule.induct)
    (auto split: option.splits intro: converse_rtranclp_into_rtranclp writer_step.moves)

subsection \<open>The steps of one call are \<open>WriteReader\<close> and \<open>Replace\<close>\<close>

text \<open>The call as a whole.\<close>

definition job_call :: "write_job \<Rightarrow> file_world \<Rightarrow> outcome" where
  "job_call j w =
     (case job_source j of
        None \<Rightarrow> WriteReader (job_env j) (job_path j) (Some (job_reader j)) (job_mode j) (job_dir_mode j) w
      | Some src \<Rightarrow> Replace (job_env j) src (job_path j) (job_dir_mode j) w)"

text \<open>What comes after the transaction: only \<open>writeReader\<close> has a deferred function.\<close>

definition after_commit :: "write_job \<Rightarrow> draft \<Rightarrow> gerror option \<Rightarrow> write_pc" where
  "after_commit j d err = (case job_source j of None \<Rightarrow> Deferred d None err | Some _ \<Rightarrow> Returned (Some d) err)"

lemma alone_step:
  "write_move j c w = Some (c', w') \<Longrightarrow> (alone j)\<^sup>*\<^sup>* (c', w') z \<Longrightarrow> (alone j)\<^sup>*\<^sup>* (c, w) z"
  by (rule converse_rtranclp_into_rtranclp) (simp_all add: alone_def)

lemma alone_one: "write_move j c w = Some z \<Longrightarrow> (alone j)\<^sup>*\<^sup>* (c, w) z"
  by (rule r_into_rtranclp) (simp add: alone_def)

lemma alone_scan:
  "(alone j)\<^sup>*\<^sup>* (Scanning current missing, w)
     (case missing_dirs (os_stat (job_env j) (kern w)) current missing of
        Inl e \<Rightarrow> Returned None (fails_with (''create parent directory for '' @ job_path j) e)
      | Inr ms \<Rightarrow> Making [] (resolve (cwd (job_env j)) (job_dir j)) ms, w)"
proof (induction "os_stat (job_env j) (kern w)" current missing rule: missing_dirs.induct)
  case (1 current missing)
  show ?case
  proof (cases "os_stat (job_env j) (kern w) current")
    case StatNotExist
    with 1 show ?thesis
      by (cases "path_dir current = current")
        (auto simp: missing_dirs.simps [of _ current] intro: alone_one alone_step)
  qed (auto simp: missing_dirs.simps [of _ current] intro: alone_one)
qed

lemma alone_mkdir:
  assumes "mkdir_all (job_env j) (job_dir_mode j) pre cs w = (e, w')"
  shows "(alone j)\<^sup>*\<^sup>* (Making pre cs ms, w)
     (case e of Some e \<Rightarrow> Returned None (fails_with (''create parent directory for '' @ job_path j) e)
      | None \<Rightarrow> (case job_source j of None \<Rightarrow> Naming (take 10000 (suffixes (job_env j))) ms
          | Some src \<Rightarrow> Sourcing src ms), w')"
  using assms
proof (induction "job_env j" "job_dir_mode j" pre cs w rule: mkdir_all.induct)
  case (2 pre c cs w)
  show ?case
  proof (cases "entries (kern w) (pre @ [c])")
    case new: None
    show ?thesis
    proof (cases "mkdir_fault (job_env j) (pre @ [c])")
      case None
      with 2 new show ?thesis by (auto intro: alone_step)
    next
      case (Some f)
      then have "e = Some f" "w' = w" using 2(3) new Some by simp_all
      then show ?thesis using new Some by (auto intro: alone_one)
    qed
  next
    case (Some x)
    with 2 show ?thesis by (cases x) (auto intro: alone_one alone_step)
  qed
qed (auto split: option.splits intro: alone_one)

lemma alone_name:
  assumes "temp_fault (job_env j) = None"
  shows "(alone j)\<^sup>*\<^sup>* (Naming ss ms, w)
    (case List.find (\<lambda>s. entries (kern w) (resolve (cwd (job_env j)) (temp_path (job_dir j) s)) = None) ss of
       None \<Rightarrow> (Returned None (fails_with (''create temporary file for '' @ job_path j) EEXIST), w)
     | Some s \<Rightarrow>
       (let p = temp_path (job_dir j) s; i = next_inode (kern w);
            w' = emit (add_file (job_env j) (resolve (cwd (job_env j)) p) i) w in
        (Opened \<lparr>temp_file = p, temp_inode = i, made = ms\<rparr>, w'\<lparr>fds := insert i (fds w')\<rparr>)))"
  using assms by (induction ss) (auto simp: Let_def intro: alone_one alone_step)

lemma alone_create_temp:
  assumes "create_temp (job_env j) (job_dir j) w = (r, w')"
  shows "(alone j)\<^sup>*\<^sup>* (Naming (take 10000 (suffixes (job_env j))) ms, w)
    (case r of Inl e \<Rightarrow> Returned None (fails_with (''create temporary file for '' @ job_path j) e)
     | Inr (p, i) \<Rightarrow> Opened \<lparr>temp_file = p, temp_inode = i, made = ms\<rparr>, w')"
proof (cases "temp_fault (job_env j)")
  case None
  from alone_name [where ss = "take 10000 (suffixes (job_env j))" and ms = ms and w = w, OF None] show ?thesis
    using assms None by (auto simp: create_temp_def Let_def split: option.splits)
next
  case (Some e)
  with assms show ?thesis by (auto simp: create_temp_def intro: alone_one)
qed

lemma alone_copy:
  assumes "io_copy (job_env j) (temp_inode d) cs (read_err (job_reader j)) n w = (e, w')"
  shows "(alone j)\<^sup>*\<^sup>* (Copying d cs n, w)
    (case e of Some e \<Rightarrow> Deferred d (Some (temp_inode d)) (fails_with (''write temporary file for '' @ job_path j) e)
     | None \<Rightarrow> Copied d, w')"
  using assms
proof (induction cs arbitrary: n w)
  case Nil
  then show ?case by (auto split: option.splits intro: alone_one)
next
  case (Cons c cs)
  then show ?case by (cases "write_fault (job_env j) n") (auto intro: alone_one alone_step)
qed

lemma alone_link:
  assumes "sync_created_directory_parents (sync_directory (job_env j)) already created w = (e, w')"
  shows "(alone j)\<^sup>*\<^sup>* (Linking d p already created, w)
    (Releasing d p (map_option (\<lambda>e. half_done (job_path j) ''syncing a created directory parent'' e) e), w')"
  using assms
proof (induction created arbitrary: already w)
  case (Cons directory created)
  show ?case
  proof (cases "path_dir directory \<in> set already")
    case True
    then show ?thesis using Cons by (auto intro: alone_step)
  next
    case False
    obtain e1 w1 where s: "sync_directory (job_env j) (path_dir directory) w = (e1, w1)" by fastforce
    show ?thesis using Cons False s by (cases e1) (auto simp: Let_def intro: alone_one alone_step)
  qed
qed (auto intro: alone_one)

lemma alone_commit_locked:
  assumes "commit_locked (job_env j) (sync_directory (job_env j)) (job_transaction j d) w = (err, w')"
  shows "(alone j)\<^sup>*\<^sup>* (Locked d p, w) (Releasing d p err, w')"
proof -
  obtain e1 w1 where s1: "replace_atomically (job_env j) (temp_file d) (job_path j) w = (e1, w1)" by fastforce
  obtain e2 w2 where s2: "sync_directory (job_env j) (job_dir j) w1 = (e2, w2)" by fastforce
  obtain e3 w3 where
    s3: "sync_source_directory (job_env j) (sync_directory (job_env j)) (job_transaction j d) w2 = (e3, w3)"
    by fastforce
  obtain e4 w4 where
    s4: "sync_created_directory_parents (sync_directory (job_env j)) [] (made d) w3 = (e4, w4)" by fastforce
  have c: "commit_locked (job_env j) (sync_directory (job_env j)) (job_transaction j d) w =
    (case e1 of Some e \<Rightarrow> (Some e, w1) | None \<Rightarrow>
     case e2 of Some e \<Rightarrow> (Some (half_done (job_path j) ''syncing its directory'' e), w2) | None \<Rightarrow>
     case e3 of Some e \<Rightarrow> (Some (half_done (job_path j) (''syncing source directory '' @ source_directory (job_transaction j d)) e), w3) | None \<Rightarrow>
     (map_option (\<lambda>e. half_done (job_path j) ''syncing a created directory parent'' e) e4, w4))"
    using s1 s2 s3 s4 by (auto simp: commit_locked_def job_transaction_def split: option.splits)
  note link = alone_link [OF s4, of d p]
  have m1: "write_move j (Locked d p) w =
      Some (case e1 of Some e \<Rightarrow> Releasing d p (Some e) | None \<Rightarrow> Swapped d p, w1)"
    using s1 by (simp split: option.splits)
  have m2: "write_move j (Swapped d p) w1 = Some (case e2 of
      Some e \<Rightarrow> Releasing d p (Some (half_done (job_path j) ''syncing its directory'' e)) | None \<Rightarrow> Settled d p, w2)"
    using s2 by (simp split: option.splits)
  have m3: "write_move j (Settled d p) w2 = Some (case e3 of
      Some e \<Rightarrow> Releasing d p (Some (half_done (job_path j) (''syncing source directory '' @ source_directory (job_transaction j d)) e))
    | None \<Rightarrow> Linking d p [] (made d), w3)"
    using s3 by (simp split: option.splits)
  show ?thesis
  proof (cases "e1 = None \<and> e2 = None \<and> e3 = None")
    case True
    then have "(alone j)\<^sup>*\<^sup>* (Settled d p, w2) (Releasing d p err, w')"
      using alone_step [OF m3] link c assms by simp
    then show ?thesis using True alone_step [OF m1] alone_step [OF m2] by simp
  next
    case False
    have "e1 = None \<Longrightarrow> (alone j)\<^sup>*\<^sup>* (Swapped d p, w1) z \<Longrightarrow> (alone j)\<^sup>*\<^sup>* (Locked d p, w) z"
      and "e2 = None \<Longrightarrow> (alone j)\<^sup>*\<^sup>* (Settled d p, w2) z \<Longrightarrow> (alone j)\<^sup>*\<^sup>* (Swapped d p, w1) z" for z
      using alone_step [OF m1] alone_step [OF m2] by simp_all
    then show ?thesis using False c assms alone_one [OF m1] alone_one [OF m2] alone_one [OF m3]
      by (cases e1; cases e2; cases e3) auto
  qed
qed

lemma alone_commit:
  assumes "commit (job_env j) (sync_directory (job_env j)) (job_transaction j d) w = Some (err, w')"
  shows "(alone j)\<^sup>*\<^sup>* (Closed d, w) (after_commit j d err, w')"
proof -
  obtain p r1 where en: "lock_enter (job_key j) (lockreg w) = (p, r1)" by fastforce
  then obtain r2 where mu: "lock_mu p r1 = Some r2"
    using assms by (auto simp: commit_def lock_destination_def job_key_def job_transaction_def split: option.splits)
  obtain e w2 where cl: "commit_locked (job_env j) (sync_directory (job_env j)) (job_transaction j d)
      (w\<lparr>lockreg := r2\<rparr>) = (e, w2)" by fastforce
  then have r: "e = err" "w' = w2\<lparr>lockreg := lock_exit (job_key j) p (unlock_mu p (lockreg w2))\<rparr>"
    using assms en mu
    by (auto simp: commit_def lock_destination_def release_destination_def job_key_def job_transaction_def)
  have "(alone j)\<^sup>*\<^sup>* (Closed d, w) (Locked d p, w\<lparr>lockreg := r2\<rparr>)"
    by (rule alone_step [where c' = "Queued d p" and w' = "w\<lparr>lockreg := r1\<rparr>"])
      (use en mu in \<open>auto intro: alone_one\<close>)
  also note alone_commit_locked [OF cl]
  also have "(alone j)\<^sup>*\<^sup>* (Releasing d p e, w2) (after_commit j d err, w')"
    by (rule alone_step [where c' = "Parting d p e" and w' = "w2\<lparr>lockreg := unlock_mu p (lockreg w2)\<rparr>"])
      (auto simp: r after_commit_def intro: alone_one split: option.splits)
  finally show ?thesis .
qed

text \<open>A call that waits for ever: it stands before a mutex that is held.\<close>

definition blocked :: "write_pc \<times> file_world \<Rightarrow> bool" where
  "blocked z \<longleftrightarrow> (\<exists>d p. fst z = Queued d p \<and> lock_mu p (lockreg (snd z)) = None)"

lemma alone_commit_blocked:
  assumes "commit (job_env j) (sync_directory (job_env j)) (job_transaction j d) w = None"
  shows "\<exists>z. (alone j)\<^sup>*\<^sup>* (Closed d, w) z \<and> blocked z"
proof -
  obtain p r1 where en: "lock_enter (job_key j) (lockreg w) = (p, r1)" by fastforce
  then have "lock_mu p r1 = None"
    using assms
    by (auto simp: commit_def lock_destination_def job_key_def job_transaction_def split: option.splits prod.splits)
  then have "blocked (Queued d p, w\<lparr>lockreg := r1\<rparr>)" by (simp add: blocked_def)
  moreover have "(alone j)\<^sup>*\<^sup>* (Closed d, w) (Queued d p, w\<lparr>lockreg := r1\<rparr>)"
    using en by (auto intro: alone_one)
  ultimately show ?thesis by blast
qed

lemma alone_fill:
  assumes "job_source j = None" and "fill_and_commit (job_env j) (sync_directory (job_env j)) (job_path j) (made d) (temp_file d)
      (temp_inode d) (job_reader j) (job_mode j) w = r"
  shows "case r of
      Some (err, temporary, w') \<Rightarrow> (alone j)\<^sup>*\<^sup>* (Opened d, w) (Deferred d temporary err, w')
    | None \<Rightarrow> \<exists>z. (alone j)\<^sup>*\<^sup>* (Opened d, w) z \<and> blocked z"
proof -
  obtain e1 w1 where s1: "os_chmod (job_env j) (temp_inode d) (job_mode j) w = (e1, w1)" by fastforce
  obtain e2 w2 where s2: "io_copy (job_env j) (temp_inode d) (chunks (job_reader j)) (read_err (job_reader j)) 0 w1 = (e2, w2)"
    by fastforce
  obtain e3 w3 where s3: "os_fsync (job_env j) (temp_inode d) w2 = (e3, w3)" by fastforce
  obtain e4 w4 where s4: "os_close (job_env j) (temp_inode d) w3 = (e4, w4)" by fastforce
  have m1: "write_move j (Opened d) w = Some (case e1 of
      Some e \<Rightarrow> Deferred d (Some (temp_inode d)) (fails_with (''set temporary file mode for '' @ job_path j) e)
    | None \<Rightarrow> Copying d (chunks (job_reader j)) 0, w1)" using s1 by (simp split: option.splits)
  note m2 = alone_copy [OF s2]
  have m3: "write_move j (Copied d) w2 = Some (case e3 of
      Some e \<Rightarrow> Deferred d (Some (temp_inode d)) (fails_with (''flush temporary file for '' @ job_path j) e)
    | None \<Rightarrow> Flushed d, w3)" using s3 by (simp split: option.splits)
  have m4: "write_move j (Flushed d) w3 = Some (case e4 of
      Some e \<Rightarrow> Deferred d (Some (temp_inode d)) (fails_with (''close temporary file for '' @ job_path j) e)
    | None \<Rightarrow> Closed d, w4)" using s4 by (simp split: option.splits)
  have eq: "r = (case e1 of Some e \<Rightarrow> Some (fails_with (''set temporary file mode for '' @ job_path j) e, Some (temp_inode d), w1) | None \<Rightarrow>
      case e2 of Some e \<Rightarrow> Some (fails_with (''write temporary file for '' @ job_path j) e, Some (temp_inode d), w2) | None \<Rightarrow>
      case e3 of Some e \<Rightarrow> Some (fails_with (''flush temporary file for '' @ job_path j) e, Some (temp_inode d), w3) | None \<Rightarrow>
      case e4 of Some e \<Rightarrow> Some (fails_with (''close temporary file for '' @ job_path j) e, Some (temp_inode d), w4) | None \<Rightarrow>
      map_option (\<lambda>(err, w5). (err, None, w5))
        (commit (job_env j) (sync_directory (job_env j)) (job_transaction j d) w4))"
    using assms s1 s2 s3 s4
    by (auto simp: fill_and_commit_def fails_with_def job_transaction_def job_dir_def split: option.splits)
  have to4: "(alone j)\<^sup>*\<^sup>* (Opened d, w) (Closed d, w4)" if "e1 = None" "e2 = None" "e3 = None" "e4 = None"
    using alone_step [OF m1] rtranclp_trans [OF m2] alone_step [OF m3] alone_one [OF m4] that by simp
  show ?thesis
  proof (cases "e1 = None \<and> e2 = None \<and> e3 = None \<and> e4 = None")
    case True
    show ?thesis
    proof (cases "commit (job_env j) (sync_directory (job_env j)) (job_transaction j d) w4")
      case None
      then show ?thesis using eq True alone_commit_blocked [OF None] rtranclp_trans [OF to4] by auto
    next
      case (Some z)
      then show ?thesis using eq True alone_commit [of j d w4 "fst z" "snd z"] rtranclp_trans [OF to4] assms(1)
        by (auto simp: after_commit_def split: prod.splits)
    qed
  next
    case False
    have "e1 = None \<Longrightarrow> (alone j)\<^sup>*\<^sup>* (Copying d (chunks (job_reader j)) 0, w1) z \<Longrightarrow> (alone j)\<^sup>*\<^sup>* (Opened d, w) z"
      and "e2 = None \<Longrightarrow> (alone j)\<^sup>*\<^sup>* (Copied d, w2) z \<Longrightarrow> (alone j)\<^sup>*\<^sup>* (Copying d (chunks (job_reader j)) 0, w1) z"
      and "e3 = None \<Longrightarrow> (alone j)\<^sup>*\<^sup>* (Flushed d, w3) z \<Longrightarrow> (alone j)\<^sup>*\<^sup>* (Copied d, w2) z" for z
      using alone_step [OF m1] rtranclp_trans [OF m2] alone_step [OF m3] by simp_all
    then show ?thesis using False eq alone_one [OF m1] m2 alone_one [OF m3] alone_one [OF m4]
      by (cases e1; cases e2; cases e3; cases e4) auto
  qed
qed

text \<open>From the start to the point where the parent directory exists.\<close>

lemma alone_parents:
  assumes "job_check j = None" and "create_parent_directories (job_env j) (job_dir j) (job_dir_mode j) w = (r, w')"
  shows "(alone j)\<^sup>*\<^sup>* (Called, w)
    (case r of Inl e \<Rightarrow> Returned None (fails_with (''create parent directory for '' @ job_path j) e)
     | Inr ms \<Rightarrow> (case job_source j of None \<Rightarrow> Naming (take 10000 (suffixes (job_env j))) ms
         | Some src \<Rightarrow> Sourcing src ms), w')"
proof -
  let ?D = "resolve (cwd (job_env j)) (job_dir j)"
  have s0: "(alone j)\<^sup>*\<^sup>* (Called, w) (Scanning (path_clean (job_dir j)) [], w)" using assms(1) by (auto intro: alone_one)
  note s1 = rtranclp_trans [OF s0 alone_scan [of j "path_clean (job_dir j)" "[]" w]]
  show ?thesis
  proof (cases "missing_dirs (os_stat (job_env j) (kern w)) (path_clean (job_dir j)) []")
    case (Inl e)
    then have "r = Inl e" "w' = w" using assms(2) by (simp_all add: create_parent_directories_def)
    then show ?thesis using s1 Inl by simp
  next
    case (Inr ms)
    obtain e1 w1 where mk: "mkdir_all (job_env j) (job_dir_mode j) [] ?D w = (e1, w1)" by fastforce
    have "(alone j)\<^sup>*\<^sup>* (Called, w) (Making [] ?D ms, w)" using s1 Inr by simp
    note run = rtranclp_trans [OF this alone_mkdir [OF mk]]
    have "w' = w1" "r = (case e1 of Some e \<Rightarrow> Inl e | None \<Rightarrow> Inr ms)"
      using assms(2) Inr mk by (auto simp: create_parent_directories_def split: option.splits)
    then show ?thesis using run by (cases e1) simp_all
  qed
qed

lemma alone_writes:
  assumes "job_source j = None"
  shows "case WriteReader (job_env j) (job_path j) (Some (job_reader j)) (job_mode j) (job_dir_mode j) w of
     Some (err, w') \<Rightarrow> \<exists>d. (alone j)\<^sup>*\<^sup>* (Called, w) (Returned d err, w')
   | None \<Rightarrow> \<exists>z. (alone j)\<^sup>*\<^sup>* (Called, w) z \<and> blocked z"
proof (cases "job_check j")
  case (Some e)
  then show ?thesis using alone_one [of j Called w "(Returned None (Some e), w)"] assms
    by (auto simp: WriteReader_def write_reader_def job_check_def)
next
  case check: None
  then have v: "validate (job_path j) (job_mode j) (job_dir_mode j) = None" using assms by (simp add: job_check_def)
  obtain r w1 where cp: "create_parent_directories (job_env j) (job_dir j) (job_dir_mode j) w = (r, w1)" by fastforce
  note s1 = alone_parents [OF check cp]
  show ?thesis
  proof (cases r)
    case (Inl e)
    then show ?thesis using s1 v cp by (auto simp: WriteReader_def write_reader_def fails_with_def job_dir_def)
  next
    case (Inr ms)
    obtain t w2 where ct: "create_temp (job_env j) (job_dir j) w1 = (t, w2)" by fastforce
    have s3: "(alone j)\<^sup>*\<^sup>* (Called, w) (case t of Inl e \<Rightarrow> Returned None (fails_with (''create temporary file for '' @ job_path j) e)
        | Inr (p, i) \<Rightarrow> Opened \<lparr>temp_file = p, temp_inode = i, made = ms\<rparr>, w2)"
      using rtranclp_trans [OF s1] Inr assms alone_create_temp [OF ct] by simp
    show ?thesis
    proof (cases t)
      case (Inl e)
      then show ?thesis using s3 v cp Inr \<open>r = Inr ms\<close> ct
        by (auto simp: WriteReader_def write_reader_def fails_with_def job_dir_def)
    next
      case (Inr pi)
      obtain p i where t: "t = Inr (p, i)" using Inr by (cases pi) simp
      let ?d = "\<lparr>temp_file = p, temp_inode = i, made = ms\<rparr>"
      let ?fc = "fill_and_commit (job_env j) (sync_directory (job_env j)) (job_path j) ms p i
        (job_reader j) (job_mode j) w2"
      have wr: "WriteReader (job_env j) (job_path j) (Some (job_reader j)) (job_mode j) (job_dir_mode j) w =
          (case ?fc of None \<Rightarrow> None
           | Some (err, temporary, w3) \<Rightarrow> Some (err, cleanup (job_env j) p err temporary w3))"
        using v cp \<open>r = Inr ms\<close> ct t by (simp add: WriteReader_def write_reader_def job_dir_def)
      note f = alone_fill [of j ?d w2, OF assms, simplified, OF refl]
      have s4: "(alone j)\<^sup>*\<^sup>* (Called, w) (Opened ?d, w2)" using s3 t by simp
      show ?thesis
      proof (cases ?fc)
        case None
        then show ?thesis using f wr rtranclp_trans [OF s4] by auto
      next
        case (Some z)
        obtain err temporary w3 where z: "z = (err, temporary, w3)" by (cases z) auto
        have "(alone j)\<^sup>*\<^sup>* (Opened ?d, w2) (Deferred ?d temporary err, w3)" using f Some z by simp
        also have "(alone j)\<^sup>*\<^sup>* (Deferred ?d temporary err, w3)
            (Returned (Some ?d) err, cleanup (job_env j) p err temporary w3)" by (auto intro: alone_one)
        finally show ?thesis using wr Some z rtranclp_trans [OF s4] by auto
      qed
    qed
  qed
qed

lemma alone_replaces:
  assumes "job_source j = Some src"
  shows "case Replace (job_env j) src (job_path j) (job_dir_mode j) w of
     Some (err, w') \<Rightarrow> \<exists>d. (alone j)\<^sup>*\<^sup>* (Called, w) (Returned d err, w')
   | None \<Rightarrow> \<exists>z. (alone j)\<^sup>*\<^sup>* (Called, w) z \<and> blocked z"
proof (cases "job_check j")
  case (Some e)
  then show ?thesis using alone_one [of j Called w "(Returned None (Some e), w)"] assms
    by (auto simp: Replace_def replace_with_def job_check_def split: if_splits)
next
  case check: None
  then have v: "src \<noteq> []" "validate_path_and_directory_mode (job_path j) (job_dir_mode j) = None"
    using assms by (simp_all add: job_check_def split: if_splits)
  obtain r w1 where cp: "create_parent_directories (job_env j) (job_dir j) (job_dir_mode j) w = (r, w1)" by fastforce
  note s1 = alone_parents [OF check cp]
  show ?thesis
  proof (cases r)
    case (Inl e)
    then show ?thesis using s1 v cp by (auto simp: Replace_def replace_with_def fails_with_def job_dir_def)
  next
    case (Inr ms)
    have s2: "(alone j)\<^sup>*\<^sup>* (Called, w) (Sourcing src ms, w1)" using s1 Inr assms by simp
    obtain t w2 where op: "os_open (job_env j) src w1 = (t, w2)" by fastforce
    show ?thesis
    proof (cases t)
      case (Inl e)
      have "(alone j)\<^sup>*\<^sup>* (Sourcing src ms, w1) (Returned None (fails_with (''open source file '' @ src) e), w2)"
        using op Inl by (auto intro: alone_one)
      then show ?thesis using rtranclp_trans [OF s2] v cp Inl op \<open>r = Inr ms\<close>
        by (auto simp: Replace_def replace_with_def fails_with_def job_dir_def)
    next
      case (Inr i)
      let ?d = "\<lparr>temp_file = src, temp_inode = i, made = ms\<rparr>"
      obtain e3 w3 where s3: "os_fsync (job_env j) i w2 = (e3, w3)" by fastforce
      obtain e4 w4 where s4: "os_close (job_env j) i w3 = (e4, w4)" by fastforce
      have m2: "(alone j)\<^sup>*\<^sup>* (Called, w) (Syncing ?d, w2)"
        by (rule rtranclp_trans [OF s2]) (use op Inr in \<open>auto intro: alone_one\<close>)
      have m3: "write_move j (Syncing ?d) w2 = Some (case e3 of
          Some e \<Rightarrow> Returned (Some ?d) (fails_with (''flush source file '' @ src) e) | None \<Rightarrow> Synced ?d,
          if e3 = None then w3 else w4)"
        using s3 s4 by (simp split: option.splits)
      have m4: "write_move j (Synced ?d) w3 = Some (case e4 of
          Some e \<Rightarrow> Returned (Some ?d) (fails_with (''close source file '' @ src) e) | None \<Rightarrow> Closed ?d, w4)"
        using s4 by (simp split: option.splits)
      have rp: "Replace (job_env j) src (job_path j) (job_dir_mode j) w = (case e3 of
          Some e \<Rightarrow> Some (fails_with (''flush source file '' @ src) e, w4) | None \<Rightarrow> (case e4 of
          Some e \<Rightarrow> Some (fails_with (''close source file '' @ src) e, w4)
        | None \<Rightarrow> commit (job_env j) (sync_directory (job_env j)) (job_transaction j ?d) w4))"
        using v cp \<open>r = Inr ms\<close> op Inr s3 s4 assms
        by (simp add: Replace_def replace_with_def fails_with_def job_dir_def job_transaction_def split: option.splits)
      show ?thesis
      proof (cases "e3 = None \<and> e4 = None")
        case True
        have to4: "(alone j)\<^sup>*\<^sup>* (Called, w) (Closed ?d, w4)"
          by (rule rtranclp_trans [OF m2 alone_step [OF _ alone_one]]) (use True m3 m4 in \<open>simp_all del: write_move.simps\<close>)
        show ?thesis
        proof (cases "commit (job_env j) (sync_directory (job_env j)) (job_transaction j ?d) w4")
          case None
          then show ?thesis using rp True alone_commit_blocked [OF None] rtranclp_trans [OF to4] by auto
        next
          case (Some z)
          obtain err w5 where z: "z = (err, w5)" by (cases z)
          have "(alone j)\<^sup>*\<^sup>* (Called, w) (Returned (Some ?d) err, w5)"
            using rtranclp_trans [OF to4 alone_commit [OF Some [unfolded z]]] assms by (simp add: after_commit_def)
          then show ?thesis using rp True Some z by auto
        qed
      next
        case False
        have "e3 = None \<Longrightarrow> (alone j)\<^sup>*\<^sup>* (Synced ?d, w3) z \<Longrightarrow> (alone j)\<^sup>*\<^sup>* (Called, w) z" for z
          using rtranclp_trans [OF m2] alone_step [OF m3] by simp
        then show ?thesis using False rp rtranclp_trans [OF m2 alone_one [OF m3]] alone_one [OF m4]
          by (cases e3; cases e4) auto
      qed
    qed
  qed
qed

lemma alone_reaches:
  "case job_call j w of
     Some (err, w') \<Rightarrow> \<exists>d. (alone j)\<^sup>*\<^sup>* (Called, w) (Returned d err, w')
   | None \<Rightarrow> \<exists>z. (alone j)\<^sup>*\<^sup>* (Called, w) z \<and> blocked z"
proof (cases "job_source j")
  case None
  then show ?thesis using alone_writes [OF None, of w] by (simp add: job_call_def)
next
  case (Some src)
  then show ?thesis using alone_replaces [OF Some, of w] by (simp add: job_call_def)
qed

text \<open>Steps are deterministic, so a run that has stopped is the run.\<close>

lemma alone_stops_once:
  assumes "(alone j)\<^sup>*\<^sup>* a b" and "\<And>x. \<not> alone j b x" and "(alone j)\<^sup>*\<^sup>* a c" and "\<And>x. \<not> alone j c x"
  shows "b = c"
  using assms(1,3)
proof (induction rule: converse_rtranclp_induct)
  case base
  then show ?case using assms(2) by (meson converse_rtranclpE)
next
  case (step a a')
  from step.prems show ?case
  proof (cases rule: converse_rtranclpE)
    case base
    then show ?thesis using assms(4) step.hyps(1) by blast
  next
    case (step y)
    then have "y = a'" using \<open>alone j a a'\<close> by (simp add: alone_def)
    then show ?thesis using step \<open>(alone j)\<^sup>*\<^sup>* a' c \<Longrightarrow> b = c\<close> by blast
  qed
qed

text \<open>
  The two translations of a call agree: the steps of a call, run with no other call in
  between, lead to the result and the state of \<open>WriteReader\<close> or of \<open>Replace\<close>, and to no other; when
  that never returns they end before a mutex that somebody else holds.
\<close>

theorem steps_are_the_call:
  "job_call j w = Some (err, w') \<longleftrightarrow> (\<exists>d. (alone j)\<^sup>*\<^sup>* (Called, w) (Returned d err, w'))"
    (is "?call = _ \<longleftrightarrow> ?run")
proof
  show "?call = Some (err, w') \<Longrightarrow> ?run" using alone_reaches [of j w] by simp
next
  assume ?run
  then obtain d where run: "(alone j)\<^sup>*\<^sup>* (Called, w) (Returned d err, w')" by blast
  have stop: "\<not> alone j (Returned d err, w') x" for d err w' x by (simp add: alone_def)
  show "?call = Some (err, w')"
  proof (cases ?call)
    case None
    then obtain z where z: "(alone j)\<^sup>*\<^sup>* (Called, w) z" "blocked z" using alone_reaches [of j w] by auto
    then have "\<not> alone j z x" for x by (auto simp: alone_def blocked_def)
    from alone_stops_once [OF run stop z(1) this] z(2) show ?thesis by (auto simp: blocked_def)
  next
    case (Some r)
    obtain err2 w2 where r: "r = (err2, w2)" by (cases r)
    obtain d2 where "(alone j)\<^sup>*\<^sup>* (Called, w) (Returned d2 err2, w2)"
      using alone_reaches [of j w] Some r by auto
    from alone_stops_once [OF run stop this stop] Some r show ?thesis by simp
  qed
qed

end
