(* ===== verification/Durable_Persist.thy ===== *)
theory Durable_Persist
  imports Durable_Safety
begin

section \<open>A replacement that reports no error survives a crash\<close>

text \<open>
  Why the directory syncs of the transaction are enough on Unix: the loop over the missing
  ancestors finds every directory entry the call creates, and after the syncs each of them,
  and the destination's own entry, is on stable storage.
\<close>

subsection \<open>What a cleaned path ends with\<close>

text \<open>The stack of a cleaned relative path: plain names on top of leading parent steps.\<close>

lemma clean_stack_shape:
  assumes "st = ps @ replicate n dotdot" and "\<forall>c \<in> set ps. plain_name c" and "slash \<notin> set c"
  shows "\<exists>ps' n'. clean_step False st c = ps' @ replicate n' dotdot \<and> (\<forall>c \<in> set ps'. plain_name c)"
proof -
  consider (skip) "c = [] \<or> c = dot" | (up) "c = dotdot" | (name) "plain_name c"
    using assms(3) by (auto simp: plain_name_def)
  then show ?thesis
  proof cases
    case skip
    then have "clean_step False st c = st" by (simp add: clean_step_def)
    with assms(1,2) show ?thesis by auto
  next
    case up
    show ?thesis
    proof (cases ps)
      case Nil
      then have "clean_step False st c = [] @ replicate (Suc n) dotdot"
        using assms(1) up by (cases n) (simp_all add: clean_step_def)
      then show ?thesis by (intro exI [of _ "[]"] exI [of _ "Suc n"]) simp
    next
      case (Cons t ts)
      then have "t \<noteq> dotdot" using assms(2) by (simp add: plain_name_def)
      then have "clean_step False st c = ts @ replicate n dotdot"
        using assms(1) up Cons by (simp add: clean_step_def)
      with assms(2) Cons show ?thesis by auto
    qed
  next
    case name
    then have "clean_step False st c = (c # ps) @ replicate n dotdot"
      using assms(1) by (simp add: clean_step_plain)
    with assms(2) name show ?thesis by (intro exI [of _ "c # ps"] exI [of _ n]) simp
  qed
qed

lemma clean_foldl_shape:
  assumes "\<forall>c \<in> set cs. slash \<notin> set c" and "\<forall>c \<in> set ps. plain_name c"
  shows "\<exists>ps' n'. foldl (clean_step False) (ps @ replicate n dotdot) cs = ps' @ replicate n' dotdot \<and>
    (\<forall>c \<in> set ps'. plain_name c)"
  using assms
proof (induction cs arbitrary: ps n)
  case Nil
  then show ?case by auto
next
  case (Cons c cs)
  then obtain ps' n' where "clean_step False (ps @ replicate n dotdot) c = ps' @ replicate n' dotdot"
    "\<forall>c \<in> set ps'. plain_name c"
    using clean_stack_shape [OF refl, of ps c n] by auto
  with Cons show ?case by simp
qed

lemma clean_elements_shape:
  "\<exists>n ps. clean_elements False (components p) = replicate n dotdot @ ps \<and> (\<forall>c \<in> set ps. plain_name c)"
proof -
  obtain ps n where "foldl (clean_step False) ([] @ replicate 0 dotdot) (components p) = ps @ replicate n dotdot"
    and "\<forall>c \<in> set ps. plain_name c"
    using clean_foldl_shape [of "components p" "[]" 0] split_on_free [of slash p] by auto
  then have "clean_elements False (components p) = replicate n dotdot @ rev ps"
    by (simp add: clean_elements_def)
  moreover have "\<forall>c \<in> set (rev ps). plain_name c" using \<open>\<forall>c \<in> set ps. plain_name c\<close> by simp
  ultimately show ?thesis by blast
qed

lemma takeWhile_name: "slash \<notin> set c \<Longrightarrow> takeWhile (\<lambda>c. c \<noteq> slash) (rev c @ x) = rev c @ takeWhile (\<lambda>c. c \<noteq> slash) x"
  by (rule takeWhile_append2) auto

lemma last_element_append: "slash \<notin> set c \<Longrightarrow> last_element (q @ slash # c) = c"
  by (simp add: last_element_def takeWhile_name)

lemma last_element_name: "slash \<notin> set c \<Longrightarrow> last_element c = c"
  using takeWhile_name [of c "[]"] unfolding last_element_def by (metis append_Nil2 rev_rev_ident takeWhile.simps(1))

lemma last_element_join:
  "cs \<noteq> [] \<Longrightarrow> slash \<notin> set (last cs) \<Longrightarrow> last_element (join_on slash cs) = last cs"
proof (induction cs rule: induct_list012)
  case (2 c)
  then show ?case by (simp add: last_element_name)
next
  case (3 c d cs)
  have tail: "last_element (join_on slash (d # cs)) = last (d # cs)" using 3 by simp
  obtain q where q: "join_on slash (d # cs) = last (d # cs) \<or>
      join_on slash (d # cs) = q @ slash # last (d # cs)"
    using dir_prefix_last_element [of "join_on slash (d # cs)"] dir_prefix_cases [of "join_on slash (d # cs)"]
      tail by (metis append.assoc append_Cons append_Nil)
  have "join_on slash (c # d # cs) = c @ slash # join_on slash (d # cs)" by simp
  with q have "\<exists>q. join_on slash (c # d # cs) = q @ slash # last (d # cs)"
    by (metis append.assoc append_Cons)
  then show ?case using last_element_append 3(4) by auto
qed simp

lemma foldl_up_prefix:
  "dotdot \<notin> set a \<Longrightarrow> \<exists>zs. a = zs @ foldl (clean_step True) a (replicate n dotdot)"
proof (induction n arbitrary: a)
  case (Suc n)
  show ?case
  proof (cases a)
    case Nil
    then have "clean_step True a dotdot = []" by (simp add: clean_step_def)
    with Suc.IH [of "[]"] Nil show ?thesis by simp
  next
    case (Cons x xs)
    then have "clean_step True a dotdot = xs" using Suc.prems by (auto simp: clean_step_def)
    moreover obtain zs where "xs = zs @ foldl (clean_step True) xs (replicate n dotdot)"
      using Suc.IH [of xs] Suc.prems Cons by auto
    ultimately have "a = (x # zs) @ foldl (clean_step True) a (replicate (Suc n) dotdot)"
      using Cons by simp
    then show ?thesis by blast
  qed
qed simp

text \<open>A cleaned path that does not name an ancestor of the working directory ends with a name.\<close>

lemma clean_last_plain:
  assumes "dotdot \<notin> set wd" and "\<not> prefix (resolve wd p) wd"
  shows "plain_name (last_element (path_clean p))"
proof (cases "path_is_abs p")
  case True
  let ?st = "clean_elements True (components p)"
  have plain: "\<forall>c \<in> set ?st. plain_name c"
    using clean_elements_stack [of True p] by (auto simp: clean_stack_def)
  have "resolve wd p = ?st" using True by (simp add: resolve_def clean_elements_def)
  then have ne: "?st \<noteq> []" using assms(2) by auto
  then have "plain_name (last ?st)" using plain by simp
  moreover have "slash \<notin> set (last ?st)" using plain ne by (auto simp: plain_name_def)
  moreover have "path_clean p = join_on slash ([] # ?st)"
    using True ne by (cases ?st) (simp_all add: path_clean_def)
  ultimately show ?thesis using last_element_join [of "[] # ?st"] ne by simp
next
  case False
  let ?st = "clean_elements False (components p)"
  obtain n ps where st: "?st = replicate n dotdot @ ps"
    and plain: "\<forall>c \<in> set ps. plain_name c" using clean_elements_shape by blast
  have free: "\<forall>c \<in> set ?st. slash \<notin> set c" 
  proof
    fix c assume "c \<in> set ?st"
    then have "c = dotdot \<or> c \<in> set ps" unfolding st by auto
    then show "slash \<notin> set c" using plain plain_name_def by (elim disjE) simp_all
  qed
  show ?thesis
  proof (cases "ps = []")
    case True
    have "resolve wd (path_clean p) = rev (foldl (clean_step True) (rev wd) ?st)"
    proof (cases "?st = []")
      case True
      then have "path_clean p = dot" using False by (simp add: path_clean_def)
      then show ?thesis using True
        by (simp add: resolve_def split_on_no_sep path_is_abs_def) (simp add: clean_step_def)
    next
      case ne: False
      have "\<not> path_is_abs (path_clean p)" using False by simp
      moreover have "components (path_clean p) = ?st"
        using False ne free by (simp add: path_clean_def split_join)
      ultimately show ?thesis by (simp add: resolve_def)
    qed
    moreover obtain zs where "rev wd = zs @ foldl (clean_step True) (rev wd) ?st"
      using foldl_up_prefix [of "rev wd" n] assms(1) st True by auto
    then have "wd = rev (foldl (clean_step True) (rev wd) ?st) @ rev zs"
      by (metis rev_append rev_rev_ident)
    ultimately have "prefix (resolve wd p) wd" by (metis prefixI resolve_clean)
    with assms(2) show ?thesis by blast
  next
    case ne: False
    then have "path_clean p = join_on slash ?st" using False st by (simp add: path_clean_def)
    moreover have "last ?st = last ps" "?st \<noteq> []" using st ne by simp_all
    moreover have "plain_name (last ps)" using plain ne by simp
    ultimately show ?thesis using last_element_join [of ?st] by (simp add: plain_name_def)
  qed
qed

subsection \<open>The loop over the missing ancestors\<close>

lemma walk_ok: "walk k pre cs = StatOk e \<Longrightarrow> entries k (pre @ cs) = Some e"
  by (induction k pre cs rule: walk.induct) (auto split: option.splits entry.splits)

lemma wf_prefix_dir:
  assumes "wf_kernel k" and "entries k p \<noteq> None" and "prefix q p"
  shows "entries k q \<noteq> None"
proof -
  obtain zs where "p = q @ zs" using assms(3) by (auto simp: prefix_def)
  with assms(2) show ?thesis
  proof (induction zs arbitrary: p rule: rev_induct)
    case (snoc z zs)
    have "entries k ((q @ zs) @ [z]) \<noteq> None" using snoc.prems by simp
    then obtain m where "entries k (q @ zs) = Some (DirEnt m)"
      using assms(1) unfolding wf_kernel_def by blast
    then have "entries k (q @ zs) \<noteq> None" by simp
    with snoc.IH show ?case by blast
  qed simp
qed

lemma missing_dirs_keeps: "missing_dirs stat p acc = Inr ms \<Longrightarrow> set acc \<subseteq> set ms"
proof (induction stat p acc rule: missing_dirs.induct)
  case (1 stat p acc)
  then show ?case
    by (subst (asm) (2) missing_dirs.simps) (auto split: stat_result.splits if_splits)
qed

lemma missing_dirs_covers:
  assumes "missing_dirs (os_stat env k) (path_clean p) acc = Inr ms"
    and "wf_kernel k" and "entries k (cwd env) \<noteq> None" and "dotdot \<notin> set (cwd env)"
    and "prefix q (resolve (cwd env) p)" and "entries k q = None"
  shows "\<exists>d \<in> set ms. resolve (cwd env) d = q \<and> plain_name (last_element d)"
  using assms(1,5)
proof (induction "os_stat env k" "path_clean p" acc arbitrary: p rule: missing_dirs.induct)
  case (1 acc)
  let ?c = "path_clean p"
  have none: "entries k (resolve (cwd env) p) = None"
    using wf_prefix_dir [OF assms(2) _ 1(3)] assms(6) by blast
  then have "\<not> prefix (resolve (cwd env) p) (cwd env)"
    using wf_prefix_dir [OF assms(2,3)] by blast
  then have plain: "plain_name (last_element ?c)" by (rule clean_last_plain [OF assms(4)])
  from resolve_dir_last [OF this] have split:
    "resolve (cwd env) p = resolve (cwd env) (path_dir ?c) @ [last_element ?c]"
    by (simp add: resolve_clean)
  have up: "path_dir ?c \<noteq> ?c" 
  proof
    assume e: "path_dir ?c = ?c"
    from split show False unfolding e resolve_clean by simp
  qed
  have "os_stat env k ?c \<noteq> StatOk e" for e
    using none walk_ok [of k "[]"] by (auto simp: os_stat_def resolve_clean split: option.splits if_splits)
  then have st: "os_stat env k ?c = StatNotExist"
    using 1(2) by (subst (asm) missing_dirs.simps) (auto split: stat_result.splits)
  have rec: "missing_dirs (os_stat env k) (path_dir ?c) (acc @ [?c]) = Inr ms"
    using 1(2) st up by (subst (asm) missing_dirs.simps) simp
  show ?case
  proof (cases "q = resolve (cwd env) p")
    case True
    then show ?thesis using missing_dirs_keeps [OF rec] plain resolve_clean by auto
  next
    case False
    then have "prefix q (resolve (cwd env) (path_dir ?c))" using 1(3) split by simp
    then have "prefix q (resolve (cwd env) (dir_prefix ?c))" by (simp add: path_dir_def resolve_clean)
    then show ?thesis using 1(1) [OF st up _ rec [unfolded path_dir_def]] by (simp add: path_dir_def)
  qed
qed

subsection \<open>Which entries the syncs settle\<close>

definition settled :: "file_world \<Rightarrow> kpath \<Rightarrow> bool" where
  "settled w q \<longleftrightarrow> stable (kern w) q = entries (kern w) q"

text \<open>A step that changes no entry and unsettles none.\<close>

definition settles :: "file_world \<Rightarrow> file_world \<Rightarrow> bool" where
  "settles w w' \<longleftrightarrow> entries (kern w') = entries (kern w) \<and> (\<forall>q. settled w q \<longrightarrow> settled w' q)"

lemma settles_trans: "settles a b \<Longrightarrow> settles b c \<Longrightarrow> settles a c"
  by (simp add: settles_def)

lemma settles_refl [simp]: "settles w w"
  by (simp add: settles_def)

lemma settlesD: "settles w w' \<Longrightarrow> settled w q \<Longrightarrow> settled w' q"
  by (simp add: settles_def)

lemma sync_directory_settles:
  assumes "sync_directory env p w = (None, w')"
  shows "settles w w'" and "settled w' (resolve (cwd env) p @ [c])"
  using assms
  by (auto simp: sync_directory_def settles_def settled_def sync_children_def split: option.splits prod.splits)

lemma parents_settle:
  assumes "sync_created_directory_parents (sync_directory env) already created w = (None, w')"
    and "\<forall>p \<in> set already. \<forall>c. settled w (resolve (cwd env) p @ [c])"
  shows "settles w w' \<and> (\<forall>d \<in> set created. \<forall>c. settled w' (resolve (cwd env) (path_dir d) @ [c]))"
  using assms
proof (induction created arbitrary: already w)
  case (Cons d created)
  show ?case
  proof (cases "path_dir d \<in> set already")
    case True
    then have "sync_created_directory_parents (sync_directory env) already created w = (None, w')"
      using Cons.prems(1) by simp
    from Cons.IH [OF this Cons.prems(2)] show ?thesis
      using Cons.prems(2) True by (auto simp: settles_def)
  next
    case False
    then obtain w1 where s: "sync_directory env (path_dir d) w = (None, w1)"
      and r: "sync_created_directory_parents (sync_directory env) (path_dir d # already) created w1 = (None, w')"
      using Cons.prems(1) by (auto simp: Let_def split: prod.splits option.splits)
    note st = sync_directory_settles [OF s]
    have "\<forall>p \<in> set (path_dir d # already). \<forall>c. settled w1 (resolve (cwd env) p @ [c])"
      using st Cons.prems(2) by (auto dest: settlesD)
    from Cons.IH [OF r this] show ?thesis
      using st settles_trans [OF st(1)] by (auto dest: settlesD)
  qed
qed simp

lemma commit_settles:
  assumes "commit_locked env (sync_directory env) tx w = (None, w')"
    and "replace_file_spec env"
  shows "\<exists>i. entries (kern w) (resolve (cwd env) (source tx)) = Some (FileEnt i) \<and>
    settles (emit (renamed env (source tx) (destination tx) i) w) w' \<and>
    (\<forall>d \<in> set (created_directories tx). \<forall>c. settled w' (resolve (cwd env) (path_dir d) @ [c])) \<and>
    (\<forall>c. settled w' (resolve (cwd env) (destination_dir tx) @ [c]))"
proof -
  obtain w1 w2 w3 where s1: "replace_atomically env (source tx) (destination tx) w = (None, w1)"
    and s2: "sync_directory env (destination_dir tx) w1 = (None, w2)"
    and s3: "sync_source_directory env (sync_directory env) tx w2 = (None, w3)"
    and s4: "sync_created_directory_parents (sync_directory env) [] (created_directories tx) w3 = (None, w')"
    using assms(1) by (auto simp: commit_locked_def split: prod.splits option.splits)
  obtain k where rf: "replace_file env (source tx) (destination tx) (kern w) = (None, k)"
    and w1: "w1 = emit (\<lambda>_. k) w"
    using s1 by (auto simp: replace_atomically_def split: prod.splits option.splits)
  then obtain i where i: "entries (kern w) (resolve (cwd env) (source tx)) = Some (FileEnt i)"
    "k = renamed env (source tx) (destination tx) i (kern w)"
    using assms(2) unfolding replace_file_spec_def renamed_def by fastforce
  have w1: "w1 = emit (renamed env (source tx) (destination tx) i) w"
    by (simp add: w1 i(2) emit_def)
  note st2 = sync_directory_settles [OF s2]
  have st3: "settles w2 w3"
    using s3 sync_directory_settles(1) by (auto simp: sync_source_directory_def split: if_splits)
  have st4: "settles w3 w'" "\<forall>d \<in> set (created_directories tx). \<forall>c. settled w' (resolve (cwd env) (path_dir d) @ [c])"
    using parents_settle [OF s4] by simp_all
  have "settles w1 w'" using settles_trans [OF settles_trans [OF st2(1) st3] st4(1)] .
  moreover have "settled w' (resolve (cwd env) (destination_dir tx) @ [c])" for c
    using settlesD [OF st4(1)] settlesD [OF st3] st2(2) by blast
  ultimately show ?thesis using i(1) st4(2) w1 by blast
qed

text \<open>The successful run of the part between the temporary file and the end.\<close>

lemma fill_and_commit_succeeds:
  assumes "fill_and_commit env sync path created tmp i rd mode w = Some (None, t, w')"
  shows "t = None" and "\<exists>w4 r w5. fills i w w4 \<and> commit_locked env sync \<lparr>source = tmp, destination = path,
      source_directory = path_dir path, destination_dir = path_dir path,
      created_directories = created\<rparr> (w4\<lparr>lockreg := r\<rparr>) = (None, w5) \<and> kern w' = kern w5"
proof -
  obtain w1 where s1: "os_chmod env i mode w = (None, w1)"
    using assms by (auto simp: fill_and_commit_def split: prod.splits option.splits)
  then obtain w2 where s2: "io_copy env i (chunks rd) (read_err rd) 0 w1 = (None, w2)"
    using assms by (auto simp: fill_and_commit_def split: prod.splits option.splits)
  then obtain w3 where s3: "os_fsync env i w2 = (None, w3)"
    using assms s1 by (auto simp: fill_and_commit_def split: prod.splits option.splits)
  then obtain w4 where s4: "os_close env i w3 = (None, w4)"
    using assms s1 s2 by (auto simp: fill_and_commit_def split: prod.splits option.splits)
  show "t = None" using assms s1 s2 s3 s4 by (auto simp: fill_and_commit_def split: option.splits)
  have c: "commit env sync \<lparr>source = tmp, destination = path, source_directory = path_dir path,
      destination_dir = path_dir path, created_directories = created\<rparr> w4 = Some (None, w')"
    using assms s1 s2 s3 s4 by (auto simp: fill_and_commit_def split: option.splits)
  have "fills i w w1" "fills i w1 w2" "fills i w2 w3" "fills i w3 w4"
    using os_chmod_fills [OF s1] io_copy_fills [OF s2] os_fsync_fills [OF s3] os_close_fills [OF s4]
    by simp_all
  then have f: "fills i w w4" by (meson fills_trans)
  from c obtain r w5 where "commit_locked env sync \<lparr>source = tmp, destination = path,
      source_directory = path_dir path, destination_dir = path_dir path,
      created_directories = created\<rparr> (w4\<lparr>lockreg := r\<rparr>) = (None, w5) \<and> kern w' = kern w5"
    by (auto simp: commit_def Let_def split: option.splits prod.splits)
  with f show "\<exists>w4 r w5. fills i w w4 \<and> commit_locked env sync \<lparr>source = tmp, destination = path,
      source_directory = path_dir path, destination_dir = path_dir path,
      created_directories = created\<rparr> (w4\<lparr>lockreg := r\<rparr>) = (None, w5) \<and> kern w' = kern w5"
    by blast
qed

lemma write_reader_settles:
  assumes wr: "WriteReader env path (Some rd) mode dmode w = Some (None, w')"
    and spec: "replace_file_spec env" and proper: "proper_destination env path"
    and wf: "wf_kernel (kern w)"
    and wd: "entries (kern w) (cwd env) \<noteq> None" "dotdot \<notin> set (cwd env)"
    and old: "\<And>q. prefix q (resolve (cwd env) (path_dir path)) \<Longrightarrow> entries (kern w) q \<noteq> None \<Longrightarrow> settled w q"
    and q: "prefix q (resolve (cwd env) path)"
  shows "settled w' q"
proof -
  let ?K = "resolve (cwd env) path" and ?D = "resolve (cwd env) (path_dir path)"
  obtain created w1 tmp i w2 t w3 where
    s1: "create_parent_directories env (path_dir path) dmode w = (Inr created, w1)" and
    s2: "create_temp env (path_dir path) w1 = (Inr (tmp, i), w2)" and
    s3: "fill_and_commit env (sync_directory env) path created tmp i rd mode w2 = Some (None, t, w3)" and
    w': "w' = cleanup env tmp None t w3"
    using wr by (auto simp: WriteReader_def write_reader_def split: option.splits sum.splits prod.splits)
  have plain: "plain_name (last_element path)" using proper by (simp add: proper_destination_def)
  then have K: "?K = ?D @ [last_element path]" by (rule resolve_dir_last)
  have g1: "grows_dirs ?D (kern w) (kern w1)" using create_parent_directories_frame [OF s1] by simp
  note tb = temp_beside [OF proper g1 s2]
  obtain w4 r w5 where f: "fills i w2 w4" and kern5: "kern w3 = kern w5" and
    c: "commit_locked env (sync_directory env) \<lparr>source = tmp, destination = path,
      source_directory = path_dir path, destination_dir = path_dir path,
      created_directories = created\<rparr> (w4\<lparr>lockreg := r\<rparr>) = (None, w5)"
    using fill_and_commit_succeeds(2) [OF s3] by blast
  from commit_settles [OF c spec] obtain j where
    st: "settles (emit (renamed env tmp path j) (w4\<lparr>lockreg := r\<rparr>)) w5"
    and par: "\<forall>d \<in> set created. \<forall>c. settled w5 (resolve (cwd env) (path_dir d) @ [c])"
    and dst: "\<forall>c. settled w5 (?D @ [c])" by auto
  have w5: "settled w' q = settled w5 q" for q
    using fill_and_commit_succeeds(1) [OF s3] kern5 by (simp add: w' cleanup_def settled_def)
  show ?thesis
  proof (cases "q = ?K")
    case True
    then show ?thesis using dst w5 K by simp
  next
    case False
    with q K have qD: "prefix q ?D" by simp
    show ?thesis
    proof (cases "entries (kern w) q")
      case None
      have "missing_dirs (os_stat env (kern w)) (path_clean (path_dir path)) [] = Inr created"
        using s1 by (auto simp: create_parent_directories_def split: sum.splits option.splits prod.splits)
      from missing_dirs_covers [OF this wf wd qD None] obtain d where
        d: "d \<in> set created" "resolve (cwd env) d = q" "plain_name (last_element d)" by blast
      show ?thesis using par d(1) w5 resolve_dir_last [OF d(3), of "cwd env"] d(2) by auto
    next
      case (Some e)
      have qT: "q \<noteq> resolve (cwd env) tmp" using tb(5) Some by auto
      have "settled w q" using old qD Some by simp
      moreover have "stable (kern w1) = stable (kern w)" using g1 by (simp add: grows_dirs_def)
      moreover have "entries (kern w1) q = entries (kern w) q"
        using g1 Some unfolding grows_dirs_def by (metis option.distinct(1))
      ultimately have "settled w1 q" by (simp add: settled_def)
      moreover have "kern w2 = add_file env (resolve (cwd env) tmp) i (kern w1)"
        using create_temp_succeeds [OF s2] by auto
      ultimately have "settled w2 q" using qT by (simp add: settled_def add_file_def)
      then have "settled w4 q" using f by (simp add: fills_def only_inode_def settled_def)
      then have "settled (emit (renamed env tmp path j) (w4\<lparr>lockreg := r\<rparr>)) q"
        using qT False by (simp add: settled_def renamed_def)
      then show ?thesis using settlesD [OF st] w5 by simp
    qed
  qed
qed

subsection \<open>Calls that return\<close>

lemma os_lockreg:
  "os_chmod env i mode w = (e, w') \<Longrightarrow> lockreg w' = lockreg w"
  "os_fsync env i w = (e, w') \<Longrightarrow> lockreg w' = lockreg w"
  "os_close env i w = (e, w') \<Longrightarrow> lockreg w' = lockreg w"
  "os_remove env p w = (e, w') \<Longrightarrow> lockreg w' = lockreg w"
  "sync_directory env p w = (e, w') \<Longrightarrow> lockreg w' = lockreg w"
  by (auto simp: os_chmod_def os_fsync_def os_close_def os_remove_def sync_directory_def
      split: option.splits entry.splits prod.splits)

lemma create_temp_lockreg: "create_temp env d w = (r, w') \<Longrightarrow> lockreg w' = lockreg w"
  by (auto simp: create_temp_def Let_def split: option.splits)

lemma io_copy_lockreg: "io_copy env i cs err n w = (e, w') \<Longrightarrow> lockreg w' = lockreg w"
  by (induction env i cs err n w rule: io_copy.induct) (auto split: option.splits)

lemma cleanup_lockreg: "lockreg (cleanup env tmp err t w) = lockreg w"
  by (auto simp: cleanup_def os_remove_def os_close_def Let_def split: option.splits entry.splits)

lemma parents_lockreg:
  "sync_created_directory_parents (sync_directory env) already created w = (e, w') \<Longrightarrow> lockreg w' = lockreg w"
proof (induction created arbitrary: already w)
  case (Cons d created)
  show ?case
  proof (cases "path_dir d \<in> set already")
    case False
    obtain e1 w1 where s: "sync_directory env (path_dir d) w = (e1, w1)" by fastforce
    then show ?thesis using Cons False os_lockreg(5) [OF s] by (cases e1) auto
  qed (use Cons in simp)
qed simp

lemma commit_locked_lockreg:
  assumes "commit_locked env (sync_directory env) tx w = (e, w')"
  shows "lockreg w' = lockreg w"
proof -
  obtain e1 w1 where s1: "replace_atomically env (source tx) (destination tx) w = (e1, w1)" by fastforce
  obtain e2 w2 where s2: "sync_directory env (destination_dir tx) w1 = (e2, w2)" by fastforce
  obtain e3 w3 where s3: "sync_source_directory env (sync_directory env) tx w2 = (e3, w3)" by fastforce
  obtain e4 w4 where
    s4: "sync_created_directory_parents (sync_directory env) [] (created_directories tx) w3 = (e4, w4)" by fastforce
  have "lockreg w1 = lockreg w"
    using s1 by (auto simp: replace_atomically_def split: prod.splits option.splits)
  moreover have "lockreg w2 = lockreg w1" by (rule os_lockreg(5) [OF s2])
  moreover have "lockreg w3 = lockreg w2"
    using s3 os_lockreg(5) [of env "source_directory tx" w2] by (auto simp: sync_source_directory_def split: if_splits)
  moreover have "lockreg w4 = lockreg w3" by (rule parents_lockreg [OF s4])
  moreover have "w' = w1 \<or> w' = w2 \<or> w' = w3 \<or> w' = w4"
    using assms s1 s2 s3 s4 by (auto simp: commit_locked_def split: option.splits)
  ultimately show ?thesis by auto
qed

lemma commit_returns:
  assumes "locks (lockreg w) (lock_key (getwd env) (destination tx)) = None"
  shows "\<exists>err w'. commit env (sync_directory env) tx w = Some (err, w') \<and>
    locks (lockreg w') = locks (lockreg w)"
proof -
  let ?key = "lock_key (getwd env) (destination tx)"
  obtain p r where l: "lock_destination ?key (lockreg w) = Some (p, r)"
    "locks (release_destination ?key p r) = locks (lockreg w)"
    using lock_destination_uncontended [OF assms] by blast
  obtain e w2 where c: "commit_locked env (sync_directory env) tx (w\<lparr>lockreg := r\<rparr>) = (e, w2)" by fastforce
  then have "lockreg w2 = r" using commit_locked_lockreg [OF c] by simp
  then show ?thesis using l c by (simp add: commit_def Let_def)
qed

lemma fill_and_commit_returns:
  assumes "locks (lockreg w) (lock_key (getwd env) path) = None"
  shows "\<exists>err t w'. fill_and_commit env (sync_directory env) path created tmp i rd mode w = Some (err, t, w') \<and>
    locks (lockreg w') = locks (lockreg w)"
proof -
  obtain e1 w1 where s1: "os_chmod env i mode w = (e1, w1)" by fastforce
  obtain e2 w2 where s2: "io_copy env i (chunks rd) (read_err rd) 0 w1 = (e2, w2)" by fastforce
  obtain e3 w3 where s3: "os_fsync env i w2 = (e3, w3)" by fastforce
  obtain e4 w4 where s4: "os_close env i w3 = (e4, w4)" by fastforce
  let ?tx = "\<lparr>source = tmp, destination = path, source_directory = path_dir path,
    destination_dir = path_dir path, created_directories = created\<rparr>"
  have same: "lockreg w1 = lockreg w" "lockreg w2 = lockreg w" "lockreg w3 = lockreg w" "lockreg w4 = lockreg w"
    using os_lockreg(1) [OF s1] io_copy_lockreg [OF s2] os_lockreg(2) [OF s3] os_lockreg(3) [OF s4]
    by simp_all
  then have "\<exists>err w'. commit env (sync_directory env) ?tx w4 = Some (err, w') \<and>
      locks (lockreg w') = locks (lockreg w4)"
    using assms by (intro commit_returns) simp
  then show ?thesis using s1 s2 s3 s4 same
    by (cases e1; cases e2; cases e3; cases e4) (auto simp: fill_and_commit_def)
qed

lemma write_reader_returns_aux:
  assumes "locks (lockreg w) (lock_key (getwd env) path) = None"
  shows "\<exists>err w'. WriteReader env path reader mode dmode w = Some (err, w') \<and>
    locks (lockreg w') = locks (lockreg w)"
proof -
  obtain r w1 where s1: "create_parent_directories env (path_dir path) dmode w = (r, w1)" by fastforce
  obtain t w2 where s2: "create_temp env (path_dir path) w1 = (t, w2)" by fastforce
  have same: "lockreg w1 = lockreg w" "lockreg w2 = lockreg w"
    using create_parent_directories_frame [OF s1] create_temp_lockreg [OF s2] by (simp_all add: same_rest_def)
  then have "locks (lockreg w2) (lock_key (getwd env) path) = None" using assms by simp
  then have fc: "\<exists>err t w'. fill_and_commit env (sync_directory env) path created tmp i rd mode w2 =
      Some (err, t, w') \<and> locks (lockreg w') = locks (lockreg w)" for created tmp i rd
    using fill_and_commit_returns [of w2 env path created tmp i rd mode] same by simp
  show ?thesis
  proof (cases "validate path mode dmode = None \<and> (\<exists>rd c tmp i. reader = Some rd \<and> r = Inr c \<and> t = Inr (tmp, i))")
    case True
    then obtain rd c tmp i where *: "validate path mode dmode = None" "reader = Some rd" "r = Inr c" "t = Inr (tmp, i)"
      by blast
    from fc [of c tmp i rd] show ?thesis
      using * s1 s2 by (auto simp: WriteReader_def write_reader_def cleanup_lockreg)
  next
    case False
    then show ?thesis using s1 s2 same
      by (auto simp: WriteReader_def write_reader_def split: option.splits sum.splits)
  qed
qed

subsection \<open>Replacing by an existing file\<close>

text \<open>The source was moved to the destination, flushed, with what it held before the call.\<close>

definition moved :: "kernel \<Rightarrow> kpath \<Rightarrow> kpath \<Rightarrow> kernel \<Rightarrow> bool" where
  "moved k0 S K k \<longleftrightarrow> (\<exists>i. entries k0 S = Some (FileEnt i) \<and> entries k K = Some (FileEnt i) \<and>
     (S \<noteq> K \<longrightarrow> entries k S = None) \<and>
     inodes k i = map_option (\<lambda>n. n\<lparr>flushed := True\<rparr>) (inodes k0 i))"

lemma moved_sync_closed [simp]: "sync_closed (moved k0 S K)"
  by (simp add: sync_closed_def moved_def)

lemma os_open_file:
  "os_open env p w = (Inr i, w') \<Longrightarrow> entries (kern w) (resolve (cwd env) p) = Some (FileEnt i) \<and>
     kern w' = kern w \<and> fds w' = insert i (fds w)"
  by (auto simp: os_open_def split: option.splits entry.splits)

lemma os_open_fails: "os_open env p w = (Inl e, w') \<Longrightarrow> w' = w"
  by (auto simp: os_open_def split: option.splits entry.splits)

lemma grows_file:
  "grows_dirs D k k' \<Longrightarrow> entries k' q = Some (FileEnt i) \<Longrightarrow> entries k q = Some (FileEnt i)"
  unfolding grows_dirs_def by (metis entry.distinct(1) option.inject)

lemma grows_keeps:
  "grows_dirs D k k' \<Longrightarrow> \<not> prefix q D \<or> entries k q \<noteq> None \<Longrightarrow> entries k' q = entries k q"
  unfolding grows_dirs_def by metis

lemma os_fsync_kern:
  "os_fsync env i w = (None, w') \<Longrightarrow> kern w' = upd_inode i (\<lambda>n. n\<lparr>flushed := True\<rparr>) (kern w)"
  by (auto simp: os_fsync_def split: option.splits)

context dir_sync
begin

lemma replace_outcome:
  assumes rp: "replace_with env sync src dst dmode w = Some (err, w')"
    and spec: "replace_file_spec env" and plain: "plain_name (last_element dst)"
  shows "if err = None \<or> is_committed err
    then moved (kern w) (resolve (cwd env) src) (resolve (cwd env) dst) (kern w')
    else entries (kern w') (resolve (cwd env) dst) = entries (kern w) (resolve (cwd env) dst) \<and>
      (entries (kern w) (resolve (cwd env) src) \<noteq> None \<longrightarrow>
       entries (kern w') (resolve (cwd env) src) = entries (kern w) (resolve (cwd env) src))"
    (is "if _ then _ else ?kept w'")
proof -
  let ?K = "resolve (cwd env) dst" and ?S = "resolve (cwd env) src"
  obtain r w1 where s1: "create_parent_directories env (path_dir dst) dmode w = (r, w1)" by fastforce
  obtain opn w2 where s2: "os_open env src w1 = (opn, w2)" by fastforce
  have nK: "\<not> prefix ?K (resolve (cwd env) (path_dir dst))"
    using resolve_dir_last [OF plain, of "cwd env"] by (auto dest: prefix_length_le)
  have g: "grows_dirs (resolve (cwd env) (path_dir dst)) (kern w) (kern w1)"
    using create_parent_directories_frame [OF s1] by simp
  have kept: "?kept v" if "entries (kern v) = entries (kern w1)" for v
    using that grows_keeps [OF g, of ?K] grows_keeps [OF g, of ?S] nK by simp
  have vp: "\<not> is_committed (Some e)" if "validate_path_and_directory_mode dst dmode = Some e" for e
    using that by (auto simp: validate_path_and_directory_mode_def split: if_splits)
  show ?thesis
  proof (cases "src = [] \<or> validate_path_and_directory_mode dst dmode \<noteq> None \<or> (\<exists>e. r = Inl e) \<or> (\<exists>e. opn = Inl e)")
    case True
    have "err \<noteq> None \<and> \<not> is_committed err \<and> (w' = w \<or> w' = w1)"
    proof (cases "src = []")
      case True
      with rp show ?thesis by (auto simp: replace_with_def)
    next
      case src: False
      show ?thesis
      proof (cases "validate_path_and_directory_mode dst dmode")
        case (Some e)
        then have "err = Some e" "w' = w" using rp src by (simp_all add: replace_with_def)
        then show ?thesis using vp [OF Some] by simp
      next
        case None
        then show ?thesis using rp src s1 s2 True os_open_fails [of env src w1 _ w2]
          by (cases r; cases opn) (auto simp: replace_with_def)
      qed
    qed
    then show ?thesis using kept by auto
  next
    case False
    then obtain created i where ok: "src \<noteq> []" "validate_path_and_directory_mode dst dmode = None"
      "r = Inr created" "opn = Inr i"
      by (cases r; cases opn) auto
    from os_open_file [OF s2 [unfolded ok]] have
      S: "entries (kern w1) ?S = Some (FileEnt i)" and k2: "kern w2 = kern w1" by simp_all
    have S0: "entries (kern w) ?S = Some (FileEnt i)" by (rule grows_file [OF g S])
    obtain e3 w3 where s3: "os_fsync env i w2 = (e3, w3)" by fastforce
    obtain e4 w4 where s4: "os_close env i w3 = (e4, w4)" by fastforce
    have en: "entries (kern w3) = entries (kern w1)" "kern w4 = kern w3"
      using os_fsync_fills [OF s3] os_close_fills [OF s4] k2 by (simp_all add: fills_def only_inode_def)
    show ?thesis
    proof (cases "e3 = None \<and> e4 = None")
      case False
      then have "err \<noteq> None \<and> \<not> is_committed err \<and> entries (kern w') = entries (kern w1)"
        using rp ok s1 s2 s3 s4 en by (auto simp: replace_with_def split: option.splits)
      then show ?thesis using kept [of w'] by auto
    next
      case True
      let ?tx = "\<lparr>source = src, destination = dst, source_directory = path_dir src,
        destination_dir = path_dir dst, created_directories = created\<rparr>"
      have c: "commit env sync ?tx w4 = Some (err, w')"
        using rp ok s1 s2 s3 s4 True by (simp add: replace_with_def)
      from commit_cases [OF c spec] obtain w5 where w5: "kern w5 = kern w'" and
        cs: "(err \<noteq> None \<and> \<not> is_committed err \<and> w5 = emit (\<lambda>k. k) w4) \<or>
         ((err = None \<or> is_committed err) \<and> (\<exists>j. entries (kern w4) ?S = Some (FileEnt j) \<and>
            synced (emit (renamed env src dst j) w4) w5))" by auto
      from cs show ?thesis
      proof (rule disjE)
        assume a: "err \<noteq> None \<and> \<not> is_committed err \<and> w5 = emit (\<lambda>k. k) w4"
        then have "entries (kern w') = entries (kern w1)" using w5 [symmetric] en by simp
        then show ?thesis using a kept [of w'] by auto
      next
        assume a: "(err = None \<or> is_committed err) \<and> (\<exists>j. entries (kern w4) ?S = Some (FileEnt j) \<and>
            synced (emit (renamed env src dst j) w4) w5)"
        then have sy: "synced (emit (renamed env src dst i) w4) w5" using S en by auto
        have "inodes (kern w4) i = map_option (\<lambda>n. n\<lparr>flushed := True\<rparr>) (inodes (kern w) i)"
          using os_fsync_kern [of env i w2 w3] s3 True en k2 g by (simp add: upd_inode_def grows_dirs_def)
        then have "moved (kern w) ?S ?K (kern (emit (renamed env src dst i) w4))"
          using S0 en by (simp add: moved_def renamed_def)
        then have "moved (kern w) ?S ?K (kern w5)"
          by (rule syncedD(2) [OF sy moved_sync_closed])
        then show ?thesis using a w5 by simp
      qed
    qed
  qed
qed

end

end
