(* ===== verification/Durable_Contract.thy ===== *)
theory Durable_Contract
  imports Durable_Persist
begin

section \<open>The contract of package durablefile\<close>

text \<open>
  The properties of \<open>Write\<close>, \<open>WriteReader\<close> and \<open>Replace\<close> a caller relies on. They hold for every
  environment: whatever system call fails, and with whatever error.
\<close>

subsection \<open>A concrete environment for the witnesses\<close>

definition demo_replace :: "string \<Rightarrow> string \<Rightarrow> kernel \<Rightarrow> gerror option \<times> kernel" where
  "demo_replace src dst k =
     (case entries k (resolve [] src) of
        Some (FileEnt i) \<Rightarrow>
          (case entries k (resolve [] dst) of
             Some (DirEnt _) \<Rightarrow> (Some EISDIR, k)
           | _ \<Rightarrow> (None, k\<lparr>entries := (entries k)(resolve [] src := None, resolve [] dst \<mapsto> FileEnt i)\<rparr>))
      | _ \<Rightarrow> (Some ENOENT, k))"

definition demo_env :: env where
  "demo_env = \<lparr>cwd = [], getwd = Inr ''/'', umask = 18, suffixes = [7],
     stat_fault = (\<lambda>_. None), mkdir_fault = (\<lambda>_. None), temp_fault = None, open_fault = None,
     chmod_fault = None, write_fault = (\<lambda>_. None), fsync_fault = None, close_fault = None,
     remove_fault = None, dir_open_fault = (\<lambda>_. None), dir_sync_fault = (\<lambda>_. None),
     dir_close_fault = (\<lambda>_. None), replace_file = demo_replace\<rparr>"

lemma demo_spec: "replace_file_spec demo_env"
  by (auto simp: replace_file_spec_def demo_env_def demo_replace_def
      split: option.splits entry.splits)

lemma replace_file_spec_cong:
  "replace_file_spec e1 \<Longrightarrow> cwd e2 = cwd e1 \<Longrightarrow> replace_file e2 = replace_file e1 \<Longrightarrow> replace_file_spec e2"
  by (simp add: replace_file_spec_def cong: option.case_cong)

text \<open>The same, with a directory that cannot be synced, and with a disk that is full.\<close>

definition demo_env_unsynced :: env where
  "demo_env_unsynced = demo_env\<lparr>dir_sync_fault := (\<lambda>_. Some (External ''EIO''))\<rparr>"

definition demo_env_full :: env where
  "demo_env_full = demo_env\<lparr>write_fault := (\<lambda>n. if n = 1 then Some (1, External ''ENOSPC'') else None)\<rparr>"

lemma demo_spec_unsynced: "replace_file_spec demo_env_unsynced"
  by (rule replace_file_spec_cong [OF demo_spec]) (simp_all add: demo_env_unsynced_def)

lemma demo_spec_full: "replace_file_spec demo_env_full"
  by (rule replace_file_spec_cong [OF demo_spec]) (simp_all add: demo_env_full_def)

text \<open>An empty file system but for the file \<open>/f\<close>, with content and inode 0.\<close>

definition demo_kernel :: kernel where
  "demo_kernel = \<lparr>entries = [[] \<mapsto> DirEnt 493, [''f''] \<mapsto> FileEnt 0],
     stable = [[] \<mapsto> DirEnt 493, [''f''] \<mapsto> FileEnt 0],
     inodes = [0 \<mapsto> \<lparr>content = ''old'', perm = 420, flushed = True\<rparr>], next_inode = 1\<rparr>"

definition demo_world :: file_world where
  "demo_world = \<lparr>kern = demo_kernel, seen = [], fds = {}, lockreg = empty_registry\<rparr>"

definition demo_reader :: reader where
  "demo_reader = \<lparr>chunks = [''ne'', ''w''], read_err = None\<rparr>"

definition demo_write :: "env \<Rightarrow> gerror option \<times> file_world" where
  "demo_write env = the (WriteReader env ''/f'' (Some demo_reader) 384 448 demo_world)"

lemma demo_paths:
  "proper_destination demo_env ''/f''" "resolve [] ''/f'' = [''f'']"
  "validate ''/f'' 384 448 = None" "path_dir ''/f'' = ''/''" "path_clean ''/'' = ''/''"
  "resolve [] ''/'' = []" "temp_path ''/'' 7 = ''/.durable-7.tmp''"
  "resolve [] ''/.durable-7.tmp'' = [''.durable-7.tmp'']"
  "lock_key (Inr ''/'') ''/f'' = ''/f''" "same_directory demo_env ''/'' ''/''"
  by code_simp+

lemmas demo_defs = demo_env_def demo_env_unsynced_def demo_env_full_def demo_world_def demo_kernel_def
  demo_reader_def

lemmas write_eval = WriteReader_def write_reader_def create_parent_directories_def missing_dirs.simps
  os_stat_def create_temp_def fill_and_commit_def os_chmod_def os_fsync_def os_close_def os_remove_def
  upd_inode_def append_bytes_def add_file_def add_dir_def commit_def commit_locked_def
  replace_atomically_def demo_replace_def sync_directory_def sync_children_def errors_join_def
  sync_source_directory_def cleanup_def lock_destination_def release_destination_def
  lock_enter_def lock_mu_def unlock_mu_def lock_exit_def empty_registry_def Let_def committed_def

lemma demo_runs:
  "map_option fst (WriteReader demo_env ''/f'' (Some demo_reader) 384 448 demo_world) = Some None"
  "map_option fst (WriteReader demo_env_unsynced ''/f'' (Some demo_reader) 384 448 demo_world) =
     Some (Some (half_done ''/f'' ''syncing its directory'' (Joined [External ''EIO''])))"
  "map_option fst (WriteReader demo_env_full ''/f'' (Some demo_reader) 384 448 demo_world) =
     Some (Some (Wrapf ''write temporary file for /f'' (External ''ENOSPC'')))"
  by (simp_all add: demo_defs demo_paths [unfolded demo_defs] write_eval)

lemma run_result: "map_option fst x = Some e \<Longrightarrow> x = Some (e, snd (the x))"
  by (cases x) auto

lemmas demo_results = demo_runs [THEN run_result, folded demo_write_def]

lemma demo_start:
  "seen demo_world = []" "\<forall>i \<in> fds demo_world. i < next_inode (kern demo_world)"
  by (simp_all add: demo_world_def)

subsection \<open>Writing\<close>

lemma WriteReader_outcome:
  assumes "WriteReader env path (Some rd) mode dmode w = Some (err, w')"
    and "replace_file_spec env" and "proper_destination env path"
    and "seen w = []" and "\<forall>i \<in> fds w. i < next_inode (kern w)"
  shows "write_outcome env path rd mode w err w'"
  using assms(1) unfolding WriteReader_def
  by (rule unix_sync.write_reader_outcome [OF _ assms(2-5)])

text \<open>
  C1. Crash safety: at every moment of a call, and whatever system call fails, a crash leaves
  of the destination what was there before (an entry the file system already had) or the new
  file with the complete content, the requested mode and its data flushed. Files that existed
  before keep their content.
\<close>

theorem write_reader_crash_safe:
  assumes "WriteReader env path (Some rd) mode dmode w = Some (err, w')"
    and "replace_file_spec env" and "proper_destination env path"
    and "seen w = []" and "\<forall>i \<in> fds w. i < next_inode (kern w)"
    and "k \<in> set (seen w')" and "crash_view k (resolve (cwd env) path) e"
  shows "(e = entries (kern w) (resolve (cwd env) path) \<or> e = stable (kern w) (resolve (cwd env) path) \<or>
      e = Some (FileEnt (next_inode (kern w))) \<and>
      inodes k (next_inode (kern w)) =
        Some \<lparr>content = concat (chunks rd), perm = mode, flushed = True\<rparr>) \<and>
    (\<forall>j < next_inode (kern w). inodes k j = inodes (kern w) j)"
proof -
  have "untouched (kern w) (resolve (cwd env) path) k \<or>
      replaced (kern w) (resolve (cwd env) path) (filled rd mode) k"
    using WriteReader_outcome [OF assms(1-5)] assms(6) by (simp add: write_outcome_def all_seen_def Let_def)
  then show ?thesis using assms(7)
    by (elim disjE) (auto simp: untouched_def replaced_def crash_view_def filled_def)
qed

text \<open>Every moment of the run that ends without an error, after a crash that loses nothing.\<close>

theorem write_reader_crash_safe_witness:
  "\<exists>k. k \<in> set (seen (snd (demo_write demo_env))) \<and>
     (entries k [''f''] = Some (FileEnt 0) \<or> entries k [''f''] = Some (FileEnt 1) \<and>
      inodes k 1 = Some \<lparr>content = ''new'', perm = 384, flushed = True\<rparr>)"
proof -
  have ne: "seen (snd (demo_write demo_env)) \<noteq> []"
    by (simp add: demo_write_def demo_defs demo_paths [unfolded demo_defs] write_eval)
  let ?k = "hd (seen (snd (demo_write demo_env)))"
  have k: "?k \<in> set (seen (snd (demo_write demo_env)))" using ne by simp
  moreover have "crash_view ?k (resolve (cwd demo_env) ''/f'') (entries ?k [''f''])"
    by (simp add: crash_view_def demo_env_def demo_paths)
  note write_reader_crash_safe [OF demo_results(1) demo_spec demo_paths(1) demo_start k this]
  then have "entries ?k [''f''] = Some (FileEnt 0) \<or> entries ?k [''f''] = Some (FileEnt 1) \<and>
      inodes ?k 1 = Some \<lparr>content = ''new'', perm = 384, flushed = True\<rparr>"
    by (simp add: demo_env_def demo_paths demo_world_def demo_kernel_def demo_reader_def)
  ultimately show ?thesis by blast
qed

text \<open>
  C8. What the result means: without an error, or with a \<open>CommittedError\<close>, the reader was read
  to its end and the destination is the complete file with the requested mode; with any other
  error the destination is what it was.
\<close>

theorem write_reader_result:
  assumes "WriteReader env path (Some rd) mode dmode w = Some (err, w')"
    and "replace_file_spec env" and "proper_destination env path"
    and "seen w = []" and "\<forall>i \<in> fds w. i < next_inode (kern w)"
  shows "if err = None \<or> is_committed err
    then read_err rd = None \<and>
      (\<exists>i. entries (kern w') (resolve (cwd env) path) = Some (FileEnt i) \<and>
        inodes (kern w') i = Some \<lparr>content = concat (chunks rd), perm = mode, flushed = True\<rparr>)
    else entries (kern w') (resolve (cwd env) path) = entries (kern w) (resolve (cwd env) path)"
  using WriteReader_outcome [OF assms]
  by (auto simp: write_outcome_def Let_def replaced_def untouched_def filled_def split: if_splits)

theorem write_reader_result_witness:
  "\<exists>i. entries (kern (snd (demo_write demo_env_unsynced))) [''f''] = Some (FileEnt i) \<and>
     inodes (kern (snd (demo_write demo_env_unsynced))) i =
       Some \<lparr>content = ''new'', perm = 384, flushed = True\<rparr>"
proof -
  have "proper_destination demo_env_unsynced ''/f''" "cwd demo_env_unsynced = []"
    using demo_paths(1) by (simp_all add: proper_destination_def demo_env_unsynced_def demo_env_def)
  then show ?thesis
    using write_reader_result [OF demo_results(2) demo_spec_unsynced _ demo_start]
    by (simp add: demo_paths demo_reader_def)
qed

text \<open>
  C31. Nothing is left behind: when the temporary file can be removed, the only paths that
  differ after the call, with whatever result, are the destination and missing ancestor
  directories of it, which are now directories; and the open descriptors are those of before.
\<close>

theorem write_reader_tidy:
  assumes "WriteReader env path (Some rd) mode dmode w = Some (err, w')"
    and "replace_file_spec env" and "proper_destination env path"
    and "seen w = []" and "\<forall>i \<in> fds w. i < next_inode (kern w)"
    and "remove_fault env = None" and "q \<noteq> resolve (cwd env) path"
  shows "fds w' = fds w \<and> (entries (kern w') q = entries (kern w) q \<or>
    prefix q (resolve (cwd env) (path_dir path)) \<and> entries (kern w) q = None \<and>
    (\<exists>m. entries (kern w') q = Some (DirEnt m)))"
  using WriteReader_outcome [OF assms(1-5)] assms(6,7)
  by (auto simp: write_outcome_def Let_def only_new_dirs_def split: if_splits)

theorem write_reader_tidy_witness:
  "fds (snd (demo_write demo_env_full)) = {} \<and>
   entries (kern (snd (demo_write demo_env_full))) [''.durable-7.tmp''] = None"
proof -
  have "proper_destination demo_env_full ''/f''" "cwd demo_env_full = []" "remove_fault demo_env_full = None"
    using demo_paths(1) by (simp_all add: proper_destination_def demo_env_full_def demo_env_def)
  then show ?thesis
    using write_reader_tidy [OF demo_results(3) demo_spec_full _ demo_start, of "[''.durable-7.tmp'']"]
    by (simp add: demo_paths demo_world_def demo_kernel_def)
qed

subsection \<open>Arguments\<close>

lemma mode_perm_iff: "mode = mode_perm mode \<longleftrightarrow> mode \<le> 511"
proof -
  have "mode_perm mode = take_bit 9 mode" by (simp add: mode_perm_def take_bit_eq_mask mask_eq_exp_minus_1)
  moreover have "take_bit 9 mode = mode \<longleftrightarrow> unat mode mod 512 = unat mode"
    by (simp add: word_unat_eq_iff take_bit_eq_mod unat_mod_distrib)
  moreover have "unat mode mod 512 = unat mode \<longleftrightarrow> unat mode < 512"
    by (metis mod_less mod_less_divisor zero_less_numeral)
  moreover have "unat mode < 512 \<longleftrightarrow> mode \<le> 511" by (simp add: word_le_nat_alt) linarith
  ultimately show ?thesis by metis
qed

lemma validate_path_iff:
  "validate_path_and_directory_mode path dmode = None \<longleftrightarrow>
     path \<noteq> [] \<and> path_base path \<noteq> ''.'' \<and> dmode \<le> 511"
  by (simp add: validate_path_and_directory_mode_def mode_perm_iff [symmetric])

lemma validate_iff:
  "validate path mode dmode = None \<longleftrightarrow>
     path \<noteq> [] \<and> path_base path \<noteq> ''.'' \<and> dmode \<le> 511 \<and> mode \<le> 511"
  using validate_path_iff [of path dmode]
  by (auto simp: validate_def mode_perm_iff [symmetric] split: option.splits)

lemma validate_path_plain:
  "validate_path_and_directory_mode path dmode = Some e \<Longrightarrow> \<exists>m. e = Plain m"
  by (auto simp: validate_path_and_directory_mode_def split: if_splits)

lemma validate_plain: "validate path mode dmode = Some e \<Longrightarrow> \<exists>m. e = Plain m"
  by (auto simp: validate_def dest: validate_path_plain split: option.splits if_splits)

lemma commit_not_plain: "commit env sync tx w = Some (err, w') \<Longrightarrow> err \<noteq> Some (Plain m)"
  by (auto simp: commit_def commit_locked_def replace_atomically_def committed_def Let_def
      split: option.splits prod.splits)

lemma fill_not_plain:
  "fill_and_commit env sync path created tmp i rd mode w = Some (err, t, w') \<Longrightarrow> err \<noteq> Some (Plain m)"
  using commit_not_plain
  by (fastforce simp: fill_and_commit_def split: option.splits prod.splits)

lemma write_reader_plain:
  assumes "validate path mode dmode = None"
  shows "WriteReader env path (Some rd) mode dmode w \<noteq> Some (Some (Plain m), w')"
  using assms fill_not_plain
  by (auto simp: WriteReader_def write_reader_def split: option.splits sum.splits prod.splits)

text \<open>
  Exactly the invalid arguments are rejected by a plain error, before anything is done: an
  empty destination or one whose last element is a dot, a mode with more than permission
  bits, a missing reader.
\<close>

theorem write_reader_rejects_exactly:
  "(\<exists>m. WriteReader env path reader mode dmode w = Some (Some (Plain m), w)) \<longleftrightarrow>
     path = [] \<or> path_base path = ''.'' \<or> 511 < dmode \<or> 511 < mode \<or> reader = None"
proof (cases "validate path mode dmode")
  case (Some e)
  then have "\<exists>m. WriteReader env path reader mode dmode w = Some (Some (Plain m), w)"
    using validate_plain [OF Some] by (auto simp: WriteReader_def write_reader_def)
  then show ?thesis using Some validate_iff [of path mode dmode] by (auto simp: not_le)
next
  case None
  show ?thesis
  proof (cases reader)
    case None
    with \<open>validate path mode dmode = None\<close> show ?thesis
      by (simp add: WriteReader_def write_reader_def)
  next
    case (Some rd)
    with None show ?thesis
      using write_reader_plain [OF None] validate_iff [of path mode dmode] by (simp add: not_less)
  qed
qed

subsection \<open>Returning and surviving\<close>

text \<open>
  C32. A call always returns when no other operation uses its destination, and gives the lock
  back: the registry has the entries it had before, whatever happened in between.
\<close>

theorem write_reader_returns:
  assumes "locks (lockreg w) (lock_key (getwd env) path) = None"
  shows "\<exists>err w'. WriteReader env path reader mode dmode w = Some (err, w') \<and>
    locks (lockreg w') = locks (lockreg w)"
  using assms by (rule write_reader_returns_aux)

theorem write_reader_returns_witness:
  "\<exists>err w'. WriteReader demo_env ''/f'' (Some demo_reader) 384 448 demo_world = Some (err, w') \<and>
     locks (lockreg w') = Map.empty"
  using write_reader_returns [of demo_world demo_env "''/f''"]
  by (simp add: demo_world_def empty_registry_def)

text \<open>
  C9. Durability: when the call reports no error, a crash afterwards leaves the complete file at
  the destination and every directory entry on the way to it, the created ones included,
  provided the directories that already existed were on stable storage.
\<close>

theorem write_reader_survives_crash:
  assumes "WriteReader env path (Some rd) mode dmode w = Some (None, w')"
    and "replace_file_spec env" and "proper_destination env path"
    and "seen w = []" and "\<forall>i \<in> fds w. i < next_inode (kern w)"
    and "wf_kernel (kern w)" and "entries (kern w) (cwd env) \<noteq> None" and "dotdot \<notin> set (cwd env)"
    and "\<forall>p. prefix p (resolve (cwd env) (path_dir path)) \<and> entries (kern w) p \<noteq> None \<longrightarrow>
      stable (kern w) p = entries (kern w) p"
    and "prefix q (resolve (cwd env) path)" and "crash_view (kern w') q e"
  shows "e = entries (kern w') q \<and> (q = resolve (cwd env) path \<longrightarrow>
    (\<exists>i. e = Some (FileEnt i) \<and>
      inodes (kern w') i = Some \<lparr>content = concat (chunks rd), perm = mode, flushed = True\<rparr>))"
proof -
  have "settled w' q"
    using assms(9) by (intro write_reader_settles [OF assms(1-3,6-8) _ assms(10)]) (simp add: settled_def)
  then have "e = entries (kern w') q" using assms(11) by (auto simp: settled_def crash_view_def)
  then show ?thesis using WriteReader_outcome [OF assms(1-5)]
    by (simp add: write_outcome_def Let_def replaced_def filled_def)
qed

text \<open>The destination of the demonstration, two missing directories deep.\<close>

lemma demo_deep:
  "proper_destination demo_env ''/a/b/f''" "resolve [] ''/a/b/f'' = [''a'', ''b'', ''f'']"
  "validate ''/a/b/f'' 384 448 = None" "path_dir ''/a/b/f'' = ''/a/b''" "path_clean ''/a/b'' = ''/a/b''"
  "path_dir ''/a/b'' = ''/a''" "path_dir ''/a'' = ''/''" "resolve [] ''/a'' = [''a'']"
  "resolve [] ''/a/b'' = [''a'', ''b'']" "temp_path ''/a/b'' 7 = ''/a/b/.durable-7.tmp''"
  "resolve [] ''/a/b/.durable-7.tmp'' = [''a'', ''b'', ''.durable-7.tmp'']"
  "lock_key (Inr ''/'') ''/a/b/f'' = ''/a/b/f''" "same_directory demo_env ''/a/b'' ''/a/b''"
  by code_simp+

lemma demo_deep_run:
  "map_option fst (WriteReader demo_env ''/a/b/f'' (Some demo_reader) 384 448 demo_world) = Some None"
  by (simp add: demo_defs demo_deep [unfolded demo_defs] demo_paths [unfolded demo_defs] write_eval)

lemma demo_wf: "wf_kernel (kern demo_world)"
  by (auto simp: wf_kernel_def demo_world_def demo_kernel_def split: if_splits)

theorem write_reader_survives_crash_witness:
  "\<exists>w'. WriteReader demo_env ''/a/b/f'' (Some demo_reader) 384 448 demo_world = Some (None, w') \<and>
     stable (kern w') [''a''] = entries (kern w') [''a'']"
proof -
  obtain w' where r: "WriteReader demo_env ''/a/b/f'' (Some demo_reader) 384 448 demo_world = Some (None, w')"
    using run_result [OF demo_deep_run] by blast
  have st: "\<forall>p. prefix p (resolve (cwd demo_env) (path_dir ''/a/b/f'')) \<and> entries (kern demo_world) p \<noteq> None \<longrightarrow>
      stable (kern demo_world) p = entries (kern demo_world) p"
    by (simp add: demo_world_def demo_kernel_def)
  have wd: "entries (kern demo_world) (cwd demo_env) \<noteq> None" "dotdot \<notin> set (cwd demo_env)"
    by (simp_all add: demo_env_def demo_world_def demo_kernel_def)
  have q: "prefix [''a''] (resolve (cwd demo_env) ''/a/b/f'')" by (simp add: demo_env_def demo_deep)
  have "crash_view (kern w') [''a''] (stable (kern w') [''a''])" by (simp add: crash_view_def)
  from write_reader_survives_crash [OF r demo_spec demo_deep(1) demo_start demo_wf wd st q this] r
  show ?thesis by blast
qed

subsection \<open>Replacing\<close>

text \<open>
  C27. \<open>Replace\<close>: without an error, or with a \<open>CommittedError\<close>, the file that was the source is the
  destination, with the content and mode it had, flushed, and the source name is gone; with
  any other error source and destination are what they were.
\<close>

theorem replace_moves_or_keeps:
  assumes "Replace env src dst dmode w = Some (err, w')"
    and "replace_file_spec env" and "plain_name (last_element dst)"
  shows "if err = None \<or> is_committed err
    then moved (kern w) (resolve (cwd env) src) (resolve (cwd env) dst) (kern w')
    else entries (kern w') (resolve (cwd env) dst) = entries (kern w) (resolve (cwd env) dst) \<and>
      (entries (kern w) (resolve (cwd env) src) \<noteq> None \<longrightarrow>
       entries (kern w') (resolve (cwd env) src) = entries (kern w) (resolve (cwd env) src))"
  using unix_sync.replace_outcome [OF assms(1) [unfolded Replace_def] assms(2,3)] .

lemma demo_replace_run:
  "map_option fst (Replace demo_env ''/f'' ''/a/b/f'' 448 demo_world) = Some None"
proof -
  have "validate_path_and_directory_mode ''/a/b/f'' 448 = None" by code_simp
  moreover have "\<not> same_directory demo_env ''/'' ''/a/b''" by code_simp
  ultimately show ?thesis
    by (simp add: demo_defs demo_deep [unfolded demo_defs] demo_paths [unfolded demo_defs] write_eval
        Replace_def replace_with_def os_open_def)
qed

theorem replace_moves_or_keeps_witness:
  "\<exists>w'. Replace demo_env ''/f'' ''/a/b/f'' 448 demo_world = Some (None, w') \<and>
     entries (kern w') [''a'', ''b'', ''f''] = Some (FileEnt 0) \<and> entries (kern w') [''f''] = None"
proof -
  obtain w' where r: "Replace demo_env ''/f'' ''/a/b/f'' 448 demo_world = Some (None, w')"
    using run_result [OF demo_replace_run] by blast
  have "plain_name (last_element ''/a/b/f'')" "cwd demo_env = []"
    using demo_deep(1) by (simp_all add: proper_destination_def demo_env_def)
  with replace_moves_or_keeps [OF r demo_spec] r show ?thesis
    by (auto simp: moved_def demo_paths demo_deep demo_world_def demo_kernel_def)
qed

end
