(* ===== verification/Durable_Interleaved.thy ===== *)
theory Durable_Interleaved
  imports Durable_Threads Durable_Contract
begin

section \<open>Any number of writers at the same time\<close>

text \<open>
  What holds in every state of calls of \<open>WriteReader\<close> and \<open>Replace\<close> whose steps are interleaved in any way,
  also for the same destination: at every moment, and after a crash, each destination is what
  it was or the complete file of one of its writers.
\<close>

subsection \<open>What is expected of the calls\<close>

definition target :: "write_job \<Rightarrow> kpath" where
  "target j = resolve (cwd (job_env j)) (job_path j)"

definition spot :: "write_job \<Rightarrow> draft \<Rightarrow> kpath" where
  "spot j d = resolve (cwd (job_env j)) (temp_file d)"

definition source_of :: "write_job \<Rightarrow> kpath option" where
  "source_of j = map_option (resolve (cwd (job_env j))) (job_source j)"

definition beside :: "write_job \<Rightarrow> string \<Rightarrow> kpath" where
  "beside j c = resolve (cwd (job_env j)) (job_dir j) @ [c]"

text \<open>
  One working directory, destinations that are file names and no ancestor directories of each other, random
  names that differ from them and between the calls.
\<close>

definition jobs_ok :: "(nat \<Rightarrow> write_job) \<Rightarrow> bool" where
  "jobs_ok J \<longleftrightarrow>
     (\<forall>t. replace_file_spec (job_env (J t)) \<and> plain_name (last_element (job_path (J t)))) \<and>
     (\<forall>t u. cwd (job_env (J t)) = cwd (job_env (J u))) \<and>
     (\<forall>t u. \<forall>x \<in> set (suffixes (job_env (J t))). temp_name x \<noteq> last_element (job_path (J u))) \<and>
     (\<forall>t u. \<not> prefix (target (J t)) (resolve (cwd (job_env (J u))) (job_dir (J u)))) \<and>
     (\<forall>t u. t \<noteq> u \<longrightarrow> set (suffixes (job_env (J t))) \<inter> set (suffixes (job_env (J u))) = {})"

text \<open>
  The sources of \<open>Replace\<close> belong to their calls: they are no destinations, no temporary files and not
  the source of two calls; and at the start every file has one name.
\<close>

definition sources_ok :: "(nat \<Rightarrow> write_job) \<Rightarrow> kernel \<Rightarrow> bool" where
  "sources_ok J k0 \<longleftrightarrow>
     (\<forall>t u q. source_of (J t) = Some q \<longrightarrow> q \<noteq> target (J u)) \<and>
     (\<forall>t u q. \<forall>x \<in> set (suffixes (job_env (J u))). source_of (J t) = Some q \<longrightarrow> q \<noteq> beside (J u) (temp_name x)) \<and>
     (\<forall>t u q. source_of (J t) = Some q \<longrightarrow> source_of (J u) = Some q \<longrightarrow> t = u) \<and>
     (\<forall>p q i. entries k0 p = Some (FileEnt i) \<longrightarrow> entries k0 q = Some (FileEnt i) \<longrightarrow> p = q) \<and>
     (\<forall>p i. entries k0 p = Some (FileEnt i) \<longrightarrow> i < next_inode k0 \<and> inodes k0 i \<noteq> None)"

lemma jobs_okD:
  assumes "jobs_ok J"
  shows "replace_file_spec (job_env (J t))" and "plain_name (last_element (job_path (J t)))"
    and "cwd (job_env (J t)) = cwd (job_env (J u))"
    and "x \<in> set (suffixes (job_env (J t))) \<Longrightarrow> temp_name x \<noteq> last_element (job_path (J u))"
    and "\<not> prefix (target (J t)) (resolve (cwd (job_env (J u))) (job_dir (J u)))"
    and "x \<in> set (suffixes (job_env (J t))) \<Longrightarrow> x \<in> set (suffixes (job_env (J u))) \<Longrightarrow> t = u"
  using assms unfolding jobs_ok_def by blast+

lemma sources_okD:
  assumes "sources_ok J k0"
  shows "source_of (J t) = Some q \<Longrightarrow> q \<noteq> target (J u)"
    and "source_of (J t) = Some q \<Longrightarrow> x \<in> set (suffixes (job_env (J u))) \<Longrightarrow> q \<noteq> beside (J u) (temp_name x)"
    and "source_of (J t) = Some q \<Longrightarrow> source_of (J u) = Some q \<Longrightarrow> t = u"
    and "entries k0 p = Some (FileEnt i) \<Longrightarrow> entries k0 q = Some (FileEnt i) \<Longrightarrow> p = q"
    and "entries k0 p = Some (FileEnt i) \<Longrightarrow> i < next_inode k0 \<and> inodes k0 i \<noteq> None"
  using assms unfolding sources_ok_def by blast+

text \<open>The file a call works on: a temporary file of its own, or the source as it was at first.\<close>

definition rightful :: "kernel \<Rightarrow> write_job \<Rightarrow> draft \<Rightarrow> bool" where
  "rightful k0 j d \<longleftrightarrow>
     (case job_source j of
        None \<Rightarrow> (\<exists>x \<in> set (suffixes (job_env j)). temp_file d = temp_path (job_dir j) x) \<and> next_inode k0 \<le> temp_inode d
      | Some src \<Rightarrow> temp_file d = src \<and> entries k0 (spot j d) = Some (FileEnt (temp_inode d)))"

lemma job_dir_not_Nil: "job_dir j \<noteq> []"
  by (simp add: job_dir_def)

lemma beside_temp: "resolve (cwd (job_env j)) (temp_path (job_dir j) x) = beside j (temp_name x)"
  by (simp add: beside_def resolve_temp job_dir_not_Nil)

lemma beside_inject: "cwd (job_env j) = cwd (job_env j') \<Longrightarrow> beside j c = beside j' c' \<Longrightarrow> c = c'"
  by (simp add: beside_def)

lemma target_split: "jobs_ok J \<Longrightarrow> target (J t) = beside (J t) (last_element (job_path (J t)))"
  by (simp add: target_def beside_def job_dir_def resolve_dir_last jobs_okD(2))

lemma rightful_cases:
  assumes "rightful k0 j d"
  obtains x where "job_source j = None" "x \<in> set (suffixes (job_env j))" "spot j d = beside j (temp_name x)"
      "next_inode k0 \<le> temp_inode d"
    | "source_of j = Some (spot j d)" "entries k0 (spot j d) = Some (FileEnt (temp_inode d))"
  using assms by (auto simp: rightful_def spot_def source_of_def beside_temp split: option.splits)

lemma temp_name_inject: "temp_name x = temp_name y \<Longrightarrow> x = y"
  by (simp add: temp_name_def itoa_inject)

lemma temp_not_target:
  assumes "jobs_ok J" and "x \<in> set (suffixes (job_env (J t)))"
  shows "beside (J t) (temp_name x) \<noteq> target (J u)"
  using jobs_okD(4) [OF assms, of u] beside_inject [OF jobs_okD(3) [OF assms(1), of t u]] target_split [OF assms(1), of u]
  by metis

lemma spot_not_target:
  assumes "jobs_ok J" and "sources_ok J k0" and "rightful k0 (J t) d"
  shows "spot (J t) d \<noteq> target (J u)"
  using assms(3)
proof (cases rule: rightful_cases)
  case (1 x)
  then show ?thesis using temp_not_target [OF assms(1) 1(2)] by simp
next
  case 2
  then show ?thesis using sources_okD(1) [OF assms(2)] by blast
qed

lemma spot_not_source:
  assumes "jobs_ok J" and "sources_ok J k0" and "rightful k0 (J t) d" and "t \<noteq> u" and "source_of (J u) = Some q"
  shows "spot (J t) d \<noteq> q"
  using assms(3)
proof (cases rule: rightful_cases)
  case (1 x)
  then show ?thesis using sources_okD(2) [OF assms(2,5) 1(2)] by auto
next
  case 2
  then show ?thesis using sources_okD(3) [OF assms(2), of t q u] assms(4,5) by auto
qed

lemma spots_differ:
  assumes "jobs_ok J" and "sources_ok J k0" and "t \<noteq> u" and "rightful k0 (J t) d" and "rightful k0 (J u) e"
  shows "spot (J t) d \<noteq> spot (J u) e"
  using assms(5)
proof (cases rule: rightful_cases)
  case 2
  then show ?thesis using spot_not_source [OF assms(1,2,4,3)] by auto
next
  case (1 y)
  from assms(4) show ?thesis
  proof (cases rule: rightful_cases)
    case 2
    then show ?thesis using spot_not_source [OF assms(1,2,5)] assms(3) by metis
  next
    case one: (1 x)
    then show ?thesis
      using 1 temp_name_inject beside_inject [OF jobs_okD(3) [OF assms(1), of t u]] jobs_okD(6) [OF assms(1) one(2), of u] assms(3)
      by metis
  qed
qed

subsection \<open>Where a call is with its file\<close>

fun draft_of :: "write_pc \<Rightarrow> draft option" where
  "draft_of (Syncing d) = Some d"
| "draft_of (Synced d) = Some d"
| "draft_of (Opened d) = Some d"
| "draft_of (Copying d cs n) = Some d"
| "draft_of (Copied d) = Some d"
| "draft_of (Flushed d) = Some d"
| "draft_of (Closed d) = Some d"
| "draft_of (Queued d p) = Some d"
| "draft_of (Locked d p) = Some d"
| "draft_of (Swapped d p) = Some d"
| "draft_of (Settled d p) = Some d"
| "draft_of (Linking d p ps ds) = Some d"
| "draft_of (Releasing d p err) = Some d"
| "draft_of (Parting d p err) = Some d"
| "draft_of (Deferred d i err) = Some d"
| "draft_of (Returned d err) = d"
| "draft_of _ = None"

text \<open>The file still has its name and will be needed.\<close>

fun pending :: "write_pc \<Rightarrow> draft option" where
  "pending (Syncing d) = Some d"
| "pending (Synced d) = Some d"
| "pending (Opened d) = Some d"
| "pending (Copying d cs n) = Some d"
| "pending (Copied d) = Some d"
| "pending (Flushed d) = Some d"
| "pending (Closed d) = Some d"
| "pending (Queued d p) = Some d"
| "pending (Locked d p) = Some d"
| "pending _ = None"

definition succeeded :: "gerror option \<Rightarrow> bool" where
  "succeeded err \<longleftrightarrow> err = None \<or> is_committed err"

text \<open>The replacement has happened.\<close>

fun committed_as :: "write_pc \<Rightarrow> draft option" where
  "committed_as (Swapped d p) = Some d"
| "committed_as (Settled d p) = Some d"
| "committed_as (Linking d p ps ds) = Some d"
| "committed_as (Releasing d p err) = (if succeeded err then Some d else None)"
| "committed_as (Parting d p err) = (if succeeded err then Some d else None)"
| "committed_as (Deferred d i err) = (if succeeded err then Some d else None)"
| "committed_as (Returned d err) = (if succeeded err then d else None)"
| "committed_as _ = None"

text \<open>Content and mode a call delivers, with the data on stable storage.\<close>

definition delivers :: "kernel \<Rightarrow> write_job \<Rightarrow> inode \<Rightarrow> bool" where
  "delivers k0 j n \<longleftrightarrow>
     (case source_of j of
        None \<Rightarrow> n = filled (job_reader j) (job_mode j)
      | Some q \<Rightarrow> \<exists>i n0. entries k0 q = Some (FileEnt i) \<and> inodes k0 i = Some n0 \<and> n = n0\<lparr>flushed := True\<rparr>)"

text \<open>How far the content of the file is.\<close>

fun progress :: "kernel \<Rightarrow> write_job \<Rightarrow> write_pc \<Rightarrow> inode \<Rightarrow> bool" where
  "progress k0 j (Syncing d) n \<longleftrightarrow> True"
| "progress k0 j (Opened d) n \<longleftrightarrow> content n = []"
| "progress k0 j (Copying d cs m) n \<longleftrightarrow> content n @ concat cs = concat (chunks (job_reader j)) \<and> perm n = job_mode j"
| "progress k0 j (Copied d) n \<longleftrightarrow> content n = concat (chunks (job_reader j)) \<and> perm n = job_mode j"
| "progress k0 j c n \<longleftrightarrow> pending c \<noteq> None \<or> committed_as c \<noteq> None \<longrightarrow> delivers k0 j n"

lemma committed_draft: "committed_as c = Some d \<Longrightarrow> draft_of c = Some d"
  by (cases c) (auto split: if_splits)

lemma pending_draft: "pending c = Some d \<Longrightarrow> draft_of c = Some d"
  by (cases c) auto

lemma succeeded_simps [simp]:
  "succeeded None" "succeeded (Some (committed e))" "\<not> succeeded (fails_with m e)" "\<not> succeeded (Some (Wrapf m e))"
  by (simp_all add: succeeded_def fails_with_def committed_def)

text \<open>Which kind of call is at which place, and what it has still before it.\<close>

fun on_course :: "write_job \<Rightarrow> write_pc \<Rightarrow> bool" where
  "on_course j (Making pre cs ms) \<longleftrightarrow> pre @ cs = resolve (cwd (job_env j)) (job_dir j)"
| "on_course j (Naming ss ms) \<longleftrightarrow> job_source j = None \<and> set ss \<subseteq> set (suffixes (job_env j))"
| "on_course j (Sourcing src ms) \<longleftrightarrow> job_source j = Some src"
| "on_course j (Syncing d) \<longleftrightarrow> job_source j \<noteq> None"
| "on_course j (Synced d) \<longleftrightarrow> job_source j \<noteq> None"
| "on_course j (Opened d) \<longleftrightarrow> job_source j = None"
| "on_course j (Copying d cs n) \<longleftrightarrow> job_source j = None"
| "on_course j (Copied d) \<longleftrightarrow> job_source j = None"
| "on_course j (Flushed d) \<longleftrightarrow> job_source j = None"
| "on_course j (Deferred d i err) \<longleftrightarrow> job_source j = None"
| "on_course j c \<longleftrightarrow> True"

subsection \<open>The invariant\<close>

text \<open>An entry of a destination is one of those it had at first, or names the file of one of its writers.\<close>

definition served :: "(nat \<Rightarrow> write_job) \<Rightarrow> (nat \<Rightarrow> write_pc) \<Rightarrow> kpath \<Rightarrow> entry option set \<Rightarrow> entry option \<Rightarrow> bool" where
  "served J f K old e \<longleftrightarrow> e \<in> old \<or>
     (\<exists>u d. target (J u) = K \<and> committed_as (f u) = Some d \<and> e = Some (FileEnt (temp_inode d)))"

text \<open>Content and mode of a file are what they were; a source may have been flushed.\<close>

definition same_data :: "inode option \<Rightarrow> inode option \<Rightarrow> bool" where
  "same_data a b \<longleftrightarrow> map_option (flushed_update (\<lambda>_. True)) a = map_option (flushed_update (\<lambda>_. True)) b"

lemma same_data_refl [simp]: "same_data a a"
  by (simp add: same_data_def)

lemma same_data_trans: "same_data a b \<Longrightarrow> same_data b c \<Longrightarrow> same_data a c"
  by (simp add: same_data_def)

text \<open>What has become of a source that has not been moved: nothing, or a directory where nothing was.\<close>

definition left_alone :: "entry option \<Rightarrow> entry option \<Rightarrow> bool" where
  "left_alone a b \<longleftrightarrow> b = a \<or> a = None \<and> (\<exists>m. b = Some (DirEnt m))"

definition write_inv :: "(nat \<Rightarrow> write_job) \<Rightarrow> kernel \<Rightarrow> kernel \<Rightarrow> (nat \<Rightarrow> write_pc) \<Rightarrow> bool" where
  "write_inv J k0 k f \<longleftrightarrow>
     (next_inode k0 \<le> next_inode k \<and> (\<forall>i < next_inode k0. same_data (inodes k0 i) (inodes k i))) \<and>
     (\<forall>t. on_course (J t) (f t)) \<and>
     (\<forall>t d. draft_of (f t) = Some d \<longrightarrow> rightful k0 (J t) d \<and> temp_inode d < next_inode k \<and>
        (\<exists>n. inodes k (temp_inode d) = Some n \<and> progress k0 (J t) (f t) n)) \<and>
     (\<forall>t u d e. draft_of (f t) = Some d \<longrightarrow> draft_of (f u) = Some e \<longrightarrow> temp_inode d = temp_inode e \<longrightarrow> t = u) \<and>
     (\<forall>t d. pending (f t) = Some d \<longrightarrow> entries k (spot (J t) d) = Some (FileEnt (temp_inode d))) \<and>
     (\<forall>t q. source_of (J t) = Some q \<longrightarrow> committed_as (f t) = None \<longrightarrow> left_alone (entries k0 q) (entries k q)) \<and>
     (\<forall>t. served J f (target (J t)) {entries k0 (target (J t))} (entries k (target (J t))) \<and>
        served J f (target (J t)) {entries k0 (target (J t)), stable k0 (target (J t))} (stable k (target (J t))))"

lemma write_invD:
  assumes "write_inv J k0 k f"
  shows "next_inode k0 \<le> next_inode k" and "i < next_inode k0 \<Longrightarrow> same_data (inodes k0 i) (inodes k i)"
    and "on_course (J t) (f t)"
    and "draft_of (f t) = Some d \<Longrightarrow> rightful k0 (J t) d \<and> temp_inode d < next_inode k \<and>
        (\<exists>n. inodes k (temp_inode d) = Some n \<and> progress k0 (J t) (f t) n)"
    and "draft_of (f t) = Some d \<Longrightarrow> draft_of (f u) = Some e \<Longrightarrow> temp_inode d = temp_inode e \<Longrightarrow> t = u"
    and "pending (f t) = Some d \<Longrightarrow> entries k (spot (J t) d) = Some (FileEnt (temp_inode d))"
    and "source_of (J t) = Some q \<Longrightarrow> committed_as (f t) = None \<Longrightarrow> left_alone (entries k0 q) (entries k q)"
    and "served J f (target (J t)) {entries k0 (target (J t))} (entries k (target (J t)))"
    and "served J f (target (J t)) {entries k0 (target (J t)), stable k0 (target (J t))} (stable k (target (J t)))"
  using assms unfolding write_inv_def by blast+

lemma write_invI:
  assumes "next_inode k0 \<le> next_inode k" and "\<And>i. i < next_inode k0 \<Longrightarrow> same_data (inodes k0 i) (inodes k i)"
    and "\<And>t. on_course (J t) (f t)"
    and "\<And>t d. draft_of (f t) = Some d \<Longrightarrow> rightful k0 (J t) d \<and> temp_inode d < next_inode k \<and>
        (\<exists>n. inodes k (temp_inode d) = Some n \<and> progress k0 (J t) (f t) n)"
    and "\<And>t u d e. draft_of (f t) = Some d \<Longrightarrow> draft_of (f u) = Some e \<Longrightarrow> temp_inode d = temp_inode e \<Longrightarrow> t = u"
    and "\<And>t d. pending (f t) = Some d \<Longrightarrow> entries k (spot (J t) d) = Some (FileEnt (temp_inode d))"
    and "\<And>t q. source_of (J t) = Some q \<Longrightarrow> committed_as (f t) = None \<Longrightarrow> left_alone (entries k0 q) (entries k q)"
    and "\<And>t. served J f (target (J t)) {entries k0 (target (J t))} (entries k (target (J t)))"
    and "\<And>t. served J f (target (J t)) {entries k0 (target (J t)), stable k0 (target (J t))} (stable k (target (J t)))"
  shows "write_inv J k0 k f"
  using assms unfolding write_inv_def by blast

lemma served_mono:
  assumes "served J f K old e" and "\<And>u d. committed_as (f u) = Some d \<Longrightarrow> committed_as (g u) = Some d"
  shows "served J g K old e"
  using assms unfolding served_def by blast

lemma served_more: "served J f K old e \<Longrightarrow> old \<subseteq> old' \<Longrightarrow> served J f K old' e"
  unfolding served_def by blast

subsection \<open>Steps that leave every destination and every needed name alone\<close>

lemma write_inv_quiet:
  assumes inv: "write_inv J k0 k f"
    and draft: "draft_of c = draft_of (f t)"
    and pend: "\<And>d. pending c = Some d \<Longrightarrow> pending (f t) = Some d"
    and comm: "committed_as c = committed_as (f t)"
    and course: "on_course (J t) c"
    and ino: "next_inode k' = next_inode k"
      "\<And>i. (\<And>d. draft_of (f t) = Some d \<Longrightarrow> i \<noteq> temp_inode d) \<Longrightarrow> inodes k' i = inodes k i"
      "\<And>d. draft_of (f t) = Some d \<Longrightarrow> temp_inode d < next_inode k0 \<Longrightarrow>
        same_data (inodes k (temp_inode d)) (inodes k' (temp_inode d))"
      "\<And>d n. draft_of c = Some d \<Longrightarrow> inodes k (temp_inode d) = Some n \<Longrightarrow> progress k0 (J t) (f t) n \<Longrightarrow>
        \<exists>n'. inodes k' (temp_inode d) = Some n' \<and> progress k0 (J t) c n'"
    and ent: "\<And>u. entries k' (target (J u)) = entries k (target (J u))"
      "\<And>u d. u \<noteq> t \<Longrightarrow> pending (f u) = Some d \<Longrightarrow> entries k' (spot (J u) d) = entries k (spot (J u) d)"
      "\<And>d. pending c = Some d \<Longrightarrow> entries k' (spot (J t) d) = entries k (spot (J t) d)"
      "\<And>u q. source_of (J u) = Some q \<Longrightarrow> left_alone (entries k q) (entries k' q)"
    and st: "\<And>u. stable k' (target (J u)) = stable k (target (J u)) \<or> stable k' (target (J u)) = entries k (target (J u))"
  shows "write_inv J k0 k' (f(t := c))"
proof (rule write_invI)
  show "next_inode k0 \<le> next_inode k'" using write_invD(1) [OF inv] ino(1) by simp
  show "same_data (inodes k0 i) (inodes k' i)" if "i < next_inode k0" for i
    using same_data_trans [OF write_invD(2) [OF inv that]] ino(2,3) that by (metis same_data_refl)
  show "on_course (J u) ((f(t := c)) u)" for u using write_invD(3) [OF inv] course by simp
  show "rightful k0 (J u) d \<and> temp_inode d < next_inode k' \<and>
      (\<exists>n. inodes k' (temp_inode d) = Some n \<and> progress k0 (J u) ((f(t := c)) u) n)"
    if "draft_of ((f(t := c)) u) = Some d" for u d
  proof (cases "u = t")
    case True
    then have d: "draft_of (f t) = Some d" using that draft by simp
    then show ?thesis using write_invD(4) [OF inv d] ino(1) ino(4) [of d] True draft by auto
  next
    case False
    then have d: "draft_of (f u) = Some d" using that by simp
    have "temp_inode d \<noteq> temp_inode e" if "draft_of (f t) = Some e" for e
      using write_invD(5) [OF inv d that] False by auto
    from ino(2) [OF this] show ?thesis using write_invD(4) [OF inv d] ino(1) False by simp
  qed
  show "u = v" if "draft_of ((f(t := c)) u) = Some d" "draft_of ((f(t := c)) v) = Some e" "temp_inode d = temp_inode e"
    for u v d e
    using write_invD(5) [OF inv, of u d v e] that draft by (auto split: if_splits)
  show "entries k' (spot (J u) d) = Some (FileEnt (temp_inode d))" if "pending ((f(t := c)) u) = Some d" for u d
    using that ent(2,3) pend write_invD(6) [OF inv, of u d] by (cases "u = t") auto
  show "left_alone (entries k0 q) (entries k' q)" if "source_of (J u) = Some q" "committed_as ((f(t := c)) u) = None" for u q
  proof -
    have "committed_as (f u) = None" using that(2) comm by (cases "u = t") simp_all
    from write_invD(7) [OF inv that(1) this] show ?thesis using ent(4) [OF that(1)] by (auto simp: left_alone_def)
  qed
  have sv: "served J (f(t := c)) K old e" if "served J f K old e" for K old e
    by (rule served_mono [OF that]) (auto simp: comm)
  show vis: "served J (f(t := c)) (target (J u)) {entries k0 (target (J u))} (entries k' (target (J u)))" for u
    using sv [OF write_invD(8) [OF inv]] by (simp add: ent(1))
  show "served J (f(t := c)) (target (J u)) {entries k0 (target (J u)), stable k0 (target (J u))}
      (stable k' (target (J u)))" for u
    using st [of u] sv [OF write_invD(9) [OF inv]] served_more [OF vis [of u]] by (auto simp: ent(1))
qed

lemma left_alone_refl [simp]: "left_alone a a"
  by (simp add: left_alone_def)

text \<open>Nothing happens to the kernel.\<close>

lemma write_inv_same:
  assumes "write_inv J k0 k f" and "draft_of c = draft_of (f t)" and "\<And>d. pending c = Some d \<Longrightarrow> pending (f t) = Some d"
    and "committed_as c = committed_as (f t)" and "on_course (J t) c"
    and "\<And>n. progress k0 (J t) (f t) n \<Longrightarrow> progress k0 (J t) c n"
  shows "write_inv J k0 k (f(t := c))"
  by (rule write_inv_quiet [OF assms(1-5)]) (use assms(6) in auto)

text \<open>The own file is written to, or the source flushed.\<close>

lemma write_inv_fill:
  assumes "write_inv J k0 k f" and "draft_of (f t) = Some d" and "draft_of c = Some d"
    and "\<And>d. pending c = Some d \<Longrightarrow> pending (f t) = Some d"
    and "committed_as c = committed_as (f t)" and "on_course (J t) c"
    and "\<And>n. inodes k (temp_inode d) = Some n \<Longrightarrow> progress k0 (J t) (f t) n \<Longrightarrow> progress k0 (J t) c (g n)"
    and "temp_inode d < next_inode k0 \<Longrightarrow> g = flushed_update (\<lambda>_. True)"
  shows "write_inv J k0 (upd_inode (temp_inode d) g k) (f(t := c))"
  by (rule write_inv_quiet [OF assms(1) _ assms(4,5,6)])
    (use assms(2,3,7,8) in \<open>auto simp: upd_inode_def same_data_def option.map_comp o_def\<close>)

text \<open>A directory is synced.\<close>

lemma write_inv_sync:
  assumes "write_inv J k0 k f" and "draft_of c = draft_of (f t)" and "\<And>d. pending c = Some d \<Longrightarrow> pending (f t) = Some d"
    and "committed_as c = committed_as (f t)" and "on_course (J t) c"
    and "\<And>n. progress k0 (J t) (f t) n \<Longrightarrow> progress k0 (J t) c n"
    and "sync_update st k"
  shows "write_inv J k0 (k\<lparr>stable := st\<rparr>) (f(t := c))"
  by (rule write_inv_quiet [OF assms(1-5)]) (use assms(6,7) in \<open>auto simp: sync_update_def\<close>)

lemma write_inv_sync_directory:
  assumes "sync_directory env p w = (e, w')"
    and "write_inv J k0 (kern w) f" and "draft_of c = draft_of (f t)" and "\<And>d. pending c = Some d \<Longrightarrow> pending (f t) = Some d"
    and "committed_as c = committed_as (f t)" and "on_course (J t) c"
    and "\<And>n. progress k0 (J t) (f t) n \<Longrightarrow> progress k0 (J t) c n"
  shows "write_inv J k0 (kern w') (f(t := c))"
  using unix_sync.sync_only_stable [OF assms(1)]
  by (auto intro: write_inv_same [OF assms(2-7)] write_inv_sync [OF assms(2-7)])

subsection \<open>The other steps\<close>

lemma write_inv_mkdir:
  assumes "write_inv J k0 k f" and "jobs_ok J" and "f t = Making pre (c # cs) ms" and "entries k (pre @ [c]) = None"
  shows "write_inv J k0 (add_dir env (pre @ [c]) mode k) (f(t := Making (pre @ [c]) cs ms))"
proof -
  have "prefix (pre @ [c]) (resolve (cwd (job_env (J t))) (job_dir (J t)))"
    using write_invD(3) [OF assms(1), of t] assms(3) by (simp add: prefix_def) (metis append.assoc append_Cons append_Nil)
  then have ne: "target (J u) \<noteq> pre @ [c]" for u using jobs_okD(5) [OF assms(2), of u t] by auto
  have sp: "spot (J u) d \<noteq> pre @ [c]" if "pending (f u) = Some d" for u d
    using write_invD(6) [OF assms(1) that] assms(4) by auto
  show ?thesis
    by (rule write_inv_quiet [OF assms(1)])
      (use assms(3,4) ne sp write_invD(3) [OF assms(1), of t] in \<open>auto simp: add_dir_def left_alone_def\<close>)
qed

lemma write_inv_create:
  assumes inv: "write_inv J k0 k f" and ok: "jobs_ok J" and src: "sources_ok J k0" and pc: "f t = Naming (x # ss) ms"
    and d: "d = \<lparr>temp_file = temp_path (job_dir (J t)) x, temp_inode = next_inode k, made = ms\<rparr>"
    and none: "entries k (spot (J t) d) = None"
  shows "write_inv J k0 (add_file env (spot (J t) d) (next_inode k) k) (f(t := Opened d))"
    (is "write_inv J k0 ?k ?f")
proof -
  have course: "job_source (J t) = None" "x \<in> set (suffixes (job_env (J t)))"
    using write_invD(3) [OF inv, of t] pc by simp_all
  then have rf: "rightful k0 (J t) d" using write_invD(1) [OF inv] by (auto simp: rightful_def d)
  note nt = spot_not_target [OF ok src rf]
  have ns: "q \<noteq> spot (J t) d" if "source_of (J u) = Some q" for u q
    using spot_not_source [OF ok src rf _ that] that course(1) by (cases "u = t") (auto simp: source_of_def)
  have fresh: "temp_inode e < next_inode k" if "draft_of (f u) = Some e" for u e
    using write_invD(4) [OF inv that] by simp
  have old: "committed_as (f t) = None" "draft_of (f t) = None" by (simp_all add: pc)
  have sv: "served J ?f K old e" if "served J f K old e" for K old e
    by (rule served_mono [OF that]) (use old in auto)
  show ?thesis
  proof (rule write_invI)
    show "next_inode k0 \<le> next_inode ?k" using write_invD(1) [OF inv] by (simp add: add_file_def)
    show "same_data (inodes k0 i) (inodes ?k i)" if "i < next_inode k0" for i
      using write_invD(1,2) [OF inv] that by (simp add: add_file_def)
    show "on_course (J u) (?f u)" for u using write_invD(3) [OF inv] course(1) by simp
    show "rightful k0 (J u) e \<and> temp_inode e < next_inode ?k \<and>
        (\<exists>n. inodes ?k (temp_inode e) = Some n \<and> progress k0 (J u) (?f u) n)"
      if "draft_of (?f u) = Some e" for u e
    proof (cases "u = t")
      case True
      then have "e = d" using that by simp
      then show ?thesis using rf True by (simp add: add_file_def d)
    next
      case False
      then have e: "draft_of (f u) = Some e" using that by simp
      show ?thesis using write_invD(4) [OF inv e] fresh [OF e] False by (simp add: add_file_def)
    qed
    show "u = v" if "draft_of (?f u) = Some a" "draft_of (?f v) = Some b" "temp_inode a = temp_inode b" for u v a b
      using that fresh [of u a] fresh [of v b] write_invD(5) [OF inv, of u a v b] by (auto simp: d split: if_splits)
    show "entries ?k (spot (J u) e) = Some (FileEnt (temp_inode e))" if "pending (?f u) = Some e" for u e
      using that write_invD(6) [OF inv, of u e] none by (auto simp: add_file_def d split: if_splits)
    show "left_alone (entries k0 q) (entries ?k q)" if "source_of (J u) = Some q" "committed_as (?f u) = None" for u q
    proof -
      have "committed_as (f u) = None" using that(2) old by (cases "u = t") simp_all
      from write_invD(7) [OF inv that(1) this] show ?thesis using ns [OF that(1)] by (simp add: add_file_def)
    qed
    show "served J ?f (target (J u)) {entries k0 (target (J u))} (entries ?k (target (J u)))" for u
      using sv [OF write_invD(8) [OF inv, of u]] nt [of u] by (simp add: add_file_def)
    show "served J ?f (target (J u)) {entries k0 (target (J u)), stable k0 (target (J u))} (stable ?k (target (J u)))" for u
      using sv [OF write_invD(9) [OF inv, of u]] by (simp add: add_file_def)
  qed
qed

text \<open>A source that can be opened is the file it was at first, and nobody else has it.\<close>

lemma write_inv_open:
  assumes inv: "write_inv J k0 k f" and src: "sources_ok J k0" and pc: "f t = Sourcing p ms"
    and d: "d = \<lparr>temp_file = p, temp_inode = i, made = ms\<rparr>" and ent: "entries k (spot (J t) d) = Some (FileEnt i)"
  shows "write_inv J k0 k (f(t := Syncing d))" (is "write_inv J k0 k ?f")
proof -
  have course: "job_source (J t) = Some p" using write_invD(3) [OF inv, of t] pc by simp
  then have so: "source_of (J t) = Some (spot (J t) d)" by (simp add: source_of_def spot_def d)
  have old: "committed_as (f t) = None" "draft_of (f t) = None" by (simp_all add: pc)
  have k0: "entries k0 (spot (J t) d) = Some (FileEnt i)"
    using write_invD(7) [OF inv so old(1)] ent by (auto simp: left_alone_def)
  note i = sources_okD(5) [OF src k0]
  have rf: "rightful k0 (J t) d" using course k0 by (simp add: rightful_def d)
  obtain n where n: "inodes k i = Some n"
    using write_invD(2) [OF inv conjunct1 [OF i]] conjunct2 [OF i] by (cases "inodes k i") (auto simp: same_data_def)
  have alone: "u = t" if "draft_of (f u) = Some e" "temp_inode e = i" for u e
  proof -
    have "rightful k0 (J u) e" using write_invD(4) [OF inv that(1)] by simp
    then show ?thesis
    proof (cases rule: rightful_cases)
      case 1
      then show ?thesis using that(2) i by simp
    next
      case 2
      then have "spot (J u) e = spot (J t) d" using sources_okD(4) [OF src] k0 that(2) by blast
      then show ?thesis using sources_okD(3) [OF src] so 2(1) by metis
    qed
  qed
  have sv: "served J ?f K old e" if "served J f K old e" for K old e
    by (rule served_mono [OF that]) (use old in auto)
  show ?thesis
  proof (rule write_invI)
    show "rightful k0 (J u) e \<and> temp_inode e < next_inode k \<and>
        (\<exists>n. inodes k (temp_inode e) = Some n \<and> progress k0 (J u) (?f u) n)"
      if "draft_of (?f u) = Some e" for u e
      using that rf n i write_invD(1,4) [OF inv] by (cases "u = t") (auto simp: d)
    show "u = v" if "draft_of (?f u) = Some a" "draft_of (?f v) = Some b" "temp_inode a = temp_inode b" for u v a b
      using that alone [of u a] alone [of v b] write_invD(5) [OF inv, of u a v b] by (auto simp: d split: if_splits)
    show "left_alone (entries k0 q) (entries k q)" if "source_of (J u) = Some q" "committed_as (?f u) = None" for u q
      using write_invD(7) [OF inv that(1)] that(2) old by (cases "u = t") simp_all
  qed (use write_invD(1-3,6) [OF inv] sv [OF write_invD(8) [OF inv]] sv [OF write_invD(9) [OF inv]] course ent
      in \<open>auto simp: d split: if_splits\<close>)
qed

lemma renamed_rest [simp]:
  "stable (renamed env a b i k) = stable k" "inodes (renamed env a b i k) = inodes k"
  "next_inode (renamed env a b i k) = next_inode k"
  by (simp_all add: renamed_def)

lemma write_inv_swap:
  assumes inv: "write_inv J k0 k f" and ok: "jobs_ok J" and src: "sources_ok J k0" and pc: "f t = Locked d p"
  shows "write_inv J k0 (renamed (job_env (J t)) (temp_file d) (job_path (J t)) (temp_inode d) k)
      (f(t := Swapped d p))" (is "write_inv J k0 ?k ?f")
proof -
  have dt: "draft_of (f t) = Some d" by (simp add: pc)
  note own = write_invD(4) [OF inv dt]
  then have rf: "rightful k0 (J t) d" by simp
  note nt = spot_not_target [OF ok src rf]
  have k: "entries ?k q = (if q = target (J t) then Some (FileEnt (temp_inode d))
      else if q = spot (J t) d then None else entries k q)" for q
    by (simp add: renamed_def target_def spot_def)
  have sv: "served J ?f K old e" if "served J f K old e" for K old e
    by (rule served_mono [OF that]) (use pc in auto)
  have mine: "served J ?f (target (J t)) old (Some (FileEnt (temp_inode d)))" for old
    unfolding served_def by (rule disjI2) (rule exI [of _ t], simp)
  show ?thesis
  proof (rule write_invI)
    show "next_inode k0 \<le> next_inode ?k" using write_invD(1) [OF inv] by simp
    show "same_data (inodes k0 i) (inodes ?k i)" if "i < next_inode k0" for i using write_invD(2) [OF inv that] by simp
    show "on_course (J u) (?f u)" for u using write_invD(3) [OF inv] by simp
    show "rightful k0 (J u) e \<and> temp_inode e < next_inode ?k \<and>
        (\<exists>n. inodes ?k (temp_inode e) = Some n \<and> progress k0 (J u) (?f u) n)" if "draft_of (?f u) = Some e" for u e
      using own write_invD(4) [OF inv, of u e] that pc by (cases "u = t") auto
    show "u = v" if "draft_of (?f u) = Some a" "draft_of (?f v) = Some b" "temp_inode a = temp_inode b" for u v a b
      using that dt write_invD(5) [OF inv, of u a v b] by (auto split: if_splits)
    show "entries ?k (spot (J u) e) = Some (FileEnt (temp_inode e))" if "pending (?f u) = Some e" for u e
    proof -
      have u: "u \<noteq> t" and e: "pending (f u) = Some e" using that by (auto split: if_splits)
      have re: "rightful k0 (J u) e" using write_invD(4) [OF inv pending_draft [OF e]] by simp
      show ?thesis using write_invD(6) [OF inv e] spot_not_target [OF ok src re] spots_differ [OF ok src u re rf] by (simp add: k)
    qed
    show "left_alone (entries k0 q) (entries ?k q)" if "source_of (J u) = Some q" "committed_as (?f u) = None" for u q
    proof -
      have u: "u \<noteq> t" "committed_as (f u) = None" using that(2) by (auto split: if_splits)
      have "q \<noteq> target (J t)" "q \<noteq> spot (J t) d"
        using sources_okD(1) [OF src that(1)] spot_not_source [OF ok src rf _ that(1)] u(1) by auto
      then show ?thesis using write_invD(7) [OF inv that(1) u(2)] by (simp add: k)
    qed
    show "served J ?f (target (J u)) {entries k0 (target (J u))} (entries ?k (target (J u)))" for u
      using sv [OF write_invD(8) [OF inv, of u]] mine nt [of u] by (auto simp: k)
    show "served J ?f (target (J u)) {entries k0 (target (J u)), stable k0 (target (J u))} (stable ?k (target (J u)))" for u
      using sv [OF write_invD(9) [OF inv, of u]] by simp
  qed
qed

lemma cleanup_removes:
  fixes w :: file_world
  shows "kern (cleanup env tmp err i w) = kern w \<or>
    kern (cleanup env tmp err i w) = (kern w)\<lparr>entries := (entries (kern w))(resolve (cwd env) tmp := None)\<rparr>"
proof (cases "err = None")
  case True
  then show ?thesis by (auto simp: cleanup_def os_close_def split: option.splits)
next
  case False
  from cleanup_kern [OF refl this refl, of env tmp i w] show ?thesis by auto
qed

lemma write_inv_cleanup:
  assumes inv: "write_inv J k0 (kern w) f" and ok: "jobs_ok J" and src: "sources_ok J k0" and pc: "f t = Deferred d i err"
  shows "write_inv J k0 (kern (cleanup (job_env (J t)) (temp_file d) err i w)) (f(t := Returned (Some d) err))"
proof -
  have rf: "rightful k0 (J t) d" and course: "job_source (J t) = None"
    using write_invD(4) [OF inv, of t d] write_invD(3) [OF inv, of t] pc by simp_all
  let ?w = "cleanup (job_env (J t)) (temp_file d) err i w"
  have "kern ?w = kern w \<or> kern ?w = (kern w)\<lparr>entries := (entries (kern w))(spot (J t) d := None)\<rparr>"
    using cleanup_removes [of "job_env (J t)"] by (simp add: spot_def)
  then show ?thesis
  proof
    assume "kern ?w = kern w"
    with inv pc show ?thesis by (auto intro: write_inv_same)
  next
    assume k: "kern ?w = (kern w)\<lparr>entries := (entries (kern w))(spot (J t) d := None)\<rparr>"
    have sp: "spot (J u) e \<noteq> spot (J t) d" if "u \<noteq> t" "pending (f u) = Some e" for u e
      using write_invD(4) [OF inv pending_draft [OF that(2)]] spots_differ [OF ok src that(1) _ rf] by simp
    have nt: "target (J u) \<noteq> spot (J t) d" for u using spot_not_target [OF ok src rf, of u] by auto
    have ns: "q \<noteq> spot (J t) d" if "source_of (J u) = Some q" for u q
      using spot_not_source [OF ok src rf _ that] that course by (cases "u = t") (auto simp: source_of_def)
    show ?thesis unfolding k
      by (rule write_inv_quiet [OF inv]) (use pc sp nt ns in \<open>auto simp: left_alone_def\<close>)
  qed
qed

subsection \<open>Every step keeps the invariant\<close>

lemma replace_own:
  assumes "replace_atomically env src dst w = (e, w')" and "replace_file_spec env"
    and "entries (kern w) (resolve (cwd env) src) = Some (FileEnt i)"
  shows "(\<exists>m x. e = Some (Wrapf m x)) \<and> kern w' = kern w \<or> e = None \<and> kern w' = renamed env src dst i (kern w)"
proof -
  obtain r k where rf: "replace_file env src dst (kern w) = (r, k)" by fastforce
  then have "case r of Some _ \<Rightarrow> k = kern w | None \<Rightarrow> k = renamed env src dst i (kern w)"
    using assms(2,3) unfolding replace_file_spec_def renamed_def by (fastforce split: option.splits)
  then show ?thesis using assms(1) rf by (auto simp: replace_atomically_def split: option.splits)
qed

lemma move_called:
  "write_inv J k0 (kern w) f \<Longrightarrow> f t = Called \<or> f t = Scanning cur ms \<Longrightarrow>
     write_move (J t) (f t) w = Some (c, w') \<Longrightarrow> write_inv J k0 (kern w') (f(t := c))"
  by (auto split: option.splits stat_result.splits if_splits intro!: write_inv_same)

lemma move_making:
  assumes "write_inv J k0 (kern w) f" and "jobs_ok J" and "f t = Making pre cs ms"
    and "write_move (J t) (f t) w = Some (c, w')"
  shows "write_inv J k0 (kern w') (f(t := c))"
proof (cases cs)
  case Nil
  then show ?thesis using assms by (auto split: option.splits intro!: write_inv_same dest: in_set_takeD)
next
  case (Cons d ds)
  have course: "pre @ cs = resolve (cwd (job_env (J t))) (job_dir (J t))"
    using write_invD(3) [OF assms(1), of t] assms(3) by simp
  show ?thesis
  proof (cases "entries (kern w) (pre @ [d]) = None \<and> mkdir_fault (job_env (J t)) (pre @ [d]) = None")
    case True
    then show ?thesis using assms(3,4) write_inv_mkdir [OF assms(1,2), of t pre d ds ms] by (auto simp: Cons)
  next
    case False
    then show ?thesis using assms(1,3,4) course
      by (auto simp: Cons split: option.splits entry.splits intro!: write_inv_same)
  qed
qed

lemma move_naming:
  assumes "write_inv J k0 (kern w) f" and "jobs_ok J" and "sources_ok J k0" and "f t = Naming ss ms"
    and "write_move (J t) (f t) w = Some (c, w')"
  shows "write_inv J k0 (kern w') (f(t := c))"
proof (cases ss)
  case Nil
  then show ?thesis using assms by (auto split: option.splits intro!: write_inv_same)
next
  case (Cons x xs)
  have course: "job_source (J t) = None" "set ss \<subseteq> set (suffixes (job_env (J t)))"
    using write_invD(3) [OF assms(1), of t] assms(4) by simp_all
  show ?thesis
  proof (cases "temp_fault (job_env (J t)) = None \<and>
      entries (kern w) (resolve (cwd (job_env (J t))) (temp_path (job_dir (J t)) x)) = None")
    case True
    then show ?thesis using assms(4,5)
        write_inv_create [OF assms(1-3), where t = t and x = x and ss = xs and ms = ms, OF _ refl]
      by (auto simp: Cons Let_def spot_def)
  next
    case False
    then show ?thesis using assms(1,4,5) course
      by (auto simp: Cons Let_def split: option.splits intro!: write_inv_same)
  qed
qed

lemma os_open_kern: "os_open env p w = (r, w') \<Longrightarrow> kern w' = kern w \<and>
    (\<forall>i. r = Inr i \<longrightarrow> entries (kern w) (resolve (cwd env) p) = Some (FileEnt i))"
  by (auto simp: os_open_def split: option.splits entry.splits)

lemma move_sourcing:
  assumes "write_inv J k0 (kern w) f" and "sources_ok J k0" and "f t = Sourcing p ms"
    and "write_move (J t) (f t) w = Some (c, w')"
  shows "write_inv J k0 (kern w') (f(t := c))"
proof -
  obtain r w1 where op: "os_open (job_env (J t)) p w = (r, w1)" by fastforce
  note o = os_open_kern [OF op]
  show ?thesis
  proof (cases r)
    case (Inl e)
    then show ?thesis using assms(1,3,4) op o by (auto intro!: write_inv_same)
  next
    case (Inr i)
    then show ?thesis using assms(3,4) op o write_inv_open [OF assms(1-3) refl, of i] by (auto simp: spot_def)
  qed
qed

text \<open>A flushed source is what its call delivers.\<close>

lemma source_delivers:
  assumes inv: "write_inv J k0 k f" and src: "sources_ok J k0" and pc: "f t = Syncing d" and n: "inodes k (temp_inode d) = Some n"
  shows "delivers k0 (J t) (n\<lparr>flushed := True\<rparr>)" and "temp_inode d < next_inode k0"
proof -
  have "job_source (J t) \<noteq> None" and rf: "rightful k0 (J t) d"
    using write_invD(3,4) [OF inv, of t] pc by simp_all
  with rf have so: "source_of (J t) = Some (spot (J t) d)" and k0: "entries k0 (spot (J t) d) = Some (FileEnt (temp_inode d))"
    by (auto elim: rightful_cases)
  note i = sources_okD(5) [OF src k0]
  then show "temp_inode d < next_inode k0" by simp
  have "same_data (inodes k0 (temp_inode d)) (Some n)" using write_invD(2) [OF inv conjunct1 [OF i]] n by simp
  then show "delivers k0 (J t) (n\<lparr>flushed := True\<rparr>)"
    using so k0 i by (auto simp: delivers_def same_data_def)
qed

lemma move_syncing_source:
  assumes "write_inv J k0 (kern w) f" and "sources_ok J k0" and "f t \<in> {Syncing d, Synced d}"
    and "write_move (J t) (f t) w = Some (c, w')"
  shows "write_inv J k0 (kern w') (f(t := c))"
proof -
  consider "f t = Syncing d" "fsync_fault (job_env (J t)) = None" | e where "f t = Syncing d" "fsync_fault (job_env (J t)) = Some e"
    | "f t = Synced d"
    using assms(3) by (cases "fsync_fault (job_env (J t))") auto
  then show ?thesis
  proof cases
    case 1
    then have "c = Synced d" "kern w' = upd_inode (temp_inode d) (flushed_update (\<lambda>_. True)) (kern w)"
      using assms(4) by (auto simp: os_fsync_def)
    then show ?thesis using 1 write_invD(3) [OF assms(1), of t] source_delivers(1) [OF assms(1,2) 1(1)]
      by (auto intro!: write_inv_fill [OF assms(1)])
  next
    case 2
    then show ?thesis using assms(1,4) by (auto simp: os_fsync_def os_close_def intro!: write_inv_same)
  next
    case 3
    then show ?thesis using assms(1,4) by (auto simp: os_close_def split: option.splits intro!: write_inv_same)
  qed
qed

lemma inode_filled: "content n = concat (chunks rd) \<Longrightarrow> perm n = mode \<Longrightarrow> n\<lparr>flushed := True\<rparr> = filled rd mode"
  by (simp add: filled_def)

lemma move_filling:
  assumes "write_inv J k0 (kern w) f" and "f t \<in> {Opened d, Copying d cs m, Copied d, Flushed d}"
    and "write_move (J t) (f t) w = Some (c, w')"
  shows "write_inv J k0 (kern w') (f(t := c))"
proof -
  have course: "job_source (J t) = None" and draft: "draft_of (f t) = Some d"
    using assms(2) write_invD(3) [OF assms(1), of t] by auto
  have "rightful k0 (J t) d" using write_invD(4) [OF assms(1) draft] by simp
  then have new: "\<not> temp_inode d < next_inode k0" using course by (auto simp: rightful_def)
  have del: "delivers k0 (J t) n \<longleftrightarrow> n = filled (job_reader (J t)) (job_mode (J t))" for n
    using course by (simp add: delivers_def source_of_def)
  consider "f t = Opened d" | "f t = Copying d [] m" | x xs where "f t = Copying d (x # xs) m" "cs = x # xs"
    | "f t = Copied d" | "f t = Flushed d"
    using assms(2) by (cases cs) auto
  then show ?thesis
  proof cases
    case 1
    show ?thesis
    proof (cases "chmod_fault (job_env (J t))")
      case None
      then show ?thesis using 1 assms(1,3) new course by (auto simp: os_chmod_def intro!: write_inv_fill)
    next
      case (Some e)
      then show ?thesis using 1 assms(1,3) course by (auto simp: os_chmod_def intro!: write_inv_same)
    qed
  next
    case 2
    then show ?thesis using assms(1,3) course by (auto split: option.splits intro!: write_inv_same)
  next
    case 3
    then show ?thesis using assms(1,3) new course
      by (auto simp: append_bytes_def split: option.splits intro!: write_inv_fill)
  next
    case 4
    show ?thesis
    proof (cases "fsync_fault (job_env (J t))")
      case None
      then show ?thesis using 4 assms(1,3) new course
        by (auto simp: os_fsync_def inode_filled del intro!: write_inv_fill)
    next
      case (Some e)
      then show ?thesis using 4 assms(1,3) course by (auto simp: os_fsync_def intro!: write_inv_same)
    qed
  next
    case 5
    then show ?thesis using assms(1,3) course by (auto simp: os_close_def split: option.splits intro!: write_inv_same)
  qed
qed

lemma move_locking:
  assumes "write_inv J k0 (kern w) f"
    and "f t \<in> {Closed d, Queued d p, Linking d p ps [], Releasing d p err, Parting d p err}"
    and "write_move (J t) (f t) w = Some (c, w')"
  shows "write_inv J k0 (kern w') (f(t := c))"
  using assms by (auto split: option.splits prod.splits intro!: write_inv_same)

lemma move_replacing:
  assumes "write_inv J k0 (kern w) f" and "jobs_ok J" and "sources_ok J k0" and "f t = Locked d p"
    and "write_move (J t) (f t) w = Some (c, w')"
  shows "write_inv J k0 (kern w') (f(t := c))"
proof -
  obtain e w1 where r: "replace_atomically (job_env (J t)) (temp_file d) (job_path (J t)) w = (e, w1)" by fastforce
  have "entries (kern w) (resolve (cwd (job_env (J t))) (temp_file d)) = Some (FileEnt (temp_inode d))"
    using write_invD(6) [OF assms(1), of t d] assms(4) by (simp add: spot_def)
  from replace_own [OF r jobs_okD(1) [OF assms(2)] this] show ?thesis
  proof (elim disjE conjE exE)
    fix m x
    assume "e = Some (Wrapf m x)" and "kern w1 = kern w"
    then show ?thesis using assms(1,4,5) r by (auto intro!: write_inv_same)
  next
    assume "e = None" and "kern w1 = renamed (job_env (J t)) (temp_file d) (job_path (J t)) (temp_inode d) (kern w)"
    then show ?thesis using assms(4,5) r write_inv_swap [OF assms(1-4)] by auto
  qed
qed

lemma move_syncing:
  assumes "write_inv J k0 (kern w) f" and "f t \<in> {Swapped d p, Settled d p, Linking d p ps (x # xs)}"
    and "write_move (J t) (f t) w = Some (c, w')"
  shows "write_inv J k0 (kern w') (f(t := c))"
proof -
  obtain e w1 where s: "sync_directory (job_env (J t)) (job_dir (J t)) w = (e, w1)" by fastforce
  obtain e2 w2 where s2: "sync_directory (job_env (J t)) (path_dir x) w = (e2, w2)" by fastforce
  obtain e3 w3 where s3: "sync_directory (job_env (J t)) (source_directory (job_transaction (J t) d)) w = (e3, w3)" by fastforce
  note inv = assms(1)
  consider "f t = Swapped d p" | "f t = Settled d p" "w' = w" | "f t = Settled d p" "w' = w3"
    | "f t = Linking d p ps (x # xs)" "w' = w" | "f t = Linking d p ps (x # xs)" "w' = w2" 
    using assms(2,3) s s2 s3
    by (auto simp: sync_source_directory_def Let_def split: option.splits prod.splits if_splits)
  then show ?thesis
  proof cases
    case 1
    then have "w' = w1" "c = Settled d p \<or> (\<exists>x. c = Releasing d p (Some (committed x)))"
      using assms(3) s by (auto simp: half_done_def split: option.splits)
    then show ?thesis using 1 by (auto intro!: write_inv_sync_directory [OF s inv])
  next
    case 2
    then have "c = Linking d p [] (made d) \<or> (\<exists>x. c = Releasing d p (Some (committed x)))"
      using assms(3) by (auto simp: half_done_def split: option.splits prod.splits)
    then show ?thesis using 2 inv by (auto intro!: write_inv_same)
  next
    case 3
    then have "c = Linking d p [] (made d) \<or> (\<exists>x. c = Releasing d p (Some (committed x)))"
      using assms(3) by (auto simp: half_done_def split: option.splits prod.splits)
    then show ?thesis using 3 by (auto intro!: write_inv_sync_directory [OF s3 inv])
  next
    case 4
    then have "(\<exists>qs. c = Linking d p qs xs) \<or> (\<exists>x. c = Releasing d p (Some (committed x)))"
      using assms(3) by (auto simp: half_done_def Let_def split: option.splits prod.splits if_splits)
    then show ?thesis using 4 inv by (auto intro!: write_inv_same)
  next
    case 5
    then have "(\<exists>qs. c = Linking d p qs xs) \<or> (\<exists>x. c = Releasing d p (Some (committed x)))"
      using assms(3) by (auto simp: half_done_def Let_def split: option.splits prod.splits if_splits)
    then show ?thesis using 5 by (auto intro!: write_inv_sync_directory [OF s2 inv])
  qed
qed

lemma write_move_inv:
  assumes inv: "write_inv J k0 (kern w) f" and ok: "jobs_ok J" and src: "sources_ok J k0" and m: "write_move (J t) (f t) w = Some (c, w')"
  shows "write_inv J k0 (kern w') (f(t := c))"
proof (cases "f t")
  case (Linking d p ps ds)
  then show ?thesis using move_locking [OF inv _ m, of d p ps] move_syncing [OF inv _ m, of d p ps]
    by (cases ds) auto
next
  case (Deferred d i err)
  then show ?thesis using m write_inv_cleanup [OF inv ok src Deferred] by auto
next
  case (Returned d err)
  then show ?thesis using m by simp
next
  case Called
  show ?thesis by (rule move_called [where cur = "[]" and ms = "[]", OF inv _ m]) (simp add: Called)
next
  case (Scanning cur ms)
  show ?thesis by (rule move_called [where cur = cur and ms = ms, OF inv _ m]) (simp add: Scanning)
next
  case (Making pre cs ms)
  show ?thesis by (rule move_making [OF inv ok _ m]) (rule Making)
next
  case (Naming ss ms)
  show ?thesis by (rule move_naming [OF inv ok src _ m]) (rule Naming)
next
  case (Sourcing p ms)
  show ?thesis by (rule move_sourcing [OF inv src _ m]) (rule Sourcing)
next
  case (Syncing d)
  show ?thesis by (rule move_syncing_source [where d = d, OF inv src _ m]) (simp add: Syncing)
next
  case (Synced d)
  show ?thesis by (rule move_syncing_source [where d = d, OF inv src _ m]) (simp add: Synced)
next
  case (Opened d)
  show ?thesis by (rule move_filling [where d = d and cs = "[]" and m = 0, OF inv _ m]) (simp add: Opened)
next
  case (Copying d cs n)
  show ?thesis by (rule move_filling [where d = d and cs = cs and m = n, OF inv _ m]) (simp add: Copying)
next
  case (Copied d)
  show ?thesis by (rule move_filling [where d = d and cs = "[]" and m = 0, OF inv _ m]) (simp add: Copied)
next
  case (Flushed d)
  show ?thesis by (rule move_filling [where d = d and cs = "[]" and m = 0, OF inv _ m]) (simp add: Flushed)
next
  case (Closed d)
  show ?thesis by (rule move_locking [where d = d and p = 0 and ps = "[]" and err = None, OF inv _ m]) (simp add: Closed)
next
  case (Queued d p)
  show ?thesis by (rule move_locking [where d = d and p = p and ps = "[]" and err = None, OF inv _ m]) (simp add: Queued)
next
  case (Locked d p)
  show ?thesis by (rule move_replacing [OF inv ok src _ m]) (rule Locked)
next
  case (Swapped d p)
  show ?thesis by (rule move_syncing [where d = d and p = p and ps = "[]" and x = "[]" and xs = "[]", OF inv _ m]) (simp add: Swapped)
next
  case (Settled d p)
  show ?thesis by (rule move_syncing [where d = d and p = p and ps = "[]" and x = "[]" and xs = "[]", OF inv _ m]) (simp add: Settled)
next
  case (Releasing d p err)
  show ?thesis by (rule move_locking [where d = d and p = p and ps = "[]" and err = err, OF inv _ m]) (simp add: Releasing)
next
  case (Parting d p err)
  show ?thesis by (rule move_locking [where d = d and p = p and ps = "[]" and err = err, OF inv _ m]) (simp add: Parting)
qed

lemma write_start_inv: "write_start k0 s \<Longrightarrow> write_inv J k0 (kern (files s)) (stage s)"
  by (rule write_invI) (auto simp: write_start_def served_def)

lemma write_reachable_inv:
  assumes "jobs_ok J" and "sources_ok J k0" and "write_reachable J k0 s"
  shows "write_inv J k0 (kern (files s)) (stage s)"
proof -
  from assms(3) obtain s0 where start: "write_start k0 s0" and run: "(writer_step J)\<^sup>*\<^sup>* s0 s"
    by (auto simp: write_reachable_def)
  from run show ?thesis
  proof (induction rule: rtranclp_induct)
    case base
    show ?case by (rule write_start_inv [OF start])
  next
    case (step a b)
    from step.hyps(2) show ?case
      by cases (use write_move_inv [OF step.IH assms(1,2)] in \<open>simp del: fun_upd_apply\<close>)
  qed
qed


subsection \<open>Calls for the witnesses\<close>

text \<open>
  Any number of calls for the file \<open>/f\<close>, each with a random number of its own; the one with number 2
  replaces it by the file \<open>/g\<close>.
\<close>

definition demo_jobs :: "nat \<Rightarrow> write_job" where
  "demo_jobs t = \<lparr>job_env = demo_env\<lparr>suffixes := [t]\<rparr>, job_path = ''/f'',
     job_source = (if t = 2 then Some ''/g'' else None), job_reader = demo_reader,
     job_mode = 384, job_dir_mode = 448\<rparr>"

definition two_files :: kernel where
  "two_files = \<lparr>entries = [[] \<mapsto> DirEnt 493, [''f''] \<mapsto> FileEnt 0, [''g''] \<mapsto> FileEnt 1],
     stable = [[] \<mapsto> DirEnt 493, [''f''] \<mapsto> FileEnt 0, [''g''] \<mapsto> FileEnt 1],
     inodes = [0 \<mapsto> \<lparr>content = ''old'', perm = 420, flushed = True\<rparr>,
       1 \<mapsto> \<lparr>content = ''moved'', perm = 420, flushed = False\<rparr>], next_inode = 2\<rparr>"

definition demo_writers :: writers where
  "demo_writers = \<lparr>files = demo_world\<lparr>kern := two_files\<rparr>, stage = (\<lambda>_. Called)\<rparr>"

lemma demo_g: "resolve [] ''/g'' = [''g'']" "path_dir ''/g'' = ''/''"
  by code_simp+

lemma demo_beside: "beside (demo_jobs t) c = [c]"
  by (simp add: beside_def demo_jobs_def demo_env_def job_dir_def demo_paths)

lemma demo_target: "target (demo_jobs t) = [''f'']"
  by (simp add: target_def demo_jobs_def demo_env_def demo_paths)

lemma demo_source: "source_of (demo_jobs t) = (if t = 2 then Some [''g''] else None)"
  by (simp add: source_of_def demo_jobs_def demo_env_def demo_g)

lemma demo_jobs_ok: "jobs_ok demo_jobs"
proof -
  have "replace_file_spec (demo_env\<lparr>suffixes := [t]\<rparr>)" for t
    by (rule replace_file_spec_cong [OF demo_spec]) simp_all
  moreover have "plain_name (last_element ''/f'')" by code_simp
  moreover have "temp_name x \<noteq> last_element ''/f''" for x
    by (simp add: temp_name_def last_element_def)
  moreover have "resolve (cwd (job_env (demo_jobs t))) (job_dir (demo_jobs t)) = []" for t
    using demo_beside [of t] by (simp add: beside_def)
  ultimately show ?thesis unfolding jobs_ok_def demo_target
    by (simp add: demo_jobs_def)
qed

lemma demo_sources_ok: "sources_ok demo_jobs two_files"
  by (simp add: sources_ok_def demo_source demo_target demo_beside two_files_def temp_name_def)

lemma demo_writers_start: "write_start two_files demo_writers"
  by (simp add: write_start_def demo_writers_def demo_world_def)

lemma demo_reachable: "write_schedule demo_jobs ts demo_writers = Some s \<Longrightarrow> write_reachable demo_jobs two_files s"
  unfolding write_reachable_def using demo_writers_start write_schedule_steps by blast

lemma schedule_result: "map_option g (write_schedule J ts s) = Some x \<Longrightarrow>
    write_schedule J ts s = Some (the (write_schedule J ts s)) \<and> g (the (write_schedule J ts s)) = x"
  by (cases "write_schedule J ts s") auto

lemma demo_temps:
  "temp_path ''/'' 0 = ''/.durable-0.tmp''" "temp_path ''/'' 1 = ''/.durable-1.tmp''"
  "temp_path ''/'' (Suc 0) = ''/.durable-1.tmp''"
  "resolve [] ''/.durable-0.tmp'' = [''.durable-0.tmp'']" "resolve [] ''/.durable-1.tmp'' = [''.durable-1.tmp'']"
  "validate_path_and_directory_mode ''/f'' 448 = None"
  by code_simp+

lemmas race_eval = demo_writers_def demo_jobs_def two_files_def job_dir_def job_key_def job_check_def job_transaction_def
  os_open_def demo_temps demo_g write_eval demo_defs demo_paths [unfolded demo_defs]

text \<open>
  Two calls of \<open>WriteReader\<close> and one of \<open>Replace\<close>, step by step in turn: the replacement has just happened,
  one writer waits, the other is in the middle of its data.
\<close>

definition demo_race :: writers where
  "demo_race = the (write_schedule demo_jobs
     [0, 1, 2, 0, 1, 2, 0, 1, 2, 0, 1, 2, 0, 1, 2, 0, 1, 2, 2, 2, 2, 0, 0, 0, 0, 0] demo_writers)"

lemma demo_race_run:
  "map_option (\<lambda>s. (stage s 0, stage s 1, stage s 2)) (write_schedule demo_jobs
     [0, 1, 2, 0, 1, 2, 0, 1, 2, 0, 1, 2, 0, 1, 2, 0, 1, 2, 2, 2, 2, 0, 0, 0, 0, 0] demo_writers) =
   Some (Queued \<lparr>temp_file = ''/.durable-0.tmp'', temp_inode = 2, made = []\<rparr> 0,
     Copying \<lparr>temp_file = ''/.durable-1.tmp'', temp_inode = 3, made = []\<rparr> [''w''] 1,
     Swapped \<lparr>temp_file = ''/g'', temp_inode = 1, made = []\<rparr> 0)"
  by (simp add: race_eval)

lemmas demo_race_result = schedule_result [OF demo_race_run, folded demo_race_def]

subsection \<open>Safety\<close>

text \<open>
  A file that a call delivers: for \<open>WriteReader\<close> what its reader gives, with the requested mode; for
  \<open>Replace\<close> content and mode of the source as they were at first. Its data is flushed.
\<close>

definition complete_file :: "kernel \<Rightarrow> write_job \<Rightarrow> inode \<Rightarrow> bool" where
  "complete_file k0 j n \<longleftrightarrow> flushed n \<and>
     (case source_of j of
        None \<Rightarrow> content n = concat (chunks (job_reader j)) \<and> perm n = job_mode j
      | Some q \<Rightarrow> \<exists>i n0. entries k0 q = Some (FileEnt i) \<and> inodes k0 i = Some n0 \<and>
          content n = content n0 \<and> perm n = perm n0)"

lemma delivers_complete: "delivers k0 j n \<Longrightarrow> complete_file k0 j n"
  by (auto simp: delivers_def complete_file_def filled_def split: option.splits)

lemma committed_delivers:
  assumes "write_inv J k0 k f" and "committed_as (f t) = Some d"
  shows "\<exists>n. inodes k (temp_inode d) = Some n \<and> delivers k0 (J t) n"
proof -
  obtain n where "inodes k (temp_inode d) = Some n" "progress k0 (J t) (f t) n"
    using write_invD(4) [OF assms(1) committed_draft [OF assms(2)]] by blast
  moreover from this(2) assms(2) have "delivers k0 (J t) n" by (cases "f t") auto
  ultimately show ?thesis by blast
qed

text \<open>
  C2. Concurrent crash safety: whatever calls of \<open>WriteReader\<close> and \<open>Replace\<close> run at the same time, in whatever interleaving of their
  system calls, and whichever of them fail, a crash at any moment leaves of a destination what was there at
  first or the complete, flushed file of one of the calls for this destination; never a part of a
  file or a mixture. Files that existed before keep content and mode.
\<close>

theorem concurrent_crash_safe:
  assumes "jobs_ok J" and "sources_ok J k0" and "write_reachable J k0 s"
    and "crash_view (kern (files s)) (target (J t)) e"
  shows "(e = entries k0 (target (J t)) \<or> e = stable k0 (target (J t)) \<or>
      (\<exists>u i n. target (J u) = target (J t) \<and> e = Some (FileEnt i) \<and>
        inodes (kern (files s)) i = Some n \<and> complete_file k0 (J u) n)) \<and>
    (\<forall>i < next_inode k0. map_option content (inodes (kern (files s)) i) = map_option content (inodes k0 i) \<and>
       map_option perm (inodes (kern (files s)) i) = map_option perm (inodes k0 i))"
proof -
  let ?k = "kern (files s)" and ?old = "{entries k0 (target (J t)), stable k0 (target (J t))}"
  have inv: "write_inv J k0 ?k (stage s)" by (rule write_reachable_inv [OF assms(1-3)])
  have "served J (stage s) (target (J t)) ?old e"
    using assms(4) write_invD(9) [OF inv] served_more [OF write_invD(8) [OF inv]] by (auto simp: crash_view_def)
  then have "e \<in> ?old \<or> (\<exists>u i n. target (J u) = target (J t) \<and> e = Some (FileEnt i) \<and> inodes ?k i = Some n \<and>
      complete_file k0 (J u) n)"
    unfolding served_def using committed_delivers [OF inv] delivers_complete by blast
  moreover have "map_option content b = map_option content a \<and> map_option perm b = map_option perm a"
    if "same_data a b" for a b :: "inode option"
    using that by (cases a; cases b) (auto simp: same_data_def dest: arg_cong [where f = content] arg_cong [where f = perm])
  ultimately show ?thesis using write_invD(2) [OF inv] by blast
qed

theorem concurrent_crash_safe_witness:
  "entries (kern (files demo_race)) [''f''] = Some (FileEnt 0) \<or>
   (\<exists>u i n. entries (kern (files demo_race)) [''f''] = Some (FileEnt i) \<and>
     inodes (kern (files demo_race)) i = Some n \<and> complete_file two_files (demo_jobs u) n)"
proof -
  have "crash_view (kern (files demo_race)) (target (demo_jobs 1)) (entries (kern (files demo_race)) [''f''])"
    by (simp add: crash_view_def demo_target)
  from concurrent_crash_safe [OF demo_jobs_ok demo_sources_ok demo_reachable [OF conjunct1 [OF demo_race_result]] this]
  show ?thesis by (auto simp: demo_target two_files_def)
qed

text \<open>A call of \<open>Replace\<close> that has not replaced leaves its source where it is.\<close>

lemma source_stays:
  assumes "jobs_ok J" and "sources_ok J k0" and "write_reachable J k0 s"
    and "source_of (J t) = Some q" and "committed_as (stage s t) = None" and "entries k0 q \<noteq> None"
  shows "entries (kern (files s)) q = entries k0 q"
  using write_invD(7) [OF write_reachable_inv [OF assms(1-3)] assms(4,5)] assms(6) by (auto simp: left_alone_def)

end
