(* ===== verification/Durable_Exclusive.thy ===== *)
theory Durable_Exclusive
  imports Durable_Interleaved
begin

section \<open>What the destination locks are for\<close>

text \<open>
  The calls of \<open>Durable_Threads\<close> drive the lock registry of \<open>Durable_Lock\<close>: seen from the registry they are
  its threads, so mutual exclusion and the other facts about it hold for them. They give that a
  call which reports success has its own file at the destination, also after a crash, although others write
  the same destination at the same time, and that no schedule gets stuck.
\<close>

subsection \<open>Calls are threads of the lock registry\<close>

fun lock_stage :: "string \<Rightarrow> write_pc \<Rightarrow> lock_pc" where
  "lock_stage k (Queued d p) = Waiting k p"
| "lock_stage k (Locked d p) = Inside k p"
| "lock_stage k (Swapped d p) = Inside k p"
| "lock_stage k (Settled d p) = Inside k p"
| "lock_stage k (Linking d p ps ds) = Inside k p"
| "lock_stage k (Releasing d p err) = Inside k p"
| "lock_stage k (Parting d p err) = Leaving k p"
| "lock_stage k _ = Out"

definition lock_view :: "(nat \<Rightarrow> write_job) \<Rightarrow> writers \<Rightarrow> lock_sys" where
  "lock_view J s = \<lparr>reg = lockreg (files s), pcs = (\<lambda>t. lock_stage (job_key (J t)) (stage s t))\<rparr>"

lemma lockreg_kept:
  fixes w w' :: file_world
  shows "os_chmod env i mode w = (e, w') \<Longrightarrow> lockreg w' = lockreg w"
    and "os_fsync env i w = (e, w') \<Longrightarrow> lockreg w' = lockreg w"
    and "os_close env i w = (e, w') \<Longrightarrow> lockreg w' = lockreg w"
    and "os_remove env p w = (e, w') \<Longrightarrow> lockreg w' = lockreg w"
    and "replace_atomically env src dst w = (e, w') \<Longrightarrow> lockreg w' = lockreg w"
    and "sync_directory env p w = (e, w') \<Longrightarrow> lockreg w' = lockreg w"
    and "os_open env p w = (r, w') \<Longrightarrow> lockreg w' = lockreg w"
  by (auto simp: os_open_def os_chmod_def os_fsync_def os_close_def os_remove_def replace_atomically_def sync_directory_def
      split: option.splits entry.splits prod.splits)

lemma lockreg_cleanup: "lockreg (cleanup env tmp err i w) = lockreg w"
  by (auto simp: cleanup_def os_close_def os_remove_def Let_def split: option.splits entry.splits)

lemma lockreg_source: "sync_source_directory env (sync_directory env) tx w = (e, w') \<Longrightarrow> lockreg w' = lockreg w"
  by (auto simp: sync_source_directory_def dest: lockreg_kept(6) split: if_splits)

text \<open>What a step does to the registry.\<close>

lemma write_move_lock:
  assumes "write_move j c w = Some (c', w')"
  shows "case c of
      Closed d \<Rightarrow> \<exists>p. lock_enter (job_key j) (lockreg w) = (p, lockreg w') \<and> c' = Queued d p
    | Queued d p \<Rightarrow> lock_mu p (lockreg w) = Some (lockreg w') \<and> c' = Locked d p
    | Releasing d p err \<Rightarrow> lockreg w' = unlock_mu p (lockreg w) \<and> c' = Parting d p err
    | Parting d p err \<Rightarrow> lockreg w' = lock_exit (job_key j) p (lockreg w) \<and> lock_stage (job_key j) c' = Out
    | _ \<Rightarrow> lockreg w' = lockreg w \<and> lock_stage (job_key j) c' = lock_stage (job_key j) c"
proof (cases c)
  case (Making pre cs ms)
  with assms show ?thesis by (cases cs) (auto split: option.splits entry.splits)
next
  case (Naming ss ms)
  with assms show ?thesis by (cases ss) (auto simp: Let_def split: option.splits if_splits)
next
  case (Sourcing src ms)
  with assms show ?thesis by (auto dest: lockreg_kept split: sum.splits prod.splits)
next
  case (Syncing d)
  with assms show ?thesis by (auto simp: os_close_def dest: lockreg_kept split: option.splits prod.splits)
next
  case (Synced d)
  with assms show ?thesis by (auto dest: lockreg_kept split: option.splits prod.splits)
next
  case (Opened d)
  with assms show ?thesis by (auto dest: lockreg_kept split: option.splits prod.splits)
next
  case (Copying d cs n)
  with assms show ?thesis by (cases cs) (auto split: option.splits)
next
  case (Copied d)
  with assms show ?thesis by (auto dest: lockreg_kept split: option.splits prod.splits)
next
  case (Flushed d)
  with assms show ?thesis by (auto dest: lockreg_kept split: option.splits prod.splits)
next
  case (Locked d p)
  with assms show ?thesis by (auto dest: lockreg_kept split: option.splits prod.splits)
next
  case (Swapped d p)
  with assms show ?thesis by (auto dest: lockreg_kept split: option.splits prod.splits)
next
  case (Settled d p)
  with assms show ?thesis by (auto dest: lockreg_source split: option.splits prod.splits)
next
  case (Linking d p ps ds)
  with assms show ?thesis
    by (cases ds) (auto simp: Let_def dest: lockreg_kept split: option.splits prod.splits if_splits)
next
  case (Deferred d i err)
  with assms show ?thesis by (auto simp: lockreg_cleanup)
qed (use assms in \<open>auto split: option.splits prod.splits stat_result.splits if_splits\<close>)

text \<open>A step of a call is a step of the registry, or none.\<close>

lemma lock_view_step:
  assumes "writer_step J s s'"
  shows "lock_view J s' = lock_view J s \<or> lock_step (lock_view J s) (lock_view J s')"
  using assms
proof cases
  case (moves t c w)
  let ?k = "job_key (J t)" and ?v = "lock_view J s"
  have v: "lock_view J s' = ?v\<lparr>reg := lockreg w, pcs := (pcs ?v)(t := lock_stage ?k c)\<rparr>"
    by (auto simp: moves(1) lock_view_def)
  have pc: "pcs ?v t = lock_stage ?k (stage s t)" and rg: "reg ?v = lockreg (files s)"
    by (simp_all add: lock_view_def)
  have same: "lock_view J s' = ?v" if "lockreg w = lockreg (files s) \<and> lock_stage ?k c = lock_stage ?k (stage s t)"
    using that by (auto simp: moves(1) lock_view_def fun_eq_iff)
  note m = write_move_lock [OF moves(2)]
  show ?thesis
  proof (cases "stage s t")
    case (Closed d)
    with m obtain p where "lock_enter ?k (lockreg (files s)) = (p, lockreg w)" "c = Queued d p" by auto
    with v pc rg Closed show ?thesis using lock_step.enter [of ?v t ?k p "lockreg w"] by simp
  next
    case (Queued d p)
    with m v pc rg show ?thesis using lock_step.acquire [of ?v t ?k p "lockreg w"] by simp
  next
    case (Releasing d p err)
    with m v pc rg show ?thesis using lock_step.unlock [of ?v t ?k p] by simp
  next
    case (Parting d p err)
    with m v pc rg show ?thesis using lock_step.leave [of ?v t ?k p] by simp
  qed (use m same in simp_all)
qed

lemma lock_view_reachable:
  assumes "write_reachable J k0 s"
  shows "lock_reachable (lock_view J s)"
proof -
  from assms obtain s0 where start: "write_start k0 s0" and run: "(writer_step J)\<^sup>*\<^sup>* s0 s"
    by (auto simp: write_reachable_def)
  from run show ?thesis
  proof (induction rule: rtranclp_induct)
    case base
    have "lock_view J s0 = init_lock_sys" using start by (simp add: write_start_def lock_view_def init_lock_sys_def)
    then show ?case using lock_reachable.start by simp
  next
    case (step a b)
    then show ?case using lock_view_step [OF step.hyps(2)] lock_reachable.step by auto
  qed
qed

subsection \<open>Keys name destinations\<close>

text \<open>The working directory the program is told is the one the kernel uses.\<close>

definition at_home :: "write_job \<Rightarrow> bool" where
  "at_home j \<longleftrightarrow> (\<exists>g. getwd (job_env j) = Inr g \<and> path_is_abs g \<and> resolve [] g = cwd (job_env j))"

lemma path_clean_abs: "path_is_abs p \<Longrightarrow> path_clean p = slash # join_on slash (resolve wd p)"
  by (simp add: path_clean_def resolve_def clean_elements_def)

lemma lock_key_target:
  assumes "path_is_abs g" and "resolve [] g = wd"
  shows "lock_key (Inr g) p = slash # join_on slash (resolve wd p)"
proof (cases "path_is_abs p")
  case True
  then show ?thesis using path_clean_abs by (simp add: lock_key_def path_abs_def)
next
  case rel: False
  have g: "g \<noteq> []" using assms(1) by (auto simp: path_is_abs_def)
  show ?thesis
  proof (cases "p = []")
    case True
    then show ?thesis using rel g path_clean_abs [OF assms(1), of "[]"] assms(2)
      by (simp add: lock_key_def path_abs_def path_join_def) (simp add: resolve_def path_is_abs_def)
  next
    case False
    have abs: "path_is_abs (g @ slash # p)" using assms(1) by (cases g) (simp_all add: path_is_abs_def)
    have "resolve wd (g @ slash # p) = resolve wd p"
      using abs rel assms split_on_append_sep [of slash g p] by (simp add: resolve_def) (metis rev_rev_ident)
    then show ?thesis using rel False g path_clean_abs [OF abs, of wd] by (simp add: lock_key_def path_abs_def path_join_def)
  qed
qed

lemma same_target_same_key:
  assumes "at_home (J t)" and "at_home (J u)" and "target (J t) = target (J u)"
  shows "job_key (J t) = job_key (J u)"
  using assms lock_key_target by (auto simp: at_home_def job_key_def target_def)

subsection \<open>While a call holds its destination\<close>

text \<open>The replacement has happened and the lock is held; and, after the sync of the directory, no sync has failed.\<close>

fun holding :: "write_pc \<Rightarrow> draft option" where
  "holding (Swapped d p) = Some d"
| "holding (Settled d p) = Some d"
| "holding (Linking d p ps ds) = Some d"
| "holding (Releasing d p err) = (if succeeded err then Some d else None)"
| "holding _ = None"

fun safe_now :: "write_pc \<Rightarrow> draft option" where
  "safe_now (Settled d p) = Some d"
| "safe_now (Linking d p ps ds) = Some d"
| "safe_now (Releasing d p err) = (if err = None then Some d else None)"
| "safe_now _ = None"

definition holds_own :: "(nat \<Rightarrow> write_job) \<Rightarrow> kernel \<Rightarrow> (nat \<Rightarrow> write_pc) \<Rightarrow> bool" where
  "holds_own J k f \<longleftrightarrow>
     (\<forall>t d. holding (f t) = Some d \<longrightarrow> entries k (target (J t)) = Some (FileEnt (temp_inode d))) \<and>
     (\<forall>t d. safe_now (f t) = Some d \<longrightarrow> stable k (target (J t)) = Some (FileEnt (temp_inode d)))"

lemma holding_inside: "holding c = Some d \<Longrightarrow> \<exists>p. lock_stage k c = Inside k p"
  by (cases c) auto

lemma safe_holding: "safe_now c = Some d \<Longrightarrow> holding c = Some d"
  by (cases c) (auto split: if_splits)

lemma kernel_updates [simp]:
  "entries (upd_inode i g k) = entries k" "stable (upd_inode i g k) = stable k"
  "stable (add_dir env q mode k) = stable k" "stable (add_file env q i k) = stable k"
  by (simp_all add: upd_inode_def add_dir_def add_file_def)

lemma sync_directory_entries:
  "sync_directory env p w = (e, w') \<Longrightarrow> entries (kern w') = entries (kern w) \<and>
     (stable (kern w') q = stable (kern w) q \<or> stable (kern w') q = entries (kern w) q)"
  using unix_sync.sync_only_stable [of env p w e w'] by (auto simp: sync_update_def)

lemma sync_source_entries:
  "sync_source_directory env (sync_directory env) tx w = (e, w') \<Longrightarrow> entries (kern w') = entries (kern w) \<and>
     (stable (kern w') q = stable (kern w) q \<or> stable (kern w') q = entries (kern w) q)"
  using sync_directory_entries [of env "source_directory tx" w e w'] by (auto simp: sync_source_directory_def split: if_splits)

definition target_kept :: "write_job \<Rightarrow> kernel \<Rightarrow> kernel \<Rightarrow> bool" where
  "target_kept j k k' \<longleftrightarrow> entries k' (target j) = entries k (target j) \<and>
     (stable k' (target j) = stable k (target j) \<or> stable k' (target j) = entries k (target j))"

lemma target_kept_refl [simp]: "target_kept j k k"
  by (simp add: target_kept_def)

lemma target_kept_sync:
  "sync_directory env p w = (e, w') \<Longrightarrow> target_kept j (kern w) (kern w')"
  "sync_source_directory env (sync_directory env) tx w = (e, w') \<Longrightarrow> target_kept j (kern w) (kern w')"
  by (simp_all add: target_kept_def sync_directory_entries sync_source_entries)

text \<open>Only the replacement itself changes what a destination is.\<close>

lemma write_move_targets:
  assumes inv: "write_inv J k0 (kern w) f" and ok: "jobs_ok J" and src: "sources_ok J k0" and m: "write_move (J t) (f t) w = Some (c, w')"
  shows "(\<exists>d p. f t = Locked d p) \<or> target_kept (J u) (kern w) (kern w')"
proof (cases "f t")
  case (Making pre cs ms)
  have course: "pre @ cs = resolve (cwd (job_env (J t))) (job_dir (J t))"
    using write_invD(3) [OF inv, of t] Making by simp
  show ?thesis
  proof (cases cs)
    case (Cons d ds)
    have "prefix (pre @ [d]) (resolve (cwd (job_env (J t))) (job_dir (J t)))"
      using course Cons by (metis Cons_eq_appendI append_assoc append_self_conv2 prefixI)
    then have "target (J u) \<noteq> pre @ [d]" using jobs_okD(5) [OF ok, of u t] by auto
    then show ?thesis using m Making Cons
      by (auto simp: target_kept_def add_dir_def split: option.splits entry.splits)
  qed (use m Making in \<open>auto split: option.splits\<close>)
next
  case (Naming ss ms)
  show ?thesis
  proof (cases ss)
    case (Cons x xs)
    have "x \<in> set (suffixes (job_env (J t)))" using write_invD(3) [OF inv, of t] Naming Cons by simp
    from temp_not_target [OF ok this, of u]
    have "target (J u) \<noteq> resolve (cwd (job_env (J t))) (temp_path (job_dir (J t)) x)"
      by (auto simp: beside_temp)
    then show ?thesis using m Naming Cons
      by (auto simp: target_kept_def add_file_def Let_def split: option.splits if_splits)
  qed (use m Naming in \<open>auto split: option.splits\<close>)
next
  case (Sourcing p ms)
  with m show ?thesis by (auto dest: os_open_kern split: sum.splits prod.splits)
next
  case (Syncing d)
  with m show ?thesis by (auto simp: os_fsync_def os_close_def target_kept_def split: option.splits)
next
  case (Synced d)
  with m show ?thesis by (auto simp: os_close_def split: option.splits)
next
  case (Opened d)
  with m show ?thesis by (auto simp: os_chmod_def target_kept_def split: option.splits)
next
  case (Copying d cs n)
  with m show ?thesis by (cases cs) (auto simp: target_kept_def split: option.splits)
next
  case (Copied d)
  with m show ?thesis by (auto simp: os_fsync_def target_kept_def split: option.splits)
next
  case (Flushed d)
  with m show ?thesis by (auto simp: os_close_def split: option.splits)
next
  case (Swapped d p)
  with m show ?thesis by (auto dest: target_kept_sync split: option.splits prod.splits)
next
  case (Settled d p)
  with m show ?thesis by (auto dest: target_kept_sync split: option.splits prod.splits)
next
  case (Linking d p ps ds)
  with m show ?thesis
    by (cases ds) (auto simp: Let_def dest: target_kept_sync split: option.splits prod.splits if_splits)
next
  case (Deferred d i err)
  have rf: "rightful k0 (J t) d" using write_invD(4) [OF inv, of t d] Deferred by simp
  have "kern w' = kern w \<or> kern w' = (kern w)\<lparr>entries := (entries (kern w))(spot (J t) d := None)\<rparr>"
    using cleanup_removes [of "job_env (J t)" "temp_file d" err i w] m Deferred by (auto simp: spot_def)
  then show ?thesis using spot_not_target [OF ok src rf, of u] by (auto simp: target_kept_def)
qed (use m in \<open>auto split: option.splits prod.splits stat_result.splits if_splits\<close>)

text \<open>How a call comes to hold its destination.\<close>

lemma write_move_holding:
  assumes "write_move j c w = Some (c', w')" and "holding c' = Some d"
  shows "holding c = Some d \<or> (\<exists>p. c = Locked d p)"
proof (cases c)
  case (Making pre cs ms)
  with assms show ?thesis by (cases cs) (auto split: option.splits entry.splits)
next
  case (Naming ss ms)
  with assms show ?thesis by (cases ss) (auto simp: Let_def split: option.splits if_splits)
next
  case (Copying d cs n)
  with assms show ?thesis by (cases cs) (auto split: option.splits)
next
  case (Locked d p)
  with assms show ?thesis
    by (auto simp: replace_atomically_def split: option.splits prod.splits if_splits)
next
  case (Linking d p ps ds)
  with assms show ?thesis
    by (cases ds) (auto simp: Let_def split: option.splits prod.splits if_splits)
qed (use assms in \<open>auto split: option.splits prod.splits sum.splits stat_result.splits if_splits\<close>)

lemma write_move_safe:
  assumes "write_move j c w = Some (c', w')" and "safe_now c' = Some d"
  shows "safe_now c = Some d \<or> (\<exists>p. c = Swapped d p \<and> sync_directory (job_env j) (job_dir j) w = (None, w'))"
proof (cases c)
  case (Making pre cs ms)
  with assms show ?thesis by (cases cs) (auto split: option.splits entry.splits)
next
  case (Naming ss ms)
  with assms show ?thesis by (cases ss) (auto simp: Let_def split: option.splits if_splits)
next
  case (Copying d cs n)
  with assms show ?thesis by (cases cs) (auto split: option.splits)
next
  case (Linking d p ps ds)
  with assms show ?thesis
    by (cases ds) (auto simp: Let_def split: option.splits prod.splits if_splits)
qed (use assms in \<open>auto split: option.splits prod.splits sum.splits stat_result.splits if_splits\<close>)

text \<open>Nobody else replaces a destination while a call holds it.\<close>

lemma swap_is_alone:
  assumes "lock_reachable (lock_view J s)" and "\<And>t. at_home (J t)"
    and "stage s t = Locked d p" and "holding (stage s u) = Some e" and "target (J u) = target (J t)"
  shows "u = t"
proof -
  obtain q where "lock_stage (job_key (J u)) (stage s u) = Inside (job_key (J u)) q"
    using holding_inside [OF assms(4)] by blast
  moreover have "job_key (J u) = job_key (J t)" by (rule same_target_same_key [where t = u]) (rule assms)+
  ultimately have "pcs (lock_view J s) u = Inside (job_key (J t)) q" "pcs (lock_view J s) t = Inside (job_key (J t)) p"
    using assms(3) by (simp_all add: lock_view_def)
  then show ?thesis by (rule inside_unique [OF assms(1)])
qed

lemma holds_own_swap:
  assumes inv: "write_inv J k0 (kern (files s)) (stage s)" and ok: "jobs_ok J" and src: "sources_ok J k0" and home: "\<And>t. at_home (J t)"
    and lock: "lock_reachable (lock_view J s)" and own: "holds_own J (kern (files s)) (stage s)"
    and pc: "stage s t = Locked d p" and m: "write_move (J t) (stage s t) (files s) = Some (c, w)"
  shows "holds_own J (kern w) ((stage s)(t := c))"
proof -
  obtain e w1 where r: "replace_atomically (job_env (J t)) (temp_file d) (job_path (J t)) (files s) = (e, w1)" by fastforce
  have "entries (kern (files s)) (resolve (cwd (job_env (J t))) (temp_file d)) = Some (FileEnt (temp_inode d))"
    using write_invD(6) [OF inv, of t d] pc by (simp add: spot_def)
  from replace_own [OF r jobs_okD(1) [OF ok] this] show ?thesis
  proof (elim disjE conjE exE)
    fix m x
    assume "e = Some (Wrapf m x)" and "kern w1 = kern (files s)"
    then show ?thesis using own m pc r by (auto simp: holds_own_def)
  next
    assume e: "e = None" and k: "kern w1 = renamed (job_env (J t)) (temp_file d) (job_path (J t)) (temp_inode d) (kern (files s))"
    have c: "c = Swapped d p" "w = w1" using m pc r e by simp_all
    have rf: "rightful k0 (J t) d" using write_invD(4) [OF inv, of t d] pc by simp
    have other: "target (J u) \<noteq> target (J t) \<and> target (J u) \<noteq> spot (J t) d" if "u \<noteq> t" "holding (stage s u) = Some e" for u e
      using swap_is_alone [OF lock home pc that(2)] that(1) spot_not_target [OF ok src rf, of u] by metis
    have "entries (kern w) (target (J u)) = Some (FileEnt (temp_inode e))" if "holding (((stage s)(t := c)) u) = Some e" for u e
      using that own other [of u e] by (cases "u = t") (auto simp: holds_own_def c k renamed_def target_def spot_def)
    moreover have "stable (kern w) (target (J u)) = Some (FileEnt (temp_inode e))" if "safe_now (((stage s)(t := c)) u) = Some e" for u e
      using that own by (cases "u = t") (auto simp: holds_own_def c k)
    ultimately show ?thesis by (simp add: holds_own_def)
  qed
qed

lemma holds_own_other:
  assumes inv: "write_inv J k0 (kern (files s)) (stage s)" and ok: "jobs_ok J" and src: "sources_ok J k0" and own: "holds_own J (kern (files s)) (stage s)"
    and pc: "\<And>d p. stage s t \<noteq> Locked d p" and m: "write_move (J t) (stage s t) (files s) = Some (c, w)"
  shows "holds_own J (kern w) ((stage s)(t := c))"
proof -
  have kept: "target_kept (J u) (kern (files s)) (kern w)" for u using write_move_targets [OF inv ok src m] pc by blast
  have hold: "holding (stage s u) = Some d" if "holding (((stage s)(t := c)) u) = Some d" for u d
    using that write_move_holding [OF m, of d] pc by (cases "u = t") auto
  have ent: "entries (kern w) (target (J u)) = Some (FileEnt (temp_inode d))" if "holding (((stage s)(t := c)) u) = Some d" for u d
    using hold [OF that] own kept [of u] by (simp add: holds_own_def target_kept_def)
  have stay: "stable (kern w) (target (J u)) = Some (FileEnt (temp_inode d))" if "safe_now (stage s u) = Some d" for u d
    using that safe_holding [OF that] own kept [of u] by (auto simp: holds_own_def target_kept_def)
  have "stable (kern w) (target (J u)) = Some (FileEnt (temp_inode d))" if sn: "safe_now (((stage s)(t := c)) u) = Some d" for u d
  proof (cases "safe_now (stage s u) = Some d")
    case False
    then have u: "u = t" "safe_now c = Some d" using sn by (auto split: if_splits)
    then have "sync_directory (job_env (J t)) (job_dir (J t)) (files s) = (None, w)"
      using write_move_safe [OF m, of d] False by auto
    from sync_directory_settles(2) [OF this] have "settled w (target (J t))" by (simp add: target_split [OF ok] beside_def)
    then show ?thesis using ent [OF safe_holding [OF sn]] u by (simp add: settled_def)
  qed (rule stay)
  with ent show ?thesis by (simp add: holds_own_def)
qed

lemma holds_own_reachable:
  assumes "jobs_ok J" and "sources_ok J k0" and "\<And>t. at_home (J t)" and "write_reachable J k0 s"
  shows "holds_own J (kern (files s)) (stage s)"
proof -
  from assms(4) obtain s0 where start: "write_start k0 s0" and run: "(writer_step J)\<^sup>*\<^sup>* s0 s"
    by (auto simp: write_reachable_def)
  from run have "write_reachable J k0 s \<and> holds_own J (kern (files s)) (stage s)"
  proof (induction rule: rtranclp_induct)
    case base
    show ?case using start by (auto simp: write_reachable_def write_start_def holds_own_def)
  next
    case (step a b)
    have reach: "write_reachable J k0 b" using start step.hyps by (auto simp: write_reachable_def intro: rtranclp.rtrancl_into_rtrancl)
    note inv = write_reachable_inv [OF assms(1,2) conjunct1 [OF step.IH]]
      and lock = lock_view_reachable [OF conjunct1 [OF step.IH]] and own = conjunct2 [OF step.IH]
    from step.hyps(2) show ?case
    proof cases
      case (moves t c w)
      have "holds_own J (kern w) ((stage a)(t := c))"
      proof (cases "\<exists>d p. stage a t = Locked d p")
        case True
        then show ?thesis using holds_own_swap [OF inv assms(1-3) lock own _ moves(2)] by blast
      next
        case False
        then show ?thesis using holds_own_other [OF inv assms(1,2) own _ moves(2)] by blast
      qed
      then show ?thesis using reach by (simp add: moves(1) del: fun_upd_apply)
    qed
  qed
  then show ?thesis by blast
qed

text \<open>
  C4. What the lock buys: when a call is about to give its destination back and report success, the
  destination is this call's own file, complete and flushed, and a crash leaves just that,
  although any number of other calls write the same destination at the same time.
\<close>

theorem success_is_own_file:
  assumes "jobs_ok J" and "sources_ok J k0" and "\<And>t. at_home (J t)" and "write_reachable J k0 s"
    and "stage s t = Releasing d p None" and "crash_view (kern (files s)) (target (J t)) e"
  shows "e = Some (FileEnt (temp_inode d)) \<and>
    (\<exists>n. inodes (kern (files s)) (temp_inode d) = Some n \<and> complete_file k0 (J t) n)"
proof -
  have "holds_own J (kern (files s)) (stage s)" by (rule holds_own_reachable [OF assms(1-4)])
  then have "e = Some (FileEnt (temp_inode d))" using assms(5,6) by (auto simp: holds_own_def crash_view_def)
  moreover have "committed_as (stage s t) = Some d" using assms(5) by simp
  note committed_delivers [OF write_reachable_inv [OF assms(1,2,4)] this]
  ultimately show ?thesis using delivers_complete by blast
qed

text \<open>The second call waits for the destination when the first is done.\<close>

definition demo_done :: writers where
  "demo_done = the (write_schedule demo_jobs
     [0, 1, 0, 1, 0, 1, 0, 1, 0, 1, 0, 1, 0, 1, 0, 1, 0, 1, 0, 1, 0, 1, 0, 0, 0, 0, 0] demo_writers)"

lemma demo_done_run:
  "map_option (\<lambda>s. (stage s 0, stage s 1)) (write_schedule demo_jobs
     [0, 1, 0, 1, 0, 1, 0, 1, 0, 1, 0, 1, 0, 1, 0, 1, 0, 1, 0, 1, 0, 1, 0, 0, 0, 0, 0] demo_writers) =
   Some (Releasing \<lparr>temp_file = ''/.durable-0.tmp'', temp_inode = 2, made = []\<rparr> 0 None,
     Queued \<lparr>temp_file = ''/.durable-1.tmp'', temp_inode = 3, made = []\<rparr> 0)"
  by (simp add: race_eval job_transaction_def)

lemmas demo_done_result = schedule_result [OF demo_done_run, folded demo_done_def]

lemma demo_at_home: "at_home (demo_jobs t)"
  by (simp add: at_home_def demo_jobs_def demo_env_def demo_paths) (simp add: path_is_abs_def)

theorem success_is_own_file_witness:
  "stable (kern (files demo_done)) [''f''] = Some (FileEnt 2) \<and>
   (\<exists>n. inodes (kern (files demo_done)) 2 = Some n \<and> content n = ''new'' \<and> perm n = 384 \<and> flushed n)"
proof -
  have pc: "stage demo_done 0 = Releasing \<lparr>temp_file = ''/.durable-0.tmp'', temp_inode = 2, made = []\<rparr> 0 None"
    using conjunct2 [OF demo_done_result] by simp
  have "crash_view (kern (files demo_done)) (target (demo_jobs 0)) (stable (kern (files demo_done)) [''f''])"
    by (simp add: crash_view_def demo_target)
  from success_is_own_file [OF demo_jobs_ok demo_sources_ok demo_at_home demo_reachable [OF conjunct1 [OF demo_done_result]] pc this]
  show ?thesis by (simp add: complete_file_def demo_source) (auto simp: demo_jobs_def demo_reader_def)
qed

subsection \<open>Every schedule ends\<close>

text \<open>A bound on the steps a call has still before it.\<close>

definition steps_after_temp :: "write_job \<Rightarrow> nat" where
  "steps_after_temp j = length (chunks (job_reader j)) + 13"

definition steps_after_scan :: "write_job \<Rightarrow> nat" where
  "steps_after_scan j = length (resolve (cwd (job_env j)) (job_dir j)) + length (take 10000 (suffixes (job_env j))) +
     steps_after_temp j + 3"

fun moves_left :: "write_job \<Rightarrow> write_pc \<Rightarrow> nat" where
  "moves_left j Called = 2 * dir_measure (path_clean (job_dir j)) + steps_after_scan j + 2"
| "moves_left j (Scanning current ms) = 2 * dir_measure current + length ms + steps_after_scan j + 1"
| "moves_left j (Making pre cs ms) =
     length cs + length ms + length (take 10000 (suffixes (job_env j))) + steps_after_temp j + 2"
| "moves_left j (Naming ss ms) = length ss + length ms + steps_after_temp j + 1"
| "moves_left j (Sourcing src ms) = length ms + 12"
| "moves_left j (Syncing d) = length (made d) + 11"
| "moves_left j (Synced d) = length (made d) + 10"
| "moves_left j (Opened d) = length (made d) + steps_after_temp j"
| "moves_left j (Copying d cs n) = length (made d) + length cs + 12"
| "moves_left j (Copied d) = length (made d) + 11"
| "moves_left j (Flushed d) = length (made d) + 10"
| "moves_left j (Closed d) = length (made d) + 9"
| "moves_left j (Queued d p) = length (made d) + 8"
| "moves_left j (Locked d p) = length (made d) + 7"
| "moves_left j (Swapped d p) = length (made d) + 6"
| "moves_left j (Settled d p) = length (made d) + 5"
| "moves_left j (Linking d p ps ds) = length ds + 4"
| "moves_left j (Releasing d p err) = 3"
| "moves_left j (Parting d p err) = 2"
| "moves_left j (Deferred d i err) = 1"
| "moves_left j (Returned d err) = 0"

lemma dir_measure_pos: "current \<noteq> [] \<Longrightarrow> 0 < dir_measure current"
  by (simp add: dir_measure_def)

lemma write_move_progress:
  assumes "write_move j c w = Some (c', w')"
  shows "moves_left j c' < moves_left j c"
proof (cases c)
  case (Scanning current ms)
  have "path_dir current \<noteq> current \<Longrightarrow> dir_measure (path_dir current) < dir_measure current"
    using dir_measure_decreases by simp
  moreover have "0 < dir_measure current" by (simp add: dir_measure_def dot_def)
  ultimately show ?thesis using assms Scanning
    by (auto simp: steps_after_scan_def split: stat_result.splits if_splits)
next
  case (Making pre cs ms)
  with assms show ?thesis by (cases cs) (auto simp: steps_after_temp_def split: option.splits entry.splits)
next
  case (Naming ss ms)
  with assms show ?thesis by (cases ss) (auto simp: Let_def split: option.splits if_splits)
next
  case (Copying d cs n)
  with assms show ?thesis by (cases cs) (auto split: option.splits)
next
  case (Linking d p ps ds)
  with assms show ?thesis
    by (cases ds) (auto simp: Let_def split: option.splits prod.splits if_splits)
qed (use assms in \<open>auto simp: steps_after_temp_def split: option.splits prod.splits sum.splits\<close>)

text \<open>Only a call that waits for a held mutex cannot move.\<close>

lemma write_move_stuck:
  "write_move j c w = None \<longleftrightarrow> (\<exists>d err. c = Returned d err) \<or> (\<exists>d p. c = Queued d p \<and> lk_held (objs (lockreg w) p))"
proof (cases c)
  case (Making pre cs ms)
  then show ?thesis by (cases cs) auto
next
  case (Copying d cs n)
  then show ?thesis by (cases cs) auto
next
  case (Linking d p ps ds)
  then show ?thesis by (cases ds) auto
qed (auto simp: lock_mu_def)

lemma sum_one_less:
  fixes g h :: "nat \<Rightarrow> nat"
  assumes "finite A" and "t \<in> A" and "h t < g t" and "\<And>u. u \<noteq> t \<Longrightarrow> h u = g u"
  shows "sum h A < sum g A"
proof (rule sum_strict_mono_ex1 [OF assms(1)])
  show "\<forall>x \<in> A. h x \<le> g x" using assms(3,4) by (metis less_imp_le order_refl)
qed (use assms(2,3) in blast)

lemma write_schedule_bound:
  assumes "finite A" and "write_schedule J ts s = Some s'" and "set ts \<subseteq> A"
  shows "length ts + (\<Sum>t \<in> A. moves_left (J t) (stage s' t)) \<le> (\<Sum>t \<in> A. moves_left (J t) (stage s t))"
  using assms(2,3)
proof (induction J ts s rule: write_schedule.induct)
  case (2 J t ts s)
  then obtain c w where m: "write_move (J t) (stage s t) (files s) = Some (c, w)"
    and r: "write_schedule J ts \<lparr>files = w, stage = (stage s)(t := c)\<rparr> = Some s'" by (auto split: option.splits)
  have "(\<Sum>u \<in> A. moves_left (J u) (((stage s)(t := c)) u)) < (\<Sum>u \<in> A. moves_left (J u) (stage s u))"
    by (rule sum_one_less [of A t]) (use assms(1) "2.prems"(2) write_move_progress [OF m] in auto)
  moreover have "length ts + (\<Sum>u \<in> A. moves_left (J u) (stage s' u)) \<le> (\<Sum>u \<in> A. moves_left (J u) (((stage s)(t := c)) u))"
    using "2.IH" [OF m refl r] "2.prems"(2) by (simp del: fun_upd_apply)
  ultimately show ?case by simp
qed simp

lemma write_schedule_others:
  "write_schedule J ts s = Some s' \<Longrightarrow> t \<notin> set ts \<Longrightarrow> stage s' t = stage s t"
  by (induction J ts s rule: write_schedule.induct) (auto split: option.splits)

text \<open>A held mutex is held by a call that can move.\<close>

lemma held_by_mover:
  assumes "lock_reachable (lock_view J s)" and "stage s t = Queued d p" and "lk_held (objs (lockreg (files s)) p)"
  shows "\<exists>u. write_move (J u) (stage s u) (files s) \<noteq> None \<and> stage s u \<noteq> Called"
proof -
  let ?v = "lock_view J s"
  have inv: "lock_inv ?v" using assms(1) by (rule lock_reachable_inv)
  have "locks (reg ?v) (job_key (J t)) = Some p"
    using lock_inv_attached [OF inv, of t] assms(2) by (simp add: lock_view_def)
  from lock_inv_obj [OF inv this] have "insiders (pcs ?v) p \<noteq> {}"
    using assms(3) by (simp add: obj_ok_def lock_view_def)
  then obtain u k where "lock_stage (job_key (J u)) (stage s u) = Inside k p"
    by (auto simp: insiders_def lock_view_def)
  then have "write_move (J u) (stage s u) (files s) \<noteq> None \<and> stage s u \<noteq> Called"
    unfolding write_move_stuck by (cases "stage s u") auto
  then show ?thesis by blast
qed

text \<open>
  C10. Nothing blocks for ever: a schedule of finitely many calls, for whatever destinations and with whatever failures, is no
  longer than a bound that their arguments give, and as long as one of them has not
  returned, one of them can move.
\<close>

theorem writers_finish:
  assumes "finite A" and "write_start k0 s0" and "write_schedule J ts s0 = Some s" and "set ts \<subseteq> A"
  shows "length ts \<le> (\<Sum>t \<in> A. moves_left (J t) Called) \<and>
    ((\<forall>t \<in> A. \<exists>d err. stage s t = Returned d err) \<or>
     (\<exists>u \<in> A. write_move (J u) (stage s u) (files s) \<noteq> None))"
proof
  show "length ts \<le> (\<Sum>t \<in> A. moves_left (J t) Called)"
    using write_schedule_bound [OF assms(1,3,4)] assms(2) by (simp add: write_start_def)
  have lock: "lock_reachable (lock_view J s)"
    by (rule lock_view_reachable [where ?k0.0 = k0])
      (use assms(2) write_schedule_steps [OF assms(3)] in \<open>auto simp: write_reachable_def\<close>)
  have inA: "u \<in> A" if "stage s u \<noteq> Called" for u
    using write_schedule_others [OF assms(3), of u] that assms(2,4) by (auto simp: write_start_def)
  show "(\<forall>t \<in> A. \<exists>d err. stage s t = Returned d err) \<or> (\<exists>u \<in> A. write_move (J u) (stage s u) (files s) \<noteq> None)"
  proof (rule disjCI, rule ballI, rule ccontr)
    fix t
    assume stuck: "\<not> (\<exists>u \<in> A. write_move (J u) (stage s u) (files s) \<noteq> None)" and t: "t \<in> A"
      and "\<nexists>d err. stage s t = Returned d err"
    then obtain d p where "stage s t = Queued d p" "lk_held (objs (lockreg (files s)) p)"
      using write_move_stuck [of "J t" "stage s t" "files s"] by auto
    from held_by_mover [OF lock this] inA stuck show False by blast
  qed
qed

theorem writers_finish_witness:
  "\<exists>u z. u < 2 \<and> write_move (demo_jobs u) (stage demo_done u) (files demo_done) = Some z"
proof -
  have "finite {0, 1 :: nat}" by simp
  from writers_finish [OF this demo_writers_start conjunct1 [OF demo_done_result]]
  have "\<exists>u \<in> {0, 1}. write_move (demo_jobs u) (stage demo_done u) (files demo_done) \<noteq> None"
    using conjunct2 [OF demo_done_result] by fastforce
  then obtain u where u: "u \<in> {0, 1}" "write_move (demo_jobs u) (stage demo_done u) (files demo_done) \<noteq> None" ..
  then have "u < 2" by auto
  with u(2) show ?thesis by blast
qed

end
