(* ===== verification/Durable_Gaps.thy ===== *)
theory Durable_Gaps
  imports Durable_Exclusive
begin

section \<open>Where the promises of durablefile end\<close>

text \<open>
  Two concrete runs in which a call reports success although what it promises does not hold: they
  show that assumptions of the theorems about durability and concurrency are needed.
\<close>

subsection \<open>A directory that an earlier call made\<close>

text \<open>
  A call that fails after it created the parent directory leaves this directory without having
  synced its parent. The next call finds the directory, has created nothing, and syncs only the
  directory itself: it reports success, but a crash may lose the directory and the file with it.
\<close>

definition broken_reader :: reader where
  "broken_reader = \<lparr>chunks = [''ne''], read_err = Some (External ''EIO'')\<rparr>"

definition after_failure :: file_world where
  "after_failure = snd (the (WriteReader demo_env ''/a/f'' (Some broken_reader) 384 448 demo_world))"

lemma gap_paths:
  "proper_destination demo_env ''/a/f''" "resolve [] ''/a/f'' = [''a'', ''f'']"
  "validate ''/a/f'' 384 448 = None" "path_dir ''/a/f'' = ''/a''" "path_clean ''/a'' = ''/a''"
  "path_dir ''/a'' = ''/''" "resolve [] ''/a'' = [''a'']" "temp_path ''/a'' 7 = ''/a/.durable-7.tmp''"
  "resolve [] ''/a/.durable-7.tmp'' = [''a'', ''.durable-7.tmp'']" "lock_key (Inr ''/'') ''/a/f'' = ''/a/f''"
  "same_directory demo_env ''/a'' ''/a''"
  by code_simp+

lemmas gap_eval = demo_defs gap_paths [unfolded demo_defs] demo_paths [unfolded demo_defs] write_eval

lemma failure_leaves_directory:
  "map_option fst (WriteReader demo_env ''/a/f'' (Some broken_reader) 384 448 demo_world) =
     Some (Some (Wrapf ''write temporary file for /a/f'' (External ''EIO'')))"
  "entries (kern after_failure) = (entries demo_kernel)([''a''] \<mapsto> DirEnt 448)"
  by (simp_all add: after_failure_def broken_reader_def gap_eval fun_eq_iff)

lemma success_on_unsynced_directory:
  "map_option (\<lambda>(err, w). (err, entries (kern w) [''a''], stable (kern w) [''a'']))
     (WriteReader demo_env ''/a/f'' (Some demo_reader) 384 448 after_failure) =
   Some (None, Some (DirEnt 448), None)"
  by (simp add: after_failure_def broken_reader_def gap_eval)

subsection \<open>A temporary name that is used again\<close>

text \<open>
  After a \<open>CommittedError\<close> the deferred function removes the temporary name, which the replacement
  has already given up. When another call has drawn the same random number in between, its file is
  removed, and a third call may put an unfinished file under this name, which the second
  call then puts in place of the destination, with success. The first call below cannot sync the
  directory; all calls draw the number 7.
\<close>

definition same_name_jobs :: "nat \<Rightarrow> write_job" where
  "same_name_jobs t = (demo_jobs 7)\<lparr>job_env := if t = 0 then demo_env_unsynced else demo_env\<rparr>"

definition same_name_schedule :: "nat list" where
  "same_name_schedule = 
    [0, 0, 0, 0, 0, 0, 0, 0, 0, 0, 0, 0, 0, 0, 0, 0, 1, 1, 1, 1, 1, 1, 1, 1, 1, 1, 1, 1, 0,
     2, 2, 2, 2, 2, 2, 1, 1, 1, 1, 1, 1]"

lemma unfinished_file_wins:
  "map_option (\<lambda>s. (stage s 1, entries (kern (files s)) [''f''], map_option content (inodes (kern (files s)) 4)))
     (write_schedule same_name_jobs same_name_schedule demo_writers) =
   Some (Deferred \<lparr>temp_file = ''/.durable-7.tmp'', temp_inode = 3, made = []\<rparr> None None,
     Some (FileEnt 4), Some ''ne'')"
  by (simp add: same_name_schedule_def same_name_jobs_def race_eval)

end
