(* ===== verification/Go_Base64.thy ===== *)
theory Go_Base64
  imports Go_Base
begin

section \<open>Unpadded base64 encodings\<close>

text \<open>
  \<open>EncodeToString\<close> of \<open>base64.RawURLEncoding\<close>, and \<open>EncodedLen\<close> of the raw encodings, with a
  decoder that shows that nothing is lost. A byte is a \<^typ>\<open>char\<close>.
\<close>

lemma ord_less [simp]: "ord c < 256"
  by (metis mod_less_divisor of_char_mod_256 zero_less_numeral)

text \<open>The alphabet: upper case, lower case, digits, hyphen, underscore.\<close>

definition b64_char :: "nat \<Rightarrow> char" where
  "b64_char n = char_of (if n < 26 then n + 65 else if n < 52 then n + 71
     else if n < 62 then n - 4 else if n = 62 then 45 else 95)"

lemma b64_alphabet:
  "map b64_char [0..<64] = ''ABCDEFGHIJKLMNOPQRSTUVWXYZabcdefghijklmnopqrstuvwxyz0123456789-_''"
  by code_simp

text \<open>Groups of three bytes make four groups of six bits; the last group may be shorter.\<close>

fun b64_encode :: "string \<Rightarrow> string" where
  "b64_encode [] = []"
| "b64_encode [a] = [b64_char (ord a div 4), b64_char (ord a mod 4 * 16)]"
| "b64_encode [a, b] =
     [b64_char (ord a div 4), b64_char (ord a mod 4 * 16 + ord b div 16), b64_char (ord b mod 16 * 4)]"
| "b64_encode (a # b # c # s) =
     [b64_char (ord a div 4), b64_char (ord a mod 4 * 16 + ord b div 16),
      b64_char (ord b mod 16 * 4 + ord c div 64), b64_char (ord c mod 64)] @ b64_encode s"

definition b64_encoded_len :: "nat \<Rightarrow> nat" where
  "b64_encoded_len n = n div 3 * 4 + (n mod 3 * 8 + 5) div 6"

lemma b64_encoded_len_3: "b64_encoded_len (n + 3) = b64_encoded_len n + 4"
proof -
  have "(n + 3) div 3 = n div 3 + 1" "(n + 3) mod 3 = n mod 3" by simp_all
  then show ?thesis by (simp add: b64_encoded_len_def)
qed

lemma b64_length: "length (b64_encode s) = b64_encoded_len (length s)"
proof (induction s rule: b64_encode.induct)
  case (4 a b c s)
  have "length (a # b # c # s) = length s + 3" by simp
  then show ?case using 4 b64_encoded_len_3 [of "length s"] by (simp only: b64_encode.simps length_append) simp
qed (simp_all add: b64_encoded_len_def)

subsection \<open>The six-bit groups are in range\<close>

lemma sextet_less:
  "a < 256 \<Longrightarrow> a div 4 < (64::nat)" "a mod 4 * 16 < (64::nat)"
  "b < 256 \<Longrightarrow> a mod 4 * 16 + b div 16 < (64::nat)" "b mod 16 * 4 < (64::nat)"
  "c < 256 \<Longrightarrow> b mod 16 * 4 + c div 64 < (64::nat)" "c mod 64 < (64::nat)"
proof -
  have m: "x mod 4 < 4" "x mod 16 < 16" for x :: nat by simp_all
  have d: "x div 16 < 16" "x div 64 < 4" "x div 4 < 64" if "x < 256" for x :: nat using that by auto
  show "a < 256 \<Longrightarrow> a div 4 < 64" by (rule d)
  show "a mod 4 * 16 < 64" using m(1) [of a] by linarith
  show "b < 256 \<Longrightarrow> a mod 4 * 16 + b div 16 < 64" using m(1) [of a] d(1) [of b] by linarith
  show "b mod 16 * 4 < 64" using m(2) [of b] by linarith
  show "c < 256 \<Longrightarrow> b mod 16 * 4 + c div 64 < 64" using m(2) [of b] d(2) [of c] by linarith
  show "c mod 64 < 64" by simp
qed

definition b64_value :: "char \<Rightarrow> nat" where
  "b64_value c =
     (let n = ord c in
      if 65 \<le> n \<and> n \<le> 90 then n - 65
      else if 97 \<le> n \<and> n \<le> 122 then n - 71
      else if 48 \<le> n \<and> n \<le> 57 then n + 4
      else if n = 45 then 62 else 63)"

lemma b64_value_char [simp]: "n < 64 \<Longrightarrow> b64_value (b64_char n) = n"
  by (auto simp: b64_value_def b64_char_def Let_def)

fun b64_decode :: "string \<Rightarrow> string" where
  "b64_decode [] = []"
| "b64_decode [w] = []"
| "b64_decode [w, x] = [char_of (b64_value w * 4 + b64_value x div 16)]"
| "b64_decode [w, x, y] =
     [char_of (b64_value w * 4 + b64_value x div 16),
      char_of (b64_value x mod 16 * 16 + b64_value y div 4)]"
| "b64_decode (w # x # y # z # s) =
     [char_of (b64_value w * 4 + b64_value x div 16),
      char_of (b64_value x mod 16 * 16 + b64_value y div 4),
      char_of (b64_value y mod 4 * 64 + b64_value z)] @ b64_decode s"

lemma b64_bytes:
  "a div 4 * 4 + a mod 4 * 16 div 16 = (a::nat)"
  "b < 256 \<Longrightarrow> a div 4 * 4 + (a mod 4 * 16 + b div 16) div 16 = (a::nat)"
  "b < 256 \<Longrightarrow> (a mod 4 * 16 + b div 16) mod 16 * 16 + b mod 16 * 4 div 4 = (b::nat)"
  "b < 256 \<Longrightarrow> c < 256 \<Longrightarrow> (a mod 4 * 16 + b div 16) mod 16 * 16 + (b mod 16 * 4 + c div 64) div 4 = (b::nat)"
  "c < 256 \<Longrightarrow> (b mod 16 * 4 + c div 64) mod 4 * 64 + c mod 64 = (c::nat)"
proof -
  have d: "b < 256 \<Longrightarrow> b div 16 < 16" "c < 256 \<Longrightarrow> c div 64 < 4" by auto
  have e: "b < 256 \<Longrightarrow> (a mod 4 * 16 + b div 16) div 16 = a mod 4"
    "b < 256 \<Longrightarrow> (a mod 4 * 16 + b div 16) mod 16 = b div 16"
    using d(1) by simp_all
  have f: "c < 256 \<Longrightarrow> (b mod 16 * 4 + c div 64) div 4 = b mod 16"
    "c < 256 \<Longrightarrow> (b mod 16 * 4 + c div 64) mod 4 = c div 64"
    using d(2) by simp_all
  show "a div 4 * 4 + a mod 4 * 16 div 16 = a" by simp
  show "b < 256 \<Longrightarrow> a div 4 * 4 + (a mod 4 * 16 + b div 16) div 16 = a" using e by simp
  show "b < 256 \<Longrightarrow> (a mod 4 * 16 + b div 16) mod 16 * 16 + b mod 16 * 4 div 4 = b" using e by simp
  show "b < 256 \<Longrightarrow> c < 256 \<Longrightarrow>
      (a mod 4 * 16 + b div 16) mod 16 * 16 + (b mod 16 * 4 + c div 64) div 4 = b" using e f by simp
  show "c < 256 \<Longrightarrow> (b mod 16 * 4 + c div 64) mod 4 * 64 + c mod 64 = c" using f by simp
qed

theorem b64_decode_encode [simp]: "b64_decode (b64_encode s) = s"
proof (induction s rule: b64_encode.induct)
  case (2 a)
  have "b64_decode (b64_encode [a]) = [char_of (ord a div 4 * 4 + ord a mod 4 * 16 div 16)]"
    by (simp only: b64_encode.simps b64_decode.simps b64_value_char sextet_less ord_less)
  then show ?case by (simp only: b64_bytes char_of_char)
next
  case (3 a b)
  have "b64_decode (b64_encode [a, b]) = [char_of (ord a div 4 * 4 + (ord a mod 4 * 16 + ord b div 16) div 16),
      char_of ((ord a mod 4 * 16 + ord b div 16) mod 16 * 16 + ord b mod 16 * 4 div 4)]"
    by (simp only: b64_encode.simps b64_decode.simps b64_value_char sextet_less ord_less)
  then show ?case by (simp only: b64_bytes char_of_char ord_less)
next
  case (4 a b c s)
  have "b64_decode (b64_encode (a # b # c # s)) =
      [char_of (ord a div 4 * 4 + (ord a mod 4 * 16 + ord b div 16) div 16),
       char_of ((ord a mod 4 * 16 + ord b div 16) mod 16 * 16 + (ord b mod 16 * 4 + ord c div 64) div 4),
       char_of ((ord b mod 16 * 4 + ord c div 64) mod 4 * 64 + ord c mod 64)] @ b64_decode (b64_encode s)"
    by (simp only: b64_encode.simps b64_decode.simps b64_value_char sextet_less ord_less append.simps)
  then show ?case using 4 by (simp only: b64_bytes char_of_char ord_less append.simps)
qed simp

lemma b64_encode_inject [simp]: "b64_encode s = b64_encode t \<longleftrightarrow> s = t"
  by (metis b64_decode_encode)

text \<open>Every character of an encoding is a letter, a digit, a hyphen or an underscore.\<close>

definition b64_safe :: "char \<Rightarrow> bool" where
  "b64_safe c \<longleftrightarrow> (let n = ord c in 97 \<le> n \<and> n \<le> 122 \<or> 65 \<le> n \<and> n \<le> 90 \<or> 48 \<le> n \<and> n \<le> 57 \<or>
     n = 45 \<or> n = 95)"

lemma b64_char_safe: "n < 64 \<Longrightarrow> b64_safe (b64_char n)"
  by (auto simp: b64_safe_def b64_char_def Let_def)

lemma b64_encode_safe: "\<forall>c \<in> set (b64_encode s). b64_safe c"
proof (induction s rule: b64_encode.induct)
  case (2 a)
  show ?case by (simp add: b64_char_safe sextet_less)
next
  case (3 a b)
  show ?case by (simp add: b64_char_safe sextet_less)
next
  case (4 a b c s)
  then show ?case by (simp add: b64_char_safe sextet_less)
qed simp

end
