(* ===== verification/Go_Sha256.thy ===== *)
theory Go_Sha256
  imports Go_Base "HOL-Library.Word"
begin

unbundle bit_operations_syntax

section \<open>SHA-256 and HMAC\<close>

text \<open>
  \<open>crypto/sha256\<close> and \<open>crypto/hmac\<close> as the standard library computes them: 32-bit words that
  wrap around, blocks of 64 bytes, a byte is a \<^typ>\<open>char\<close>.
\<close>

type_synonym u32 = "32 word"

definition sha_k :: "u32 list" where
  "sha_k = [1116352408, 1899447441, 3049323471, 3921009573, 961987163, 1508970993,
     2453635748, 2870763221, 3624381080, 310598401, 607225278, 1426881987,
     1925078388, 2162078206, 2614888103, 3248222580, 3835390401, 4022224774,
     264347078, 604807628, 770255983, 1249150122, 1555081692, 1996064986,
     2554220882, 2821834349, 2952996808, 3210313671, 3336571891, 3584528711,
     113926993, 338241895, 666307205, 773529912, 1294757372, 1396182291,
     1695183700, 1986661051, 2177026350, 2456956037, 2730485921, 2820302411,
     3259730800, 3345764771, 3516065817, 3600352804, 4094571909, 275423344,
     430227734, 506948616, 659060556, 883997877, 958139571, 1322822218,
     1537002063, 1747873779, 1955562222, 2024104815, 2227730452, 2361852424,
     2428436474, 2756734187, 3204031479, 3329325298]"

record sha_state =
  ha :: u32
  hb :: u32
  hc :: u32
  hdd :: u32
  he :: u32
  hf :: u32
  hg :: u32
  hh :: u32

definition sha_init :: sha_state where
  "sha_init = \<lparr>ha = 1779033703, hb = 3144134277, hc = 1013904242, hdd = 2773480762,
     he = 1359893119, hf = 2600822924, hg = 528734635, hh = 1541459225\<rparr>"

definition rotr :: "nat \<Rightarrow> u32 \<Rightarrow> u32" where
  "rotr n w = drop_bit n w OR push_bit (32 - n) w"

subsection \<open>Bytes and words\<close>

definition byte_word :: "char \<Rightarrow> u32" where
  "byte_word c = of_nat (ord c)"

definition word_byte :: "u32 \<Rightarrow> char" where
  "word_byte w = char_of (unat w mod 256)"

definition word_bytes :: "u32 \<Rightarrow> string" where
  "word_bytes w = [word_byte (drop_bit 24 w), word_byte (drop_bit 16 w), word_byte (drop_bit 8 w), word_byte w]"

fun be_words :: "string \<Rightarrow> u32 list" where
  "be_words (a # b # c # d # s) =
     (push_bit 24 (byte_word a) OR push_bit 16 (byte_word b) OR push_bit 8 (byte_word c) OR byte_word d) # be_words s"
| "be_words _ = []"

text \<open>The message length in bits as eight bytes.\<close>

definition length_bytes :: "nat \<Rightarrow> string" where
  "length_bytes n = map (\<lambda>i. char_of (8 * n div 256 ^ i mod 256)) [7, 6, 5, 4, 3, 2, 1, 0]"

definition sha_pad :: "string \<Rightarrow> string" where
  "sha_pad m = m @ char_of (128 :: nat) #
     replicate ((119 - length m mod 64) mod 64) (char_of (0 :: nat)) @ length_bytes (length m)"

subsection \<open>The compression function\<close>

definition sigma0 :: "u32 \<Rightarrow> u32" where
  "sigma0 x = rotr 7 x XOR rotr 18 x XOR drop_bit 3 x"

definition sigma1 :: "u32 \<Rightarrow> u32" where
  "sigma1 x = rotr 17 x XOR rotr 19 x XOR drop_bit 10 x"

text \<open>The message schedule, newest word first.\<close>

fun sha_schedule :: "nat \<Rightarrow> u32 list \<Rightarrow> u32 list" where
  "sha_schedule 0 ws = ws"
| "sha_schedule (Suc n) ws =
     sha_schedule n ((sigma1 (ws ! 1) + ws ! 6 + sigma0 (ws ! 14) + ws ! 15) # ws)"

definition sha_round :: "sha_state \<Rightarrow> u32 \<times> u32 \<Rightarrow> sha_state" where
  "sha_round s kw =
     (let e = he s; a = ha s;
          t1 = hh s + (rotr 6 e XOR rotr 11 e XOR rotr 25 e) + ((e AND hf s) XOR (NOT e AND hg s)) + fst kw + snd kw;
          t2 = (rotr 2 a XOR rotr 13 a XOR rotr 22 a) + ((a AND hb s) XOR (a AND hc s) XOR (hb s AND hc s)) in
      \<lparr>ha = t1 + t2, hb = a, hc = hb s, hdd = hc s, he = hdd s + t1, hf = e, hg = hf s, hh = hg s\<rparr>)"

definition sha_block :: "sha_state \<Rightarrow> u32 list \<Rightarrow> sha_state" where
  "sha_block s ws =
     (let r = foldl sha_round s (zip sha_k (rev (sha_schedule 48 (rev ws)))) in
      \<lparr>ha = ha s + ha r, hb = hb s + hb r, hc = hc s + hc r, hdd = hdd s + hdd r,
       he = he s + he r, hf = hf s + hf r, hg = hg s + hg r, hh = hh s + hh r\<rparr>)"

fun sha_blocks :: "nat \<Rightarrow> sha_state \<Rightarrow> u32 list \<Rightarrow> sha_state" where
  "sha_blocks 0 s ws = s"
| "sha_blocks (Suc n) s ws = sha_blocks n (sha_block s (take 16 ws)) (drop 16 ws)"

definition sha_bytes :: "sha_state \<Rightarrow> string" where
  "sha_bytes s = concat (map word_bytes [ha s, hb s, hc s, hdd s, he s, hf s, hg s, hh s])"

definition sha256 :: "string \<Rightarrow> string" where
  "sha256 m = (let p = sha_pad m in sha_bytes (sha_blocks (length p div 64) sha_init (be_words p)))"

subsection \<open>HMAC\<close>

definition xor_pad :: "nat \<Rightarrow> string \<Rightarrow> string" where
  "xor_pad b key = map (\<lambda>c. char_of (ord c XOR b)) (key @ replicate (64 - length key) (char_of (0 :: nat)))"

definition hmac_sha256 :: "string \<Rightarrow> string \<Rightarrow> string" where
  "hmac_sha256 key m =
     (let k = if 64 < length key then sha256 key else key in
      sha256 (xor_pad 92 k @ sha256 (xor_pad 54 k @ m)))"

lemma sha256_length [simp]: "length (sha256 m) = 32"
  by (simp add: sha256_def sha_bytes_def word_bytes_def Let_def)

lemma hmac_sha256_length [simp]: "length (hmac_sha256 key m) = 32"
  by (simp add: hmac_sha256_def Let_def)

text \<open>Padding makes whole blocks.\<close>

lemma sha_pad_blocks: "length (sha_pad m) mod 64 = 0"
proof -
  define n where "n = length m mod 64"
  define q where "q = length m div 64"
  have m: "length m = 64 * q + n" "n < 64" by (simp_all add: n_def q_def)
  have len: "length (sha_pad m) = 64 * q + (n + 9 + (119 - n) mod 64)"
    by (simp add: sha_pad_def length_bytes_def n_def q_def)
  show ?thesis
  proof (cases "n \<le> 55")
    case True
    then have "(119 - n) mod 64 = 55 - n" by (simp add: mod_if)
    then have "length (sha_pad m) = 64 * (q + 1)" using len True by simp
    then show ?thesis by simp
  next
    case False
    then have "(119 - n) mod 64 = 119 - n" using m(2) by simp
    then have "length (sha_pad m) = 64 * (q + 2)" using len False m(2) by simp
    then show ?thesis by simp
  qed
qed

end
