(* ===== verification/Go_Slices.thy ===== *)
theory Go_Slices
  imports Go_Base
begin

section \<open>Slices and maps that are shared by reference\<close>

text \<open>
  An explicit store for the Go values that alias: a slice is \<open>nil\<close> or a window of a backing
  array, a map is \<open>nil\<close> or a reference. The store knows which references are in use, so that
  a copy is provably independent of everything that existed before it.
\<close>

record 'a store =
  cell :: "nat \<Rightarrow> 'a"
  unused :: nat

definition new_cell :: "'a \<Rightarrow> 'a store \<Rightarrow> nat \<times> 'a store" where
  "new_cell v st = (unused st, st\<lparr>cell := (cell st)(unused st := v), unused := Suc (unused st)\<rparr>)"

definition write_cell :: "nat \<Rightarrow> 'a \<Rightarrow> 'a store \<Rightarrow> 'a store" where
  "write_cell p v st = st\<lparr>cell := (cell st)(p := v)\<rparr>"

datatype slice = NilSlice | Slice nat nat nat

fun slice_len :: "slice \<Rightarrow> nat" where
  "slice_len NilSlice = 0"
| "slice_len (Slice p off n) = n"

fun slice_get :: "'a list store \<Rightarrow> slice \<Rightarrow> 'a list" where
  "slice_get st NilSlice = []"
| "slice_get st (Slice p off n) = take n (drop off (cell st p))"

text \<open>The backing array has the elements of the slice.\<close>

fun slice_ok :: "'a list store \<Rightarrow> slice \<Rightarrow> bool" where
  "slice_ok st NilSlice = True"
| "slice_ok st (Slice p off n) \<longleftrightarrow> p < unused st \<and> off + n \<le> length (cell st p)"

text \<open>\<open>append([]T(nil), xs...)\<close>: a new backing array, or \<open>nil\<close> when there is nothing to copy.\<close>

definition clone_slice :: "'a list store \<Rightarrow> slice \<Rightarrow> slice \<times> 'a list store" where
  "clone_slice st s =
     (if slice_len s = 0 then (NilSlice, st)
      else let (p, st') = new_cell (slice_get st s) st in (Slice p 0 (slice_len s), st'))"

text \<open>\<open>xs[i] = v\<close> of the holder of a slice, within its length.\<close>

fun slice_set :: "'a list store \<Rightarrow> slice \<Rightarrow> nat \<Rightarrow> 'a \<Rightarrow> 'a list store option" where
  "slice_set st NilSlice i v = None"
| "slice_set st (Slice p off n) i v =
     (if i < n then Some (write_cell p ((cell st p)[off + i := v]) st) else None)"

lemma slice_get_length [simp]: "slice_ok st s \<Longrightarrow> length (slice_get st s) = slice_len s"
  by (cases s) auto

text \<open>The copy reads the same, and lives at a reference that was not in use.\<close>

fun slice_ref :: "slice \<Rightarrow> nat option" where
  "slice_ref NilSlice = None"
| "slice_ref (Slice p off n) = Some p"

lemma clone_slice_reads:
  assumes "slice_ok st s" and "clone_slice st s = (c, st')"
  shows "slice_get st' c = slice_get st s" and "slice_ok st' c"
    and "slice_ref c = None \<or> slice_ref c = Some (unused st)" and "unused st \<le> unused st'"
    and "\<And>p. p < unused st \<Longrightarrow> cell st' p = cell st p"
proof -
  have z: "slice_get st s = []" if "slice_len s = 0" using that by (cases s) auto
  show "slice_get st' c = slice_get st s" "slice_ok st' c"
    "slice_ref c = None \<or> slice_ref c = Some (unused st)" "unused st \<le> unused st'"
    using assms z by (auto simp: clone_slice_def new_cell_def split: if_splits)
  show "cell st' p = cell st p" if "p < unused st" for p
    using assms(2) that by (auto simp: clone_slice_def new_cell_def split: if_splits)
qed

lemma slice_get_write [simp]:
  "slice_ref s \<noteq> Some p \<Longrightarrow> slice_get (write_cell p v st) s = slice_get st s"
  by (cases s) (auto simp: write_cell_def)

end
