(* ===== verification/Auth_Token.thy ===== *)
theory Auth_Token
  imports Go_Base64 Go_Sha256 Go_Slices
begin

section \<open>Package auth: opaque bearer tokens\<close>

text \<open>
  \<open>NewToken\<close>, \<open>TokenDigest\<close> and \<open>TokenHasher\<close> of \<open>auth/token.go\<close>. The pepper is a slice in an explicit store, because the package
  promises that the caller may clear it. The interface \<open>token_issuer\<close> is what the database
  lookup relies on; the unkeyed and the keyed issuer are its interpretations.
\<close>

definition defaultTokenBytes :: nat where [simp]: "defaultTokenBytes = 32"
definition maxTokenPrefixBytes :: nat where [simp]: "maxTokenPrefixBytes = 64"

record token_pair =
  plaintext :: string
  digest :: string

subsection \<open>Operations\<close>

definition token_char :: "char \<Rightarrow> bool" where
  "token_char c \<longleftrightarrow> (let n = ord c in 97 \<le> n \<and> n \<le> 122 \<or> 65 \<le> n \<and> n \<le> 90 \<or>
     48 \<le> n \<and> n \<le> 57 \<or> n = 45 \<or> n = 46 \<or> n = 95 \<or> n = 126)"

definition valid_token_prefix :: "string \<Rightarrow> bool" where
  "valid_token_prefix pre \<longleftrightarrow> \<not> maxTokenPrefixBytes < length pre \<and> list_all token_char pre"

definition token_prefix_error :: gerror where
  "token_prefix_error =
     Plain ''token prefix must contain at most 64 RFC 3986 unreserved ASCII characters''"

definition new_token_plaintext :: "'s randomness \<Rightarrow> string \<Rightarrow> 's \<Rightarrow> string result \<times> 's" where
  "new_token_plaintext rnd pre s =
     (if \<not> valid_token_prefix pre then (Inl token_prefix_error, s)
      else case rnd defaultTokenBytes s of
          (Inl e, s') \<Rightarrow> (Inl (Wrapf ''generate token'' e), s')
        | (Inr random, s') \<Rightarrow> (Inr (pre @ b64_encode random), s'))"

definition TokenDigest :: "string \<Rightarrow> string" where
  "TokenDigest token = sha256 token"

definition NewToken :: "'s randomness \<Rightarrow> string \<Rightarrow> 's \<Rightarrow> token_pair result \<times> 's" where
  "NewToken rnd pre s =
     (case new_token_plaintext rnd pre s of
        (Inl e, s') \<Rightarrow> (Inl e, s')
      | (Inr p, s') \<Rightarrow> (Inr \<lparr>plaintext = p, digest = TokenDigest p\<rparr>, s'))"

record token_hasher =
  hasher_key :: slice

definition NewTokenHasher :: "char list store \<Rightarrow> slice \<Rightarrow> token_hasher result \<times> char list store" where
  "NewTokenHasher st pepper =
     (if slice_len pepper < 32 then (Inl (Plain ''token pepper must contain at least 32 bytes''), st)
      else let (key, st') = clone_slice st pepper in (Inr \<lparr>hasher_key = key\<rparr>, st'))"

definition Digest :: "char list store \<Rightarrow> token_hasher \<Rightarrow> string \<Rightarrow> string" where
  "Digest st h token = hmac_sha256 (slice_get st (hasher_key h)) token"

definition hasher_NewToken ::
  "char list store \<Rightarrow> token_hasher \<Rightarrow> 's randomness \<Rightarrow> string \<Rightarrow> 's \<Rightarrow> token_pair result \<times> 's" where
  "hasher_NewToken st h rnd pre s =
     (case new_token_plaintext rnd pre s of
        (Inl e, s') \<Rightarrow> (Inl e, s')
      | (Inr p, s') \<Rightarrow> (Inr \<lparr>plaintext = p, digest = Digest st h p\<rparr>, s'))"

subsection \<open>The interface of a token issuer\<close>

locale token_issuer =
  fixes issue :: "'s randomness \<Rightarrow> string \<Rightarrow> 's \<Rightarrow> token_pair result \<times> 's"
    and digest_of :: "string \<Rightarrow> string"
  assumes issued: "issue rnd pre s = (Inr t, s') \<Longrightarrow> valid_token_prefix pre \<and> digest t = digest_of (plaintext t) \<and>
      (\<exists>random. rnd 32 s = (Inr random, s') \<and> plaintext t = pre @ b64_encode random)"
    and refused: "issue rnd pre s = (Inl e, s') \<Longrightarrow>
      e = token_prefix_error \<and> \<not> valid_token_prefix pre \<and> s' = s \<or>
      valid_token_prefix pre \<and> (\<exists>f. rnd 32 s = (Inl f, s') \<and> e = Wrapf ''generate token'' f)"
begin

lemma issued_length:
  assumes "issue rnd pre s = (Inr t, s')" and "random_ok rnd"
  shows "length (plaintext t) = length pre + 43"
proof -
  obtain r where "rnd 32 s = (Inr r, s')" "plaintext t = pre @ b64_encode r"
    using issued [OF assms(1)] by blast
  moreover from this have "length r = 32" using assms(2) by (auto simp: random_ok_def)
  ultimately show ?thesis by (simp add: b64_length b64_encoded_len_def)
qed

lemma issued_safe:
  assumes "issue rnd pre s = (Inr t, s')"
  shows "list_all token_char (plaintext t)"
proof -
  obtain r where p: "plaintext t = pre @ b64_encode r" and v: "valid_token_prefix pre"
    using issued [OF assms] by blast
  have "b64_safe c \<Longrightarrow> token_char c" for c by (auto simp: b64_safe_def token_char_def Let_def)
  then show ?thesis using b64_encode_safe [of r] p v by (auto simp: valid_token_prefix_def list_all_iff)
qed

lemma issued_different:
  assumes "issue rnd p1 s1 = (Inr t1, s1')" and "issue rnd p2 s2 = (Inr t2, s2')" and "random_ok rnd"
    and "rnd 32 s1 = (Inr r1, u1)" and "rnd 32 s2 = (Inr r2, u2)"
  shows "plaintext t1 = plaintext t2 \<longleftrightarrow> p1 = p2 \<and> r1 = r2"
proof -
  have p: "plaintext t1 = p1 @ b64_encode r1" "plaintext t2 = p2 @ b64_encode r2"
    using issued [OF assms(1)] issued [OF assms(2)] assms(4,5) by auto
  have "length (b64_encode r1) = length (b64_encode r2)"
    using assms(3-5) unfolding random_ok_def b64_length by metis
  then show ?thesis by (simp add: p)
qed

end

lemma new_token_issued:
  assumes "NewToken rnd pre s = (r, s')"
  shows "case r of
      Inl e \<Rightarrow> e = token_prefix_error \<and> \<not> valid_token_prefix pre \<and> s' = s \<or>
        valid_token_prefix pre \<and> (\<exists>f. rnd 32 s = (Inl f, s') \<and> e = Wrapf ''generate token'' f)
    | Inr t \<Rightarrow> valid_token_prefix pre \<and> digest t = TokenDigest (plaintext t) \<and>
        (\<exists>random. rnd 32 s = (Inr random, s') \<and> plaintext t = pre @ b64_encode random)"
  using assms by (auto simp: NewToken_def new_token_plaintext_def split: if_splits prod.splits sum.splits)

lemma hasher_issued:
  assumes "hasher_NewToken st h rnd pre s = (r, s')"
  shows "case r of
      Inl e \<Rightarrow> e = token_prefix_error \<and> \<not> valid_token_prefix pre \<and> s' = s \<or>
        valid_token_prefix pre \<and> (\<exists>f. rnd 32 s = (Inl f, s') \<and> e = Wrapf ''generate token'' f)
    | Inr t \<Rightarrow> valid_token_prefix pre \<and> digest t = Digest st h (plaintext t) \<and>
        (\<exists>random. rnd 32 s = (Inr random, s') \<and> plaintext t = pre @ b64_encode random)"
  using assms by (auto simp: hasher_NewToken_def new_token_plaintext_def split: if_splits prod.splits sum.splits)

interpretation plain_issuer: token_issuer NewToken TokenDigest
  by unfold_locales (use new_token_issued in fastforce)+

interpretation keyed_issuer: token_issuer "hasher_NewToken st h" "Digest st h" for st h
  by unfold_locales (use hasher_issued in fastforce)+

subsection \<open>Properties\<close>

text \<open>
  C35. \<open>NewToken\<close> on every branch: it fails only for a bad prefix or when randomness fails, and
  otherwise issues a token of unreserved characters, at most 107 of them, that starts with
  the prefix, carries 32 random bytes that can be read back, and comes with its own SHA-256
  digest of 32 bytes.
\<close>

theorem new_token_correct:
  assumes "random_ok rnd" and "NewToken rnd pre s = (r, s')"
  shows "case r of
      Inl e \<Rightarrow> e = token_prefix_error \<and> \<not> valid_token_prefix pre \<and> s' = s \<or>
        valid_token_prefix pre \<and> (\<exists>f. rnd 32 s = (Inl f, s') \<and> e = Wrapf ''generate token'' f)
    | Inr t \<Rightarrow> list_all token_char (plaintext t) \<and> length (plaintext t) = length pre + 43 \<and>
        length (plaintext t) \<le> 107 \<and> take (length pre) (plaintext t) = pre \<and>
        rnd 32 s = (Inr (b64_decode (drop (length pre) (plaintext t))), s') \<and>
        digest t = sha256 (plaintext t) \<and> length (digest t) = 32"
proof (cases r)
  case (Inl e)
  then show ?thesis using plain_issuer.refused [of rnd pre s e s'] assms(2) by simp
next
  case (Inr t)
  note run = assms(2) [unfolded Inr]
  note iss = plain_issuer.issued [OF run]
  have "length pre \<le> 64" using iss by (simp add: valid_token_prefix_def)
  then show ?thesis
    using Inr iss plain_issuer.issued_length [OF run assms(1)] plain_issuer.issued_safe [OF run]
    by (auto simp: TokenDigest_def)
qed

definition demo_randomness :: "nat randomness" where
  "demo_randomness n s = (Inr (replicate n (char_of s)), Suc s)"

lemma demo_random_ok: "random_ok demo_randomness"
  by (simp add: random_ok_def demo_randomness_def)

theorem new_token_correct_witness:
  "\<exists>t. NewToken demo_randomness ''api_'' 7 = (Inr t, 8) \<and> length (plaintext t) = 47 \<and>
     take 4 (plaintext t) = ''api_''"
proof -
  have "valid_token_prefix ''api_''" by code_simp
  then obtain t where t: "NewToken demo_randomness ''api_'' 7 = (Inr t, 8)"
    by (auto simp: NewToken_def new_token_plaintext_def demo_randomness_def)
  with new_token_correct [OF demo_random_ok t] show ?thesis by (simp add: eval_nat_numeral)
qed

text \<open>
  Two tokens are the same only when they were issued with the same prefix and the same
  random bytes: nothing of the 256 bits is lost, and no prefix can imitate another.
\<close>

theorem tokens_differ:
  assumes "NewToken rnd p1 s1 = (Inr t1, s1')" and "NewToken rnd p2 s2 = (Inr t2, s2')"
    and "random_ok rnd" and "rnd 32 s1 = (Inr r1, s1')" and "rnd 32 s2 = (Inr r2, s2')"
  shows "plaintext t1 = plaintext t2 \<longleftrightarrow> p1 = p2 \<and> r1 = r2"
  by (rule plain_issuer.issued_different [OF assms])

theorem tokens_differ_witness:
  "\<exists>t u. NewToken demo_randomness ''a'' 1 = (Inr t, 2) \<and> NewToken demo_randomness ''a'' 2 = (Inr u, 3) \<and>
     plaintext t \<noteq> plaintext u"
proof -
  have v: "valid_token_prefix ''a''" by code_simp
  obtain t where t: "NewToken demo_randomness ''a'' 1 = (Inr t, 2)"
    using v by (auto simp: NewToken_def new_token_plaintext_def demo_randomness_def)
  obtain u where u: "NewToken demo_randomness ''a'' 2 = (Inr u, 3)"
    using v by (auto simp: NewToken_def new_token_plaintext_def demo_randomness_def)
  have r: "demo_randomness 32 1 = (Inr (replicate 32 (char_of (1 :: nat))), 2)"
    "demo_randomness 32 2 = (Inr (replicate 32 (char_of (2 :: nat))), 3)"
    by (simp_all add: demo_randomness_def)
  have "replicate 32 (char_of (1 :: nat)) \<noteq> replicate 32 (char_of (2 :: nat))"
    by (simp add: replicate_eq_replicate)
  with tokens_differ [OF t u demo_random_ok r] t u show ?thesis by blast
qed

text \<open>
  A \<open>TokenHasher\<close> keeps its own copy of the pepper: whatever the caller later writes into
  the buffer it passed, or into any array that existed then, digests stay those of the
  original pepper.
\<close>

theorem token_hasher_owns_pepper:
  assumes "NewTokenHasher st pepper = (Inr h, st')" and "slice_ok st pepper" and "p < unused st"
  shows "Digest (write_cell p v st') h token = hmac_sha256 (slice_get st pepper) token"
proof -
  obtain key where c: "clone_slice st pepper = (key, st')" and h: "hasher_key h = key"
    using assms(1) by (auto simp: NewTokenHasher_def split: if_splits prod.splits)
  note cl = clone_slice_reads [OF assms(2) c]
  have "slice_ref key \<noteq> Some p" using cl(3) assms(3) by auto
  then show ?thesis using cl(1) by (simp add: Digest_def h)
qed

definition demo_pepper_store :: "char list store" where
  "demo_pepper_store = \<lparr>cell = (\<lambda>_. replicate 40 (char_of (1 :: nat))), unused = 1\<rparr>"

theorem token_hasher_owns_pepper_witness:
  "\<exists>h st'. NewTokenHasher demo_pepper_store (Slice 0 4 32) = (Inr h, st') \<and>
     Digest (write_cell 0 [] st') h ''t'' = hmac_sha256 (replicate 32 (char_of (1 :: nat))) ''t''"
proof -
  obtain h st' where r: "NewTokenHasher demo_pepper_store (Slice 0 4 32) = (Inr h, st')"
    by (auto simp: NewTokenHasher_def clone_slice_def Let_def new_cell_def)
  have "slice_ok demo_pepper_store (Slice 0 4 32)" "0 < unused demo_pepper_store"
    by (simp_all add: demo_pepper_store_def)
  from token_hasher_owns_pepper [OF r this] r show ?thesis
    by (auto simp: demo_pepper_store_def)
qed

end
