(* ===== verification/Auth_Principal.thy ===== *)
theory Auth_Principal
  imports Go_Slices
begin

section \<open>Package auth: principals\<close>

text \<open>
  \<open>Principal\<close>, \<open>NewPrincipal\<close> and its accessors of \<open>auth/session.go\<close>, with the aliasing of
  their slice and map written out in a store, and the value a principal stands for, which is
  what the request handling of the other theories works on.
\<close>

subsection \<open>State\<close>

datatype map_ref = NilMap | MapRef nat

record principal_heap =
  arrays :: "string list store"
  maps :: "(string \<rightharpoonup> string) store"

record principal_ref =
  ref_subject :: string
  ref_version :: string
  ref_roles :: slice
  ref_claims :: map_ref

text \<open>What a principal stands for.\<close>

record principal =
  subject :: string
  security_version :: string
  roles :: "string list"
  claims :: "string \<rightharpoonup> string"

fun map_get :: "principal_heap \<Rightarrow> map_ref \<Rightarrow> string \<rightharpoonup> string" where
  "map_get hp NilMap = Map.empty"
| "map_get hp (MapRef p) = cell (maps hp) p"

definition principal_value :: "principal_heap \<Rightarrow> principal_ref \<Rightarrow> principal" where
  "principal_value hp p =
     \<lparr>subject = ref_subject p, security_version = ref_version p,
      roles = slice_get (arrays hp) (ref_roles p), claims = map_get hp (ref_claims p)\<rparr>"

subsection \<open>Operations\<close>

definition clone_roles :: "slice \<Rightarrow> principal_heap \<Rightarrow> slice \<times> principal_heap" where
  "clone_roles rs hp = (let (c, st) = clone_slice (arrays hp) rs in (c, hp\<lparr>arrays := st\<rparr>))"

text \<open>A map is empty when it is \<open>nil\<close> or has no key; the loop copies every binding.\<close>

definition clone_claims :: "map_ref \<Rightarrow> principal_heap \<Rightarrow> map_ref \<times> principal_heap" where
  "clone_claims m hp =
     (if map_get hp m = Map.empty then (NilMap, hp)
      else let (p, st) = new_cell (map_get hp m) (maps hp) in (MapRef p, hp\<lparr>maps := st\<rparr>))"

definition NewPrincipal ::
  "string \<Rightarrow> string \<Rightarrow> slice \<Rightarrow> map_ref \<Rightarrow> principal_heap \<Rightarrow> principal_ref \<times> principal_heap" where
  "NewPrincipal subj version rs cs hp =
     (let (r, hp1) = clone_roles rs hp; (c, hp2) = clone_claims cs hp1 in
      (\<lparr>ref_subject = subj, ref_version = version, ref_roles = r, ref_claims = c\<rparr>, hp2))"

definition ref_HasRole :: "principal_heap \<Rightarrow> principal_ref \<Rightarrow> string \<Rightarrow> bool" where
  "ref_HasRole hp p role \<longleftrightarrow> role \<in> set (slice_get (arrays hp) (ref_roles p))"

definition ref_Roles :: "principal_ref \<Rightarrow> principal_heap \<Rightarrow> slice \<times> principal_heap" where
  "ref_Roles p hp = clone_roles (ref_roles p) hp"

definition ref_Claims :: "principal_ref \<Rightarrow> principal_heap \<Rightarrow> map_ref \<times> principal_heap" where
  "ref_Claims p hp = clone_claims (ref_claims p) hp"

definition HasRole :: "principal \<Rightarrow> string \<Rightarrow> bool" where
  "HasRole p role \<longleftrightarrow> role \<in> set (roles p)"

text \<open>The copy that \<open>withPrincipal\<close> puts into a request's context.\<close>

definition ref_withPrincipal :: "principal_ref \<Rightarrow> principal_heap \<Rightarrow> principal_ref \<times> principal_heap" where
  "ref_withPrincipal p hp =
     (let (r, hp1) = clone_roles (ref_roles p) hp; (c, hp2) = clone_claims (ref_claims p) hp1 in
      (p\<lparr>ref_roles := r, ref_claims := c\<rparr>, hp2))"

subsection \<open>Copies are independent\<close>

fun map_ref_cell :: "map_ref \<Rightarrow> nat option" where
  "map_ref_cell NilMap = None"
| "map_ref_cell (MapRef p) = Some p"

lemma clone_claims_reads:
  assumes "clone_claims m hp = (c, hp')"
  shows "map_get hp' c = map_get hp m" and "arrays hp' = arrays hp"
    and "map_ref_cell c = None \<or> map_ref_cell c = Some (unused (maps hp))"
    and "unused (maps hp) \<le> unused (maps hp')"
    and "\<And>p. p < unused (maps hp) \<Longrightarrow> cell (maps hp') p = cell (maps hp) p"
  using assms by (auto simp: clone_claims_def new_cell_def Let_def split: if_splits)

lemma clone_roles_reads:
  assumes "clone_roles rs hp = (c, hp')" and "slice_ok (arrays hp) rs"
  shows "slice_get (arrays hp') c = slice_get (arrays hp) rs" and "maps hp' = maps hp"
    and "slice_ref c = None \<or> slice_ref c = Some (unused (arrays hp))"
    and "unused (arrays hp) \<le> unused (arrays hp')"
proof -
  obtain st where c: "clone_slice (arrays hp) rs = (c, st)" and hp': "hp' = hp\<lparr>arrays := st\<rparr>"
    using assms(1) by (auto simp: clone_roles_def Let_def split: prod.splits)
  show "slice_get (arrays hp') c = slice_get (arrays hp) rs" "maps hp' = maps hp"
    "slice_ref c = None \<or> slice_ref c = Some (unused (arrays hp))"
    "unused (arrays hp) \<le> unused (arrays hp')"
    using clone_slice_reads [OF assms(2) c] by (simp_all add: hp')
qed

text \<open>Writes by anybody to an array or a map of the program.\<close>

definition write_array :: "nat \<Rightarrow> string list \<Rightarrow> principal_heap \<Rightarrow> principal_heap" where
  "write_array p v hp = hp\<lparr>arrays := write_cell p v (arrays hp)\<rparr>"

definition write_map :: "nat \<Rightarrow> (string \<rightharpoonup> string) \<Rightarrow> principal_heap \<Rightarrow> principal_heap" where
  "write_map p v hp = hp\<lparr>maps := write_cell p v (maps hp)\<rparr>"

lemma value_write_array:
  "slice_ref (ref_roles p) \<noteq> Some a \<Longrightarrow> principal_value (write_array a v hp) p = principal_value hp p"
  by (cases "ref_claims p") (simp_all add: principal_value_def write_array_def)

lemma value_write_map:
  "map_ref_cell (ref_claims p) \<noteq> Some a \<Longrightarrow> principal_value (write_map a v hp) p = principal_value hp p"
  by (cases "ref_claims p") (auto simp: principal_value_def write_map_def write_cell_def)

lemma new_principal_reads:
  assumes "NewPrincipal subj version rs cs hp = (p, hp')" and "slice_ok (arrays hp) rs"
  shows "principal_value hp' p = \<lparr>subject = subj, security_version = version,
      roles = slice_get (arrays hp) rs, claims = map_get hp cs\<rparr>"
    and "slice_ref (ref_roles p) = None \<or> slice_ref (ref_roles p) = Some (unused (arrays hp))"
    and "map_ref_cell (ref_claims p) = None \<or> map_ref_cell (ref_claims p) = Some (unused (maps hp))"
proof -
  obtain r hp1 where r: "clone_roles rs hp = (r, hp1)" by fastforce
  obtain c hp2 where c: "clone_claims cs hp1 = (c, hp2)" by fastforce
  have p: "p = \<lparr>ref_subject = subj, ref_version = version, ref_roles = r, ref_claims = c\<rparr>" "hp' = hp2"
    using assms(1) r c by (simp_all add: NewPrincipal_def)
  note rr = clone_roles_reads [OF r assms(2)] and cc = clone_claims_reads [OF c]
  have "map_get hp1 cs = map_get hp cs" using rr(2) by (cases cs) simp_all
  then show "principal_value hp' p = \<lparr>subject = subj, security_version = version,
      roles = slice_get (arrays hp) rs, claims = map_get hp cs\<rparr>"
    using rr(1) cc(1,2) by (simp add: principal_value_def p)
  show "slice_ref (ref_roles p) = None \<or> slice_ref (ref_roles p) = Some (unused (arrays hp))"
    "map_ref_cell (ref_claims p) = None \<or> map_ref_cell (ref_claims p) = Some (unused (maps hp))"
    using rr(2,3) cc(3) by (simp_all add: p)
qed

lemma HasRole_value: "HasRole (principal_value hp p) role = ref_HasRole hp p role"
  by (simp add: HasRole_def ref_HasRole_def principal_value_def)

subsection \<open>Properties\<close>

text \<open>
  C34. A principal is immutable: it holds exactly the roles and claims given to \<open>NewPrincipal\<close>, and
  no later write to a slice or a map that existed before, the caller's own included, changes
  any role check, role list or claim.
\<close>

theorem new_principal_immutable:
  assumes "NewPrincipal subj version rs cs hp = (p, hp')" and "slice_ok (arrays hp) rs"
    and "a < unused (arrays hp)" and "b < unused (maps hp)"
  shows "principal_value (write_map b m (write_array a v hp')) p =
      \<lparr>subject = subj, security_version = version,
       roles = slice_get (arrays hp) rs, claims = map_get hp cs\<rparr>"
    (is "?left = ?right")
proof -
  note r = new_principal_reads [OF assms(1,2)]
  have "map_ref_cell (ref_claims p) \<noteq> Some b" using r(3) assms(4) by auto
  then have "?left = principal_value (write_array a v hp') p" by (rule value_write_map)
  also have "\<dots> = principal_value hp' p" using r(2) assms(3) by (intro value_write_array) auto
  finally show ?thesis using r(1) by simp
qed

definition demo_heap :: principal_heap where
  "demo_heap = \<lparr>arrays = \<lparr>cell = (\<lambda>_. [''user'', ''admin'']), unused = 1\<rparr>,
     maps = \<lparr>cell = (\<lambda>_. [''org'' \<mapsto> ''o1'']), unused = 1\<rparr>\<rparr>"

theorem new_principal_immutable_witness:
  "\<exists>p hp'. NewPrincipal ''u1'' ''v1'' (Slice 0 0 1) (MapRef 0) demo_heap = (p, hp') \<and>
     roles (principal_value (write_map 0 Map.empty (write_array 0 [''root''] hp')) p) = [''user'']"
proof -
  obtain p hp' where n: "NewPrincipal ''u1'' ''v1'' (Slice 0 0 1) (MapRef 0) demo_heap = (p, hp')"
    by fastforce
  have "slice_ok (arrays demo_heap) (Slice 0 0 1)" "0 < unused (arrays demo_heap)" "0 < unused (maps demo_heap)"
    by (simp_all add: demo_heap_def)
  from new_principal_immutable [OF n this] n show ?thesis by (auto simp: demo_heap_def)
qed

text \<open>
  The principal in a context is made from its own copies, so it stands for the resolver's value, and
  nothing the resolver writes later to what it returned changes it. This is why the theories of
  sessions work on values.
\<close>

lemma withPrincipal_new: "ref_withPrincipal p hp = NewPrincipal (ref_subject p) (ref_version p) (ref_roles p) (ref_claims p) hp"
  by (simp add: ref_withPrincipal_def NewPrincipal_def Let_def split: prod.split)

theorem context_principal_isolated:
  assumes "ref_withPrincipal p hp = (q, hp')" and "slice_ok (arrays hp) (ref_roles p)"
    and "a < unused (arrays hp)" and "b < unused (maps hp)"
  shows "principal_value (write_map b m (write_array a v hp')) q = principal_value hp p"
proof -
  note r = new_principal_reads [OF assms(1) [unfolded withPrincipal_new] assms(2)]
  have "map_ref_cell (ref_claims q) \<noteq> Some b" "slice_ref (ref_roles q) \<noteq> Some a" using r(2,3) assms(3,4) by auto
  then show ?thesis using r(1) by (simp add: value_write_map value_write_array) (simp add: principal_value_def)
qed

text \<open>
  What \<open>Roles\<close> and \<open>Claims\<close> return is the caller's own: it reads like the principal's, and
  writing to it leaves the principal as it is.
\<close>

theorem accessors_return_copies:
  assumes "ref_Roles p hp = (rs, hp1)" and "ref_Claims p hp1 = (cs, hp2)"
    and "slice_ok (arrays hp) (ref_roles p)"
    and "\<And>a. map_ref_cell (ref_claims p) = Some a \<Longrightarrow> a < unused (maps hp)"
    and "slice_ref rs = Some x" and "map_ref_cell cs = Some y"
  shows "slice_get (arrays hp2) rs = roles (principal_value hp p) \<and>
    map_get hp2 cs = claims (principal_value hp p) \<and>
    principal_value (write_map y m (write_array x v hp2)) p = principal_value hp p"
proof -
  note rr = clone_roles_reads [OF assms(1) [unfolded ref_Roles_def] assms(3)]
    and cc = clone_claims_reads [OF assms(2) [unfolded ref_Claims_def]]
  have old: "map_get hp2 (ref_claims p) = map_get hp (ref_claims p)"
    using cc(5) assms(4) rr(2) by (cases "ref_claims p") auto
  have "slice_get (arrays hp1) (ref_roles p) = slice_get (arrays hp) (ref_roles p)"
    using assms(1,3) by (cases "ref_roles p")
      (auto simp: ref_Roles_def clone_roles_def clone_slice_def new_cell_def Let_def split: if_splits prod.splits)
  then have kept: "principal_value hp2 p = principal_value hp p"
    using old cc(2) by (simp add: principal_value_def)
  have "slice_ref (ref_roles p) \<noteq> Some x" using rr(3) assms(3,5) by (cases "ref_roles p") auto
  moreover have "map_ref_cell (ref_claims p) \<noteq> Some y" using cc(3) rr(2) assms(4,6) by auto
  ultimately have "principal_value (write_map y m (write_array x v hp2)) p = principal_value hp2 p"
    by (simp add: value_write_map value_write_array)
  moreover have "map_get hp1 (ref_claims p) = map_get hp (ref_claims p)"
    using rr(2) by (cases "ref_claims p") simp_all
  ultimately show ?thesis
    using rr(1) cc(1,2) kept by (simp add: principal_value_def)
qed

theorem accessors_return_copies_witness:
  "\<exists>rs cs hp1 hp2. let p = \<lparr>ref_subject = ''u'', ref_version = ''v'', ref_roles = Slice 0 0 2, ref_claims = MapRef 0\<rparr> in
     ref_Roles p demo_heap = (rs, hp1) \<and> ref_Claims p hp1 = (cs, hp2) \<and>
     roles (principal_value (write_map 1 Map.empty (write_array 1 [] hp2)) p) = [''user'', ''admin'']"
proof -
  let ?p = "\<lparr>ref_subject = ''u'', ref_version = ''v'', ref_roles = Slice 0 0 2, ref_claims = MapRef 0\<rparr>"
  obtain rs hp1 where r: "ref_Roles ?p demo_heap = (rs, hp1)" by fastforce
  obtain cs hp2 where c: "ref_Claims ?p hp1 = (cs, hp2)" by fastforce
  have ok: "slice_ok (arrays demo_heap) (ref_roles ?p)" by (simp add: demo_heap_def)
  have mp: "map_ref_cell (ref_claims ?p) = Some a \<Longrightarrow> a < unused (maps demo_heap)" for a
    by (simp add: demo_heap_def)
  have x: "slice_ref rs = Some 1"
    using r by (auto simp: ref_Roles_def clone_roles_def clone_slice_def new_cell_def demo_heap_def)
  have "maps hp1 = maps demo_heap"
    using r by (auto simp: ref_Roles_def clone_roles_def clone_slice_def new_cell_def demo_heap_def)
  then have y: "map_ref_cell cs = Some 1"
    using c by (auto simp: ref_Claims_def clone_claims_def new_cell_def demo_heap_def fun_eq_iff split: if_splits)
  from accessors_return_copies [OF r c ok mp x y] r c show ?thesis
    by (auto simp: principal_value_def demo_heap_def)
qed

end
