(* ===== verification/Web_Http.thy ===== *)
theory Web_Http
  imports Auth_Principal
begin

section \<open>Requests, responses and handlers of net/http\<close>

text \<open>
  The part of \<open>net/http\<close> the packages use. A handler maps the response written so far, the rest
  of the program's state and a request to the new response and state; a middleware maps
  handlers to handlers. The interface \<open>guard\<close> is shared by every middleware of the
  repository: it either passes the request on, prepared, or rejects it without running the
  handler it protects.
\<close>

subsection \<open>Responses\<close>

text \<open>
  Header names are given in their canonical form. The first \<open>WriteHeader\<close> fixes status and
  headers; what is set later is not sent.
\<close>

type_synonym headers = "string \<rightharpoonup> string list"

record response =
  header :: headers
  sent :: "(nat \<times> headers) option"
  resp_body :: string

definition empty_response :: response where
  "empty_response = \<lparr>header = Map.empty, sent = None, resp_body = []\<rparr>"

definition set_header :: "string \<Rightarrow> string \<Rightarrow> response \<Rightarrow> response" where
  "set_header k v w = w\<lparr>header := (header w)(k \<mapsto> [v])\<rparr>"

definition del_header :: "string \<Rightarrow> response \<Rightarrow> response" where
  "del_header k w = w\<lparr>header := (header w)(k := None)\<rparr>"

definition write_header :: "nat \<Rightarrow> response \<Rightarrow> response" where
  "write_header code w = (case sent w of None \<Rightarrow> w\<lparr>sent := Some (code, header w)\<rparr> | Some _ \<Rightarrow> w)"

text \<open>The first write sends status 200.\<close>

definition write_body :: "string \<Rightarrow> response \<Rightarrow> response" where
  "write_body s w = (let w' = write_header 200 w in w'\<lparr>resp_body := resp_body w' @ s\<rparr>)"

definition newline :: char where
  "newline = char_of (10 :: nat)"

definition http_error :: "string \<Rightarrow> nat \<Rightarrow> response \<Rightarrow> response" where
  "http_error msg code w =
     write_body (msg @ [newline]) (write_header code
       (set_header ''X-Content-Type-Options'' ''nosniff''
         (set_header ''Content-Type'' ''text/plain; charset=utf-8''
           (del_header ''Content-Length'' w))))"

lemma http_error_sent:
  assumes "sent w = None"
  shows "\<exists>h. sent (http_error msg code w) = Some (code, h)"
    and "resp_body (http_error msg code w) = resp_body w @ msg @ [newline]"
  using assms
  by (simp_all add: http_error_def write_body_def write_header_def set_header_def del_header_def Let_def)

subsection \<open>Requests\<close>

text \<open>The values the repository keeps in a request's context, under its two private keys.\<close>

datatype ctx_val = CtxPrincipal principal | CtxString string

record context_values =
  principal_key :: "ctx_val option"
  nonce_key :: "ctx_val option"

text \<open>
  A body delivers its bytes; \<open>http.MaxBytesReader\<close> bounds how many are delivered before it
  fails. Nested limits act together.
\<close>

record request =
  ctx :: context_values
  content_length :: int
  body :: string
  body_limit :: "int option"

definition max_bytes_reader :: "int \<Rightarrow> request \<Rightarrow> request" where
  "max_bytes_reader n r =
     r\<lparr>body_limit := Some (case body_limit r of None \<Rightarrow> n | Some m \<Rightarrow> min m n)\<rparr>"

text \<open>Reading the whole body: the bytes delivered, and whether the limit was hit.\<close>

definition read_body :: "request \<Rightarrow> string \<times> bool" where
  "read_body r = (case body_limit r of
       None \<Rightarrow> (body r, False)
     | Some n \<Rightarrow> (take (nat n) (body r), int (length (body r)) > n))"

subsection \<open>Handlers\<close>

type_synonym 's handler = "response \<times> 's \<Rightarrow> request \<Rightarrow> response \<times> 's"
type_synonym 's middleware = "'s handler \<Rightarrow> 's handler"

definition on_response :: "(response \<Rightarrow> response) \<Rightarrow> response \<times> 's \<Rightarrow> response \<times> 's" where
  "on_response f ws = (f (fst ws), snd ws)"

lemma on_response_simps [simp]: "fst (on_response f ws) = f (fst ws)" "snd (on_response f ws) = snd ws"
  by (simp_all add: on_response_def)

text \<open>
  The headers a response is sure to go out with: those it was sent with, or those set so far.
  A handler keeps headers when it neither changes nor removes them before it sends.
\<close>

definition outgoing :: "response \<Rightarrow> headers" where
  "outgoing w = (case sent w of None \<Rightarrow> header w | Some (code, h) \<Rightarrow> h)"

definition carries :: "headers \<Rightarrow> response \<Rightarrow> bool" where
  "carries hs w \<longleftrightarrow> hs \<subseteq>\<^sub>m outgoing w"

definition keeps :: "headers \<Rightarrow> 's handler \<Rightarrow> bool" where
  "keeps hs hnd \<longleftrightarrow> (\<forall>ws r. carries hs (fst ws) \<longrightarrow> carries hs (fst (hnd ws r)))"

lemma keepsI: "(\<And>ws r. carries hs (fst ws) \<Longrightarrow> carries hs (fst (hnd ws r))) \<Longrightarrow> keeps hs hnd"
  and keepsD: "keeps hs hnd \<Longrightarrow> carries hs (fst ws) \<Longrightarrow> carries hs (fst (hnd ws r))"
  unfolding keeps_def by blast+

lemma carries_write_header: "carries hs w \<Longrightarrow> carries hs (write_header code w)"
  by (cases "sent w") (auto simp: carries_def outgoing_def write_header_def)

lemma carries_write_body: "carries hs w \<Longrightarrow> carries hs (write_body s w)"
  using carries_write_header [of hs w 200] by (auto simp: write_body_def carries_def outgoing_def Let_def split: option.splits)

lemma carries_set_header:
  "carries hs w \<Longrightarrow> hs k = None \<or> hs k = Some [v] \<Longrightarrow> carries hs (set_header k v w)"
  by (cases "sent w") (auto simp: carries_def outgoing_def set_header_def map_le_def dom_def)

lemma carries_del_header: "carries hs w \<Longrightarrow> hs k = None \<Longrightarrow> carries hs (del_header k w)"
  by (cases "sent w") (auto simp: carries_def outgoing_def del_header_def map_le_def)

lemma carries_http_error:
  assumes "carries hs w" and "hs ''Content-Length'' = None" and "hs ''Content-Type'' = None"
    and "hs ''X-Content-Type-Options'' \<in> {None, Some [''nosniff'']}"
  shows "carries hs (http_error msg code w)"
  unfolding http_error_def using assms
  by (intro carries_write_body carries_write_header carries_set_header carries_del_header) auto

subsection \<open>The interface of a guard\<close>

locale guard =
  fixes mw :: "'s middleware"
    and admits :: "response \<times> 's \<Rightarrow> request \<Rightarrow> bool"
    and prepare :: "response \<times> 's \<Rightarrow> request \<Rightarrow> (response \<times> 's) \<times> request"
    and reject :: "response \<times> 's \<Rightarrow> request \<Rightarrow> response \<times> 's"
  assumes mw_eq: "mw next ws r =
    (if admits ws r then next (fst (prepare ws r)) (snd (prepare ws r)) else reject ws r)"
begin

lemma admitted: "admits ws r \<Longrightarrow> mw next ws r = next (fst (prepare ws r)) (snd (prepare ws r))"
  by (simp add: mw_eq)

lemma rejected: "\<not> admits ws r \<Longrightarrow> mw next ws r = reject ws r"
  by (simp add: mw_eq)

text \<open>A rejected request does not depend on the protected handler.\<close>

lemma independent: "\<not> admits ws r \<Longrightarrow> mw next ws r = mw other ws r"
  by (simp add: mw_eq)

text \<open>The handler sees prepared requests only.\<close>

lemma only_prepared:
  assumes "\<And>ws r. admits ws r \<Longrightarrow> P (fst (prepare ws r)) (snd (prepare ws r))"
    and "\<And>ws r. P ws r \<Longrightarrow> next ws r = other ws r"
  shows "mw next = mw other"
  using assms by (intro ext) (simp add: mw_eq)

text \<open>Headers survive a guard when preparing and rejecting leave them alone.\<close>

lemma guard_keeps:
  assumes "\<And>ws r. carries hs (fst ws) \<Longrightarrow> carries hs (fst (fst (prepare ws r)))"
    and "\<And>ws r. carries hs (fst ws) \<Longrightarrow> carries hs (fst (reject ws r))" and "keeps hs next"
  shows "keeps hs (mw next)"
proof (rule keepsI)
  fix ws :: "response \<times> 's" and r
  assume "carries hs (fst ws)"
  with assms(1,2) keepsD [OF assms(3), of "fst (prepare ws r)" "snd (prepare ws r)"]
  show "carries hs (fst (mw next ws r))" by (simp add: mw_eq)
qed

end

text \<open>Two guards in a row are a guard.\<close>

locale guard_pair = outer: guard mw1 admits1 prepare1 reject1 + inner: guard mw2 admits2 prepare2 reject2
  for mw1 :: "'s middleware" and admits1 prepare1 reject1
    and mw2 :: "'s middleware" and admits2 prepare2 reject2

sublocale guard_pair \<subseteq> both: guard "\<lambda>next. mw1 (mw2 next)"
  "\<lambda>ws r. admits1 ws r \<and> admits2 (fst (prepare1 ws r)) (snd (prepare1 ws r))"
  "\<lambda>ws r. prepare2 (fst (prepare1 ws r)) (snd (prepare1 ws r))"
  "\<lambda>ws r. if admits1 ws r then reject2 (fst (prepare1 ws r)) (snd (prepare1 ws r)) else reject1 ws r"
  by unfold_locales (simp add: outer.mw_eq inner.mw_eq)

end
