(* ===== verification/Auth_Session.thy ===== *)
theory Auth_Session
  imports Web_Http
begin

section \<open>Package auth: sessions and access guards\<close>

text \<open>
  \<open>NewSessions\<close>, the session middleware, \<open>SignIn\<close>, \<open>SignOut\<close>, \<open>PrincipalFromContext\<close> and the
  access guards of \<open>auth/session.go\<close>. The SCS session manager and the application's principal
  resolver are not part of the repository: they are parameters, with the documented behaviour
  of the manager as a hypothesis. The state of a handler is whatever they work on.
\<close>

definition session_subject_key :: string where
  "session_subject_key = ''outerstellar.auth.subject''"

definition session_security_version_key :: string where
  "session_security_version_key = ''outerstellar.auth.security_version''"

lemma session_keys_differ [simp]: "session_subject_key \<noteq> session_security_version_key"
  "session_security_version_key \<noteq> session_subject_key"
  by (simp_all add: session_subject_key_def session_security_version_key_def)

definition ErrUnauthenticated :: gerror where
  "ErrUnauthenticated = Sentinel ''authentication required''"

record session_identity =
  id_subject :: string
  id_version :: string

subsection \<open>The session manager and the resolver\<close>

record 's session_manager =
  get_string :: "string \<Rightarrow> 's \<Rightarrow> string"
  put_string :: "string \<Rightarrow> string \<Rightarrow> 's \<Rightarrow> 's"
  remove_key :: "string \<Rightarrow> 's \<Rightarrow> 's"
  renew_token :: "'s \<Rightarrow> gerror option \<times> 's"
  destroy :: "'s \<Rightarrow> gerror option \<times> 's"
  error_func :: "gerror \<Rightarrow> 's handler"
  load_and_save :: "'s middleware"

text \<open>
  Documented behaviour of SCS on the session of a request: values are kept under their keys,
  renewing the token retains the data, destroying removes it.
\<close>

definition manager_laws :: "'s session_manager \<Rightarrow> bool" where
  "manager_laws m \<longleftrightarrow>
     (\<forall>k v k' s. get_string m k (put_string m k' v s) = (if k = k' then v else get_string m k s)) \<and>
     (\<forall>k k' s. get_string m k (remove_key m k' s) = (if k = k' then [] else get_string m k s)) \<and>
     (\<forall>k s s'. renew_token m s = (None, s') \<longrightarrow> get_string m k s' = get_string m k s) \<and>
     (\<forall>k s s'. destroy m s = (None, s') \<longrightarrow> get_string m k s' = [])"

type_synonym 's resolver = "string \<Rightarrow> 's \<Rightarrow> principal result \<times> 's"

subsection \<open>Construction\<close>

text \<open>Durations are nanoseconds; they are compared, never added.\<close>

record 'h session_config =
  CookieName :: string
  SameSite :: int
  Lifetime :: int
  IdleTimeout :: int
  PersistCookie :: bool
  AllowInsecureCookies :: bool
  ErrorHandler :: "'h option"

record 'h scs_config =
  scs_lifetime :: int
  scs_idle_timeout :: int
  scs_hash_token :: bool
  cookie_name :: string
  cookie_http_only :: bool
  cookie_path :: string
  cookie_same_site :: int
  cookie_secure :: bool
  cookie_persist :: bool
  scs_error_func :: 'h

definition SameSiteDefaultMode :: int where "SameSiteDefaultMode = 1"
definition SameSiteLaxMode :: int where "SameSiteLaxMode = 2"
definition SameSiteStrictMode :: int where "SameSiteStrictMode = 3"
definition SameSiteNoneMode :: int where "SameSiteNoneMode = 4"

lemmas same_site_defs = SameSiteDefaultMode_def SameSiteLaxMode_def SameSiteStrictMode_def SameSiteNoneMode_def

definition default_lifetime :: int where
  "default_lifetime = 12 * 3600 * 1000000000"

text \<open>\<open>scs.New()\<close> is the argument \<open>scs_new\<close>; store and resolver may be \<open>nil\<close>.\<close>

definition NewSessions ::
  "'h scs_config \<Rightarrow> 'store option \<Rightarrow> 'r option \<Rightarrow> 'h session_config \<Rightarrow> ('h scs_config \<times> 'store \<times> 'r) result" where
  "NewSessions scs_new store resolver config0 =
     (case store of None \<Rightarrow> Inl (Plain ''session store is required'') | Some st \<Rightarrow>
      (case resolver of None \<Rightarrow> Inl (Plain ''principal resolver is required'') | Some rs \<Rightarrow>
       if trim_space (CookieName config0) = [] then Inl (Plain ''session cookie name is required'')
       else if Lifetime config0 < 0 then Inl (Plain ''session lifetime cannot be negative'')
       else
        (let config1 = (if Lifetime config0 = 0 then config0\<lparr>Lifetime := default_lifetime\<rparr> else config0) in
         if IdleTimeout config1 < 0 \<or> IdleTimeout config1 > Lifetime config1
         then Inl (Plain ''session idle timeout must be between zero and lifetime'')
         else
          (let config = (if SameSite config1 = 0 \<or> SameSite config1 = SameSiteDefaultMode
               then config1\<lparr>SameSite := SameSiteLaxMode\<rparr> else config1) in
           if SameSite config \<noteq> SameSiteLaxMode \<and> SameSite config \<noteq> SameSiteStrictMode \<and>
              SameSite config \<noteq> SameSiteNoneMode
           then Inl (Plain ''session SameSite must be Lax, Strict, or None'')
           else if SameSite config = SameSiteNoneMode \<and> AllowInsecureCookies config
           then Inl (Plain ''SameSite=None requires secure session cookies'')
           else Inr (scs_new\<lparr>scs_lifetime := Lifetime config, scs_idle_timeout := IdleTimeout config,
               scs_hash_token := True, cookie_name := CookieName config, cookie_http_only := True,
               cookie_path := ''/'', cookie_same_site := SameSite config,
               cookie_secure := \<not> AllowInsecureCookies config, cookie_persist := PersistCookie config,
               scs_error_func := (case ErrorHandler config of None \<Rightarrow> scs_error_func scs_new | Some h \<Rightarrow> h)\<rparr>,
             st, rs)))))"

subsection \<open>The middleware\<close>

definition with_principal :: "principal \<Rightarrow> request \<Rightarrow> request" where
  "with_principal p r = r\<lparr>ctx := (ctx r)\<lparr>principal_key := Some (CtxPrincipal p)\<rparr>\<rparr>"

definition PrincipalFromContext :: "context_values \<Rightarrow> principal option" where
  "PrincipalFromContext c = (case principal_key c of Some (CtxPrincipal p) \<Rightarrow> Some p | _ \<Rightarrow> None)"

text \<open>The first component tells whether the caller goes on.\<close>

definition destroy_invalid_session ::
  "'s session_manager \<Rightarrow> response \<times> 's \<Rightarrow> request \<Rightarrow> gerror \<Rightarrow> bool \<times> response \<times> 's" where
  "destroy_invalid_session m ws r cause =
     (case destroy m (snd ws) of
        (Some e, s') \<Rightarrow> (False, error_func m (Wrapf (''destroy invalid session after '' @ error_text cause) e) (fst ws, s') r)
      | (None, s') \<Rightarrow> (True, fst ws, s'))"

definition resolve_session :: "'s session_manager \<Rightarrow> 's resolver \<Rightarrow> 's middleware" where
  "resolve_session m resolver next ws r =
     (let subj = get_string m session_subject_key (snd ws) in
      if subj = [] then next ws r
      else
       (let version = get_string m session_security_version_key (snd ws) in
        if version = [] then
          (let (go, ws') = destroy_invalid_session m ws r (Plain ''session security version is missing'') in if go then next ws' r else ws')
        else
         (case resolver subj (snd ws) of
            (Inl e, s1) \<Rightarrow>
              if errors_is e ErrUnauthenticated then
                (let (go, ws') = destroy_invalid_session m (fst ws, s1) r e in if go then next ws' r else ws')
              else error_func m (Wrapf ''resolve session principal'' e) (fst ws, s1) r
          | (Inr p, s1) \<Rightarrow>
              if subject p = [] \<or> subject p \<noteq> subj then
                error_func m (Plain ''principal resolver returned a mismatched subject'') (fst ws, s1) r
              else if security_version p = [] \<or> security_version p \<noteq> version then
                (let (go, ws') = destroy_invalid_session m (fst ws, s1) r (Plain ''session security version is stale'') in
                 if go then next ws' r else ws')
              else next (fst ws, s1) (with_principal p r))))"

definition Middleware :: "'s session_manager \<Rightarrow> 's resolver \<Rightarrow> 's middleware" where
  "Middleware m resolver next = load_and_save m (resolve_session m resolver next)"

subsection \<open>Signing in and out\<close>

definition SignIn :: "'s session_manager \<Rightarrow> session_identity \<Rightarrow> 's \<Rightarrow> gerror option \<times> 's" where
  "SignIn m identity s =
     (if trim_space (id_subject identity) = [] then (Some (Plain ''session subject is required''), s)
      else if id_version identity = [] then (Some (Plain ''session security version is required''), s)
      else case renew_token m s of
          (Some e, s') \<Rightarrow> (Some (Wrapf ''renew session token'' e), s')
        | (None, s') \<Rightarrow>
            (None, put_string m session_security_version_key (id_version identity)
                     (put_string m session_subject_key (id_subject identity) s')))"

definition SignOut :: "'s session_manager \<Rightarrow> 's \<Rightarrow> gerror option \<times> 's" where
  "SignOut m s = (case destroy m s of
       (Some e, s') \<Rightarrow> (Some (Wrapf ''destroy session'' e), s') | (None, s') \<Rightarrow> (None, s'))"

definition Sessions_Put :: "'s session_manager \<Rightarrow> string \<Rightarrow> string \<Rightarrow> 's \<Rightarrow> 's" where
  "Sessions_Put m key v s = put_string m key v s"

definition Sessions_GetString :: "'s session_manager \<Rightarrow> string \<Rightarrow> 's \<Rightarrow> string" where
  "Sessions_GetString m key s = get_string m key s"

definition Sessions_Remove :: "'s session_manager \<Rightarrow> string \<Rightarrow> 's \<Rightarrow> 's" where
  "Sessions_Remove m key s = remove_key m key s"

subsection \<open>Access guards\<close>

definition RequireAuthenticated :: "'s middleware" where
  "RequireAuthenticated next ws r =
     (case PrincipalFromContext (ctx r) of
        None \<Rightarrow> on_response (http_error ''authentication required'' 401) ws
      | Some _ \<Rightarrow> next ws r)"

text \<open>A missing principal is the zero value here; the outer guard has excluded it.\<close>

definition zero_principal :: principal where
  "zero_principal = \<lparr>subject = [], security_version = [], roles = [], claims = Map.empty\<rparr>"

definition require_held_role :: "string \<Rightarrow> 's middleware" where
  "require_held_role role next ws r =
     (let p = (case PrincipalFromContext (ctx r) of None \<Rightarrow> zero_principal | Some p \<Rightarrow> p) in
      if \<not> HasRole p role then on_response (http_error ''Forbidden'' 403) ws else next ws r)"

definition RequireRole :: "string \<Rightarrow> 's middleware" where
  "RequireRole role next = RequireAuthenticated (require_held_role role next)"

end
