(* ===== verification/Auth_Access.thy ===== *)
theory Auth_Access
  imports Auth_Session
begin

section \<open>Who is let in\<close>

text \<open>
  The specification of the session middleware, a verdict on the request's session, and the
  refinement: the middleware does what the verdict says. The properties that matter follow
  from it and from the interface \<open>guard\<close>: handlers only ever see current principals, a stale
  session is out, failures fail closed, signing in lets in.
\<close>

subsection \<open>The verdict on a session\<close>

datatype verdict = Anonymous | Current principal | Failed gerror

definition discard :: "'s session_manager \<Rightarrow> gerror \<Rightarrow> 's \<Rightarrow> verdict \<times> 's" where
  "discard m cause s = (case destroy m s of
       (Some e, s') \<Rightarrow> (Failed (Wrapf (''destroy invalid session after '' @ error_text cause) e), s') | (None, s') \<Rightarrow> (Anonymous, s'))"

definition is_current :: "'s session_manager \<Rightarrow> 's \<Rightarrow> principal \<Rightarrow> bool" where
  "is_current m s p \<longleftrightarrow> subject p \<noteq> [] \<and> subject p = get_string m session_subject_key s \<and>
     security_version p \<noteq> [] \<and> security_version p = get_string m session_security_version_key s"

definition session_verdict :: "'s session_manager \<Rightarrow> 's resolver \<Rightarrow> 's \<Rightarrow> verdict \<times> 's" where
  "session_verdict m resolver s =
     (if get_string m session_subject_key s = [] then (Anonymous, s)
      else if get_string m session_security_version_key s = [] then discard m (Plain ''session security version is missing'') s
      else case resolver (get_string m session_subject_key s) s of
          (Inl e, s1) \<Rightarrow> if errors_is e ErrUnauthenticated then discard m e s1
                          else (Failed (Wrapf ''resolve session principal'' e), s1)
        | (Inr p, s1) \<Rightarrow>
            if is_current m s p then (Current p, s1)
            else if subject p = get_string m session_subject_key s then discard m (Plain ''session security version is stale'') s1
            else (Failed (Plain ''principal resolver returned a mismatched subject''), s1))"

fun see_verdict :: "verdict \<Rightarrow> request \<Rightarrow> request" where
  "see_verdict (Current p) r = with_principal p r"
| "see_verdict _ r = r"

lemma resolve_session_verdict:
  "resolve_session m resolver next (w, s) r =
     (case session_verdict m resolver s of
        (Failed e, s') \<Rightarrow> error_func m e (w, s') r
      | (v, s') \<Rightarrow> next (w, s') (see_verdict v r))"
proof (cases "get_string m session_subject_key s = [] \<or> get_string m session_security_version_key s = []")
  case True
  then show ?thesis
    by (auto simp: resolve_session_def session_verdict_def Let_def discard_def destroy_invalid_session_def
        split: prod.splits option.splits)
next
  case False
  obtain v s1 where r: "resolver (get_string m session_subject_key s) s = (v, s1)" by fastforce
  show ?thesis
  proof (cases v)
    case (Inl e)
    then show ?thesis using False r
      by (auto simp: resolve_session_def session_verdict_def Let_def discard_def destroy_invalid_session_def
          split: prod.splits option.splits)
  next
    case (Inr p)
    then show ?thesis using False r
      by (auto simp: resolve_session_def session_verdict_def Let_def discard_def destroy_invalid_session_def
          is_current_def split: prod.splits option.splits)
  qed
qed

subsection \<open>The guards of the package\<close>

fun is_failed :: "verdict \<Rightarrow> bool" where
  "is_failed (Failed e) = True"
| "is_failed _ = False"

fun failure :: "verdict \<Rightarrow> gerror" where
  "failure (Failed e) = e"
| "failure _ = Plain []"

interpretation sessions: guard "resolve_session m resolver"
  "\<lambda>ws r. \<not> is_failed (fst (session_verdict m resolver (snd ws)))"
  "\<lambda>ws r. let (v, s') = session_verdict m resolver (snd ws) in ((fst ws, s'), see_verdict v r)"
  "\<lambda>ws r. let (v, s') = session_verdict m resolver (snd ws) in error_func m (failure v) (fst ws, s') r"
  for m resolver
proof
  fix hnd :: "'a handler" and ws :: "response \<times> 'a" and r
  obtain w s where ws: "ws = (w, s)" by fastforce
  show "resolve_session m resolver hnd ws r =
    (if \<not> is_failed (fst (session_verdict m resolver (snd ws)))
     then hnd (fst (let (v, s') = session_verdict m resolver (snd ws) in ((fst ws, s'), see_verdict v r)))
       (snd (let (v, s') = session_verdict m resolver (snd ws) in ((fst ws, s'), see_verdict v r)))
     else (let (v, s') = session_verdict m resolver (snd ws) in error_func m (failure v) (fst ws, s') r))"
    using resolve_session_verdict [of m resolver hnd w s r]
    by (auto simp: ws split: prod.splits verdict.splits)
qed

definition refuse :: "string \<Rightarrow> nat \<Rightarrow> response \<times> 's \<Rightarrow> request \<Rightarrow> response \<times> 's" where
  "refuse msg code ws r = on_response (http_error msg code) ws"

interpretation authenticated: guard RequireAuthenticated
  "\<lambda>ws r. PrincipalFromContext (ctx r) \<noteq> None" Pair "refuse ''authentication required'' 401"
  by unfold_locales (auto simp: RequireAuthenticated_def refuse_def split: option.splits)

interpretation held_role: guard "require_held_role role"
  "\<lambda>ws r. HasRole (case PrincipalFromContext (ctx r) of None \<Rightarrow> zero_principal | Some p \<Rightarrow> p) role"
  Pair "refuse ''Forbidden'' 403" for role
  by unfold_locales (simp add: require_held_role_def refuse_def)

text \<open>\<open>RequireRole\<close> is the two guards in a row.\<close>

interpretation role_guard: guard_pair RequireAuthenticated
  "\<lambda>ws r. PrincipalFromContext (ctx r) \<noteq> None" Pair "refuse ''authentication required'' 401"
  "require_held_role role"
  "\<lambda>ws r. HasRole (case PrincipalFromContext (ctx r) of None \<Rightarrow> zero_principal | Some p \<Rightarrow> p) role"
  Pair "refuse ''Forbidden'' 403" for role
  ..

lemma RequireRole_pair: "RequireRole role = (\<lambda>next. RequireAuthenticated (require_held_role role next))"
  by (simp add: fun_eq_iff RequireRole_def)

subsection \<open>Properties of the guards\<close>

text \<open>
  \<open>RequireRole\<close>: without a principal the answer is 401, with one that does not hold the role,
  compared exactly, it is 403, and otherwise, and only then, the handler answers. A refused
  request does not depend on the handler.
\<close>

theorem require_role_exact:
  assumes "sent w = None"
  shows "case PrincipalFromContext (ctx r) of
      None \<Rightarrow> (\<exists>h. sent (fst (RequireRole role hnd (w, s) r)) = Some (401, h)) \<and>
        snd (RequireRole role hnd (w, s) r) = s \<and> RequireRole role hnd (w, s) r = RequireRole role other (w, s) r
    | Some p \<Rightarrow>
        if role \<in> set (roles p) then RequireRole role hnd (w, s) r = hnd (w, s) r
        else (\<exists>h. sent (fst (RequireRole role hnd (w, s) r)) = Some (403, h)) \<and>
          snd (RequireRole role hnd (w, s) r) = s \<and> RequireRole role hnd (w, s) r = RequireRole role other (w, s) r"
proof (cases "PrincipalFromContext (ctx r)")
  case None
  have "RequireRole role h (w, s) r = (http_error ''authentication required'' 401 w, s)" for h
    using role_guard.both.rejected [of r "(w, s)" role h] None
    by (simp add: RequireRole_pair refuse_def on_response_def)
  then show ?thesis using None http_error_sent(1) [OF assms] by simp
next
  case (Some p)
  show ?thesis
  proof (cases "role \<in> set (roles p)")
    case True
    then have "RequireRole role hnd (w, s) r = hnd (w, s) r"
      using role_guard.both.admitted [of r "(w, s)" role hnd] Some by (simp add: RequireRole_pair HasRole_def)
    then show ?thesis using Some True by simp
  next
    case False
    have "RequireRole role h (w, s) r = (http_error ''Forbidden'' 403 w, s)" for h
      using role_guard.both.rejected [of r "(w, s)" role h] Some False
      by (simp add: RequireRole_pair refuse_def on_response_def HasRole_def)
    then show ?thesis using Some False http_error_sent(1) [OF assms] by simp
  qed
qed

definition demo_principal :: principal where
  "demo_principal = \<lparr>subject = ''u1'', security_version = ''v1'', roles = [''user''], claims = Map.empty\<rparr>"

definition plain_request :: request where
  "plain_request = \<lparr>ctx = \<lparr>principal_key = None, nonce_key = None\<rparr>, content_length = 0, body = [], body_limit = None\<rparr>"

theorem require_role_exact_witness:
  "\<exists>h. sent (fst (RequireRole ''admin'' (\<lambda>ws r. ws) (empty_response, 0 :: nat)
      (with_principal demo_principal plain_request))) = Some (403, h)"
proof -
  have "sent empty_response = None" by (simp add: empty_response_def)
  from require_role_exact [OF this, where role = "''admin''" and r = "with_principal demo_principal plain_request"
      and hnd = "\<lambda>ws r. ws" and s = "0 :: nat"] show ?thesis
    by (simp add: with_principal_def PrincipalFromContext_def demo_principal_def)
qed

subsection \<open>Properties of the session middleware\<close>

text \<open>A manager over the plain session data, and resolvers, for the witnesses.\<close>

definition demo_manager :: "(string \<Rightarrow> string) session_manager" where
  "demo_manager = \<lparr>get_string = (\<lambda>k s. s k), put_string = (\<lambda>k v s. s(k := v)),
     remove_key = (\<lambda>k s. s(k := [])), renew_token = (\<lambda>s. (None, s)), destroy = (\<lambda>s. (None, \<lambda>k. [])),
     error_func = (\<lambda>e ws r. on_response (http_error ''Internal Server Error'' 500) ws),
     load_and_save = (\<lambda>h. h)\<rparr>"

lemma demo_manager_laws: "manager_laws demo_manager"
  by (auto simp: manager_laws_def demo_manager_def)

definition demo_resolver :: "(string \<Rightarrow> string) resolver" where
  "demo_resolver subj s = (if subj = ''u1'' then Inr demo_principal
     else if subj = ''down'' then Inl (External ''no database'') else Inl ErrUnauthenticated, s)"

definition demo_session :: "string \<Rightarrow> string \<Rightarrow> string \<Rightarrow> string" where
  "demo_session subj version = (\<lambda>k. if k = session_subject_key then subj
     else if k = session_security_version_key then version else [])"

lemma demo_session_keys [simp]:
  "get_string demo_manager session_subject_key (demo_session a b) = a"
  "get_string demo_manager session_security_version_key (demo_session a b) = b"
  by (simp_all add: demo_manager_def demo_session_def)

text \<open>
  What a handler behind the middleware may be given: the request as it came, or with a
  principal the resolver just returned for the subject and the version of the session.
\<close>

definition vouched :: "'s session_manager \<Rightarrow> 's resolver \<Rightarrow> 's \<Rightarrow> request \<Rightarrow> request \<Rightarrow> bool" where
  "vouched m resolver s r r' \<longleftrightarrow> r' = r \<or>
     (\<exists>p. r' = with_principal p r \<and> is_current m s p \<and>
        fst (resolver (get_string m session_subject_key s) s) = Inr p)"

lemma verdict_vouched:
  assumes "session_verdict m resolver s = (v, s')"
  shows "vouched m resolver s r (see_verdict v r)"
proof (cases v)
  case (Current p)
  then show ?thesis using assms
    by (auto simp: session_verdict_def vouched_def discard_def
        split: if_splits sum.splits option.splits prod.splits)
qed (simp_all add: vouched_def)

text \<open>
  C5. Only current principals reach a handler: two handlers that agree on requests as they came and
  on requests with a principal that the resolver returned, in this very call, for the session's
  subject and with the session's security version, give the same response behind the
  middleware. Nothing else is ever shown to a handler.
\<close>

theorem only_current_principals:
  assumes "\<And>ws r'. vouched m resolver s r r' \<Longrightarrow> hnd ws r' = other ws r'"
  shows "resolve_session m resolver hnd (w, s) r = resolve_session m resolver other (w, s) r"
proof -
  obtain v s' where v: "session_verdict m resolver s = (v, s')" by fastforce
  then show ?thesis
    using assms [OF verdict_vouched [OF v]]
    by (cases v) (simp_all add: resolve_session_verdict)
qed

theorem only_current_principals_witness:
  "resolve_session demo_manager demo_resolver
     (\<lambda>ws r. if ctx r = \<lparr>principal_key = Some (CtxString ''u1''), nonce_key = None\<rparr> then (empty_response, \<lambda>k. ''x'') else ws)
     (empty_response, demo_session ''u1'' ''v1'') plain_request =
   resolve_session demo_manager demo_resolver (\<lambda>ws r. ws) (empty_response, demo_session ''u1'' ''v1'') plain_request"
proof (rule only_current_principals)
  fix ws :: "response \<times> (string \<Rightarrow> string)" and r'
  assume "vouched demo_manager demo_resolver (demo_session ''u1'' ''v1'') plain_request r'"
  then have "ctx r' \<noteq> \<lparr>principal_key = Some (CtxString ''u1''), nonce_key = None\<rparr>"
    by (auto simp: vouched_def plain_request_def with_principal_def)
  then show "(if ctx r' = \<lparr>principal_key = Some (CtxString ''u1''), nonce_key = None\<rparr>
      then (empty_response, \<lambda>k. ''x'') else ws) = ws" by simp
qed

lemma manager_get_put:
  "manager_laws m \<Longrightarrow> get_string m k (put_string m k' v s) = (if k = k' then v else get_string m k s)"
  unfolding manager_laws_def by blast

text \<open>Sessions that were current once: the state in which they are destroyed.\<close>

definition outdated :: "'s session_manager \<Rightarrow> 's resolver \<Rightarrow> 's \<Rightarrow> 's \<Rightarrow> bool" where
  "outdated m resolver s s1 \<longleftrightarrow> get_string m session_subject_key s \<noteq> [] \<and>
     (if get_string m session_security_version_key s = [] then s1 = s
      else case resolver (get_string m session_subject_key s) s of
          (Inl e, t) \<Rightarrow> errors_is e ErrUnauthenticated \<and> t = s1
        | (Inr p, t) \<Rightarrow> subject p = get_string m session_subject_key s \<and>
            security_version p \<noteq> get_string m session_security_version_key s \<and> t = s1)"

lemma outdated_verdict:
  "outdated m resolver s s1 \<Longrightarrow> \<exists>cause. session_verdict m resolver s = discard m cause s1"
  by (auto simp: outdated_def session_verdict_def is_current_def split: if_splits sum.splits prod.splits)

text \<open>
  C7. A session that is not current is out: when the resolver disowns the subject, or reports another
  security version, or the session carries none, a protected request is answered with 401, the
  handler never runs, and the session holds no value any more.
\<close>

theorem stale_session_rejected:
  assumes "manager_laws m" and "PrincipalFromContext (ctx r) = None"
    and "outdated m resolver s s1" and "destroy m s1 = (None, s2)"
  shows "resolve_session m resolver (RequireAuthenticated hnd) (w, s) r =
      (http_error ''authentication required'' 401 w, s2) \<and> get_string m key s2 = []"
proof -
  have "session_verdict m resolver s = (Anonymous, s2)"
    using outdated_verdict [OF assms(3)] assms(4) by (auto simp: discard_def)
  moreover have "get_string m key s2 = []" using assms(1,4) by (auto simp: manager_laws_def)
  ultimately show ?thesis
    using authenticated.rejected [of r hnd "(w, s2)"] assms(2)
    by (simp add: resolve_session_verdict refuse_def on_response_def)
qed

theorem stale_session_rejected_witness:
  "\<exists>h. sent (fst (resolve_session demo_manager demo_resolver (RequireAuthenticated (\<lambda>ws r. ws))
      (empty_response, demo_session ''u1'' ''v0'') plain_request)) = Some (401, h)"
proof -
  have o: "outdated demo_manager demo_resolver (demo_session ''u1'' ''v0'') (demo_session ''u1'' ''v0'')"
    by (simp add: outdated_def demo_resolver_def demo_principal_def)
  have p: "PrincipalFromContext (ctx plain_request) = None"
    by (simp add: plain_request_def PrincipalFromContext_def)
  have d: "destroy demo_manager (demo_session ''u1'' ''v0'') = (None, \<lambda>k. [])" by (simp add: demo_manager_def)
  from stale_session_rejected [OF demo_manager_laws p o d] show ?thesis
    by (simp add: http_error_sent(1) empty_response_def)
qed

text \<open>Sessions on which the middleware must give up.\<close>

definition failing :: "'s session_manager \<Rightarrow> 's resolver \<Rightarrow> 's \<Rightarrow> bool" where
  "failing m resolver s \<longleftrightarrow> (\<exists>s1. outdated m resolver s s1 \<and> fst (destroy m s1) \<noteq> None) \<or>
     get_string m session_subject_key s \<noteq> [] \<and> get_string m session_security_version_key s \<noteq> [] \<and>
     (case fst (resolver (get_string m session_subject_key s) s) of
        Inl e \<Rightarrow> \<not> errors_is e ErrUnauthenticated
      | Inr p \<Rightarrow> subject p \<noteq> get_string m session_subject_key s)"

lemma failing_verdict: "failing m resolver s \<Longrightarrow> is_failed (fst (session_verdict m resolver s))"
proof -
  assume "failing m resolver s"
  then consider (stale) s1 e s2 where "outdated m resolver s s1" "destroy m s1 = (Some e, s2)"
    | (bad) "get_string m session_subject_key s \<noteq> []" "get_string m session_security_version_key s \<noteq> []"
      "case fst (resolver (get_string m session_subject_key s) s) of
        Inl e \<Rightarrow> \<not> errors_is e ErrUnauthenticated | Inr p \<Rightarrow> subject p \<noteq> get_string m session_subject_key s"
    unfolding failing_def by (metis option.exhaust prod.collapse)
  then show ?thesis
  proof cases
    case stale
    then show ?thesis using outdated_verdict [OF stale(1)] by (auto simp: discard_def)
  next
    case bad
    then show ?thesis
      by (auto simp: session_verdict_def is_current_def split: sum.splits prod.splits)
  qed
qed

text \<open>
  C26. Failures fail closed: when the resolver fails for a reason of its own, when it answers for
  another subject, or when an outdated session cannot be destroyed, the error handler answers
  and no handler behind the middleware runs.
\<close>

theorem failures_fail_closed:
  assumes "failing m resolver s"
  shows "\<exists>e s'. resolve_session m resolver hnd (w, s) r = error_func m e (w, s') r \<and>
    resolve_session m resolver other (w, s) r = error_func m e (w, s') r"
proof -
  obtain v s' where v: "session_verdict m resolver s = (v, s')" by fastforce
  then obtain e where "v = Failed e" using failing_verdict [OF assms] by (cases v) auto
  with v show ?thesis by (auto simp: resolve_session_verdict)
qed

theorem failures_fail_closed_witness:
  "\<exists>e s'. resolve_session demo_manager demo_resolver (\<lambda>ws r. (empty_response, snd ws))
      (empty_response, demo_session ''down'' ''v1'') plain_request = error_func demo_manager e (empty_response, s') plain_request"
proof -
  have "failing demo_manager demo_resolver (demo_session ''down'' ''v1'')"
    by (simp add: failing_def demo_resolver_def ErrUnauthenticated_def)
  from failures_fail_closed [OF this] show ?thesis by blast
qed

text \<open>
  C25. Signing in lets exactly that identity in: after \<open>SignIn\<close> without an error, the next request of
  the session reaches a protected handler, with the resolver's principal, when the resolver
  still reports the identity's security version, and is refused once it reports another one.
\<close>

theorem sign_in_until_rotation:
  assumes "manager_laws m" and "SignIn m identity s = (None, s')"
    and "resolver (id_subject identity) s' = (Inr p, s1)" and "subject p = id_subject identity"
    and "destroy m s1 = (None, s2)" and "PrincipalFromContext (ctx r) = None"
  shows "resolve_session m resolver (RequireAuthenticated hnd) (w, s') r =
    (if security_version p = id_version identity then hnd (w, s1) (with_principal p r)
     else (http_error ''authentication required'' 401 w, s2))"
proof -
  have ok: "trim_space (id_subject identity) \<noteq> []" "id_version identity \<noteq> []"
    using assms(2) by (auto simp: SignIn_def split: if_splits)
  then have "id_subject identity \<noteq> []" using trim_space_length by auto
  moreover have keys: "get_string m session_subject_key s' = id_subject identity"
    "get_string m session_security_version_key s' = id_version identity"
    using assms(2) by (auto simp: SignIn_def manager_get_put [OF assms(1)] split: if_splits option.splits prod.splits)
  ultimately have "session_verdict m resolver s' =
      (if security_version p = id_version identity then (Current p, s1) else (Anonymous, s2))"
    using assms(3-5) ok by (simp add: session_verdict_def is_current_def discard_def)
  moreover have "PrincipalFromContext (ctx (with_principal p r)) = Some p"
    by (simp add: with_principal_def PrincipalFromContext_def)
  ultimately show ?thesis
    using authenticated.rejected [of r hnd "(w, s2)"] assms(6)
      authenticated.admitted [of "with_principal p r" hnd "(w, s1)"]
    by (simp add: resolve_session_verdict refuse_def on_response_def)
qed

theorem sign_in_until_rotation_witness:
  "\<exists>s'. SignIn demo_manager \<lparr>id_subject = ''u1'', id_version = ''v1''\<rparr> (\<lambda>k. []) = (None, s') \<and>
     resolve_session demo_manager demo_resolver (RequireAuthenticated (\<lambda>ws r. (empty_response, (\<lambda>k. ''in''))))
       (empty_response, s') plain_request = (empty_response, \<lambda>k. ''in'')"
proof -
  let ?id = "\<lparr>id_subject = ''u1'', id_version = ''v1''\<rparr>"
  have "trim_space ''u1'' = ''u1''" by (simp add: go_text)
  then obtain s' where s: "SignIn demo_manager ?id (\<lambda>k. []) = (None, s')"
    by (simp add: SignIn_def demo_manager_def)
  have r: "demo_resolver (id_subject ?id) s' = (Inr demo_principal, s')"
    "subject demo_principal = id_subject ?id" "security_version demo_principal = id_version ?id"
    by (simp_all add: demo_resolver_def demo_principal_def)
  have d: "destroy demo_manager s' = (None, \<lambda>k. [])" by (simp add: demo_manager_def)
  have p: "PrincipalFromContext (ctx plain_request) = None"
    by (simp add: plain_request_def PrincipalFromContext_def)
  have "resolve_session demo_manager demo_resolver (RequireAuthenticated (\<lambda>ws r. (empty_response, (\<lambda>k. ''in''))))
       (empty_response, s') plain_request = (empty_response, \<lambda>k. ''in'')"
    by (subst sign_in_until_rotation [where m = demo_manager and resolver = demo_resolver and p = demo_principal
          and identity = ?id and r = plain_request, OF demo_manager_laws s r(1,2) d p]) (simp add: r(3))
  with s show ?thesis by blast
qed

definition acceptable :: "'h session_config \<Rightarrow> bool" where
  "acceptable c \<longleftrightarrow> trim_space (CookieName c) \<noteq> [] \<and> 0 \<le> Lifetime c \<and> 0 \<le> IdleTimeout c \<and>
     IdleTimeout c \<le> (if Lifetime c = 0 then default_lifetime else Lifetime c) \<and>
     SameSite c \<in> {0, 1, 2, 3, 4} \<and> \<not> (SameSite c = 4 \<and> AllowInsecureCookies c)"

text \<open>
  C33. \<open>NewSessions\<close> accepts exactly the configurations it documents, and what it sets up is always
  safe: cookies are hidden from scripts, tokens are hashed in the store, an insecure cookie is
  never sent across sites, the lifetime is positive and bounds the idle timeout.
\<close>

theorem new_sessions_safe:
  "case NewSessions scs_new store resolver c of
     Inl e \<Rightarrow> \<not> (store \<noteq> None \<and> resolver \<noteq> None \<and> acceptable c)
   | Inr (m, st, rs) \<Rightarrow> store = Some st \<and> resolver = Some rs \<and> acceptable c \<and>
       cookie_http_only m \<and> scs_hash_token m \<and> cookie_path m = ''/'' \<and> 0 < scs_lifetime m \<and>
       0 \<le> scs_idle_timeout m \<and> scs_idle_timeout m \<le> scs_lifetime m \<and>
       cookie_same_site m \<in> {2, 3, 4} \<and>
       (cookie_secure m = (\<not> AllowInsecureCookies c)) \<and>
       (if cookie_same_site m = 4 then cookie_secure m else True)"
proof (cases "store = None \<or> resolver = None")
  case True
  then show ?thesis by (cases store) (auto simp add: NewSessions_def)
next
  case False
  then obtain st rs where s: "store = Some st" "resolver = Some rs" by auto
  note defs = s NewSessions_def acceptable_def same_site_defs default_lifetime_def Let_def
  consider (zero) "SameSite c = 0" | (default) "SameSite c = 1" | (lax) "SameSite c = 2" | (strict) "SameSite c = 3"
    | (none) "SameSite c = 4" | (other) "SameSite c \<notin> {0, 1, 2, 3, 4}" by fastforce
  then show ?thesis
    by cases (simp_all add: defs)
qed

end
