(* ===== verification/Auth_Revocation.thy ===== *)
theory Auth_Revocation
  imports Auth_Access
begin

section \<open>Signing in and rotating versions, in any order\<close>

text \<open>
  The promise of \<open>auth/session.go\<close> about interleavings: a session is committed with the security
  version that was seen when the credentials were verified, so that it is worthless once that
  version has been rotated, whichever comes first. The user authority is the application's: a
  state, what its resolver answers in that state, and the version each subject has. Its
  operations, sign-ins with identities verified long ago, requests and application data are
  interleaved by a step relation over any number of sessions.
\<close>

subsection \<open>The world\<close>

record ('a, 's) auth_world =
  authority :: 'a
  used :: "(string \<times> string) set"
  verified :: "session_identity set"
  session :: "nat \<Rightarrow> 's"

definition identity_of :: "principal \<Rightarrow> session_identity" where
  "identity_of p = \<lparr>id_subject = subject p, id_version = security_version p\<rparr>"

text \<open>The identity a session carries.\<close>

definition carried :: "'s session_manager \<Rightarrow> 's \<Rightarrow> session_identity" where
  "carried m s = \<lparr>id_subject = get_string m session_subject_key s,
     id_version = get_string m session_security_version_key s\<rparr>"

text \<open>
  What is expected of the parties: a failing call of the manager and the error handler leave the
  session's values alone, and so does the resolver, which answers for a subject with the version the authority has for it.
\<close>

definition calm_manager :: "'s session_manager \<Rightarrow> bool" where
  "calm_manager m \<longleftrightarrow>
     (\<forall>k s e s'. renew_token m s = (Some e, s') \<or> destroy m s = (Some e, s') \<longrightarrow> get_string m k s' = get_string m k s) \<and>
     (\<forall>e ws r. snd (error_func m e ws r) = snd ws)"

definition authority_laws ::
  "'s session_manager \<Rightarrow> ('a \<Rightarrow> string \<Rightarrow> string option) \<Rightarrow> ('a \<Rightarrow> 's resolver) \<Rightarrow> bool" where
  "authority_laws m ver res \<longleftrightarrow>
     (\<forall>a u s r s' k. res a u s = (r, s') \<longrightarrow> get_string m k s' = get_string m k s) \<and>
     (\<forall>a u s p s'. res a u s = (Inr p, s') \<longrightarrow> subject p = u \<longrightarrow> ver a u = Some (security_version p))"

text \<open>A change of the authority never brings an old version back.\<close>

definition fresh_change :: "('a \<Rightarrow> string \<Rightarrow> string option) \<Rightarrow> (string \<times> string) set \<Rightarrow> 'a \<Rightarrow> 'a \<Rightarrow> bool" where
  "fresh_change ver old a a' \<longleftrightarrow>
     (\<forall>u v. ver a' u = Some v \<longrightarrow> ver a u = Some v \<or> (u, v) \<notin> old)"

definition versions :: "('a \<Rightarrow> string \<Rightarrow> string option) \<Rightarrow> 'a \<Rightarrow> (string \<times> string) set" where
  "versions ver a = {(u, v). ver a u = Some v}"

subsection \<open>Steps\<close>

text \<open>
  A request runs the middleware around a handler that does nothing; what a handler does to its session are
  the steps \<open>sign_in\<close>, \<open>sign_out\<close>, \<open>put\<close> and \<open>remove\<close>. Applications keep to their own keys when
  they put values.
\<close>

inductive auth_step ::
  "'s session_manager \<Rightarrow> ('a \<Rightarrow> string \<Rightarrow> string option) \<Rightarrow> ('a \<Rightarrow> 's resolver) \<Rightarrow>
   ('a, 's) auth_world \<Rightarrow> ('a, 's) auth_world \<Rightarrow> bool" for m ver res where
  verify: "ver (authority w) u = Some v \<Longrightarrow>
     auth_step m ver res w (w\<lparr>verified := insert \<lparr>id_subject = u, id_version = v\<rparr> (verified w)\<rparr>)"
| change: "fresh_change ver (used w) (authority w) a \<Longrightarrow>
     auth_step m ver res w (w\<lparr>authority := a, used := used w \<union> versions ver a\<rparr>)"
| sign_in: "identity \<in> verified w \<Longrightarrow> SignIn m identity (session w i) = (e, s) \<Longrightarrow>
     auth_step m ver res w (w\<lparr>session := (session w)(i := s)\<rparr>)"
| sign_out: "SignOut m (session w i) = (e, s) \<Longrightarrow>
     auth_step m ver res w (w\<lparr>session := (session w)(i := s)\<rparr>)"
| put: "k \<noteq> session_subject_key \<Longrightarrow> k \<noteq> session_security_version_key \<Longrightarrow>
     auth_step m ver res w (w\<lparr>session := (session w)(i := Sessions_Put m k v (session w i))\<rparr>)"
| remove: "auth_step m ver res w (w\<lparr>session := (session w)(i := Sessions_Remove m k (session w i))\<rparr>)"
| request: "resolve_session m (res (authority w)) (\<lambda>ws r. ws) (x, session w i) r = (y, s) \<Longrightarrow>
     auth_step m ver res w (w\<lparr>session := (session w)(i := s)\<rparr>)"

text \<open>At the start nobody is signed in.\<close>

definition auth_start :: "'s session_manager \<Rightarrow> ('a \<Rightarrow> string \<Rightarrow> string option) \<Rightarrow> ('a, 's) auth_world \<Rightarrow> bool" where
  "auth_start m ver w \<longleftrightarrow> used w = versions ver (authority w) \<and> verified w = {} \<and>
     (\<forall>i k. get_string m k (session w i) = [])"

definition auth_reachable ::
  "'s session_manager \<Rightarrow> ('a \<Rightarrow> string \<Rightarrow> string option) \<Rightarrow> ('a \<Rightarrow> 's resolver) \<Rightarrow> ('a, 's) auth_world \<Rightarrow> bool" where
  "auth_reachable m ver res w \<longleftrightarrow> (\<exists>w0. auth_start m ver w0 \<and> (auth_step m ver res)\<^sup>*\<^sup>* w0 w)"

subsection \<open>The invariant\<close>

text \<open>What a session carries in full was verified, and everything verified was a version in use.\<close>

definition genuine :: "session_identity set \<Rightarrow> session_identity \<Rightarrow> bool" where
  "genuine V c \<longleftrightarrow> id_subject c = [] \<or> id_version c = [] \<or> c \<in> V"

definition auth_inv :: "'s session_manager \<Rightarrow> ('a \<Rightarrow> string \<Rightarrow> string option) \<Rightarrow> ('a, 's) auth_world \<Rightarrow> bool" where
  "auth_inv m ver w \<longleftrightarrow> versions ver (authority w) \<subseteq> used w \<and>
     (\<forall>c \<in> verified w. (id_subject c, id_version c) \<in> used w) \<and>
     (\<forall>i. genuine (verified w) (carried m (session w i)))"

lemma manager_get_remove:
  "manager_laws m \<Longrightarrow> get_string m k (remove_key m k' s) = (if k = k' then [] else get_string m k s)"
  unfolding manager_laws_def by blast

text \<open>Calls either keep all values of a session or leave none.\<close>

definition keeps_or_clears :: "'s session_manager \<Rightarrow> 's \<Rightarrow> 's \<Rightarrow> bool" where
  "keeps_or_clears m s s' \<longleftrightarrow> (\<forall>k. get_string m k s' = get_string m k s) \<or> (\<forall>k. get_string m k s' = [])"

lemma genuine_kept: "keeps_or_clears m s s' \<Longrightarrow> genuine V (carried m s) \<Longrightarrow> genuine V (carried m s')"
  by (auto simp: keeps_or_clears_def carried_def genuine_def)

lemma destroy_keeps_or_clears:
  assumes "manager_laws m" and "calm_manager m" and "destroy m s = (e, s')"
  shows "keeps_or_clears m s s'"
proof (cases e)
  case None
  then show ?thesis using assms(1,3) by (simp add: manager_laws_def keeps_or_clears_def)
next
  case (Some err)
  then have "get_string m k s' = get_string m k s" for k using assms(2,3) unfolding calm_manager_def by blast
  then show ?thesis by (simp add: keeps_or_clears_def)
qed

lemma discard_keeps_or_clears:
  "manager_laws m \<Longrightarrow> calm_manager m \<Longrightarrow> discard m c s = (v, s') \<Longrightarrow> keeps_or_clears m s s'"
  by (auto simp: discard_def intro: destroy_keeps_or_clears split: prod.splits option.splits)

lemma resolver_keeps:
  "authority_laws m ver res \<Longrightarrow> res a u s = (r, s') \<Longrightarrow> get_string m k s' = get_string m k s"
  unfolding authority_laws_def by blast

lemma keeps_or_clearsI: "(\<And>k. get_string m k s' = get_string m k s) \<Longrightarrow> keeps_or_clears m s s'"
  by (simp add: keeps_or_clears_def)

lemma keeps_or_clears_after:
  "(\<And>k. get_string m k s1 = get_string m k s) \<Longrightarrow> keeps_or_clears m s1 s' \<Longrightarrow> keeps_or_clears m s s'"
  by (simp add: keeps_or_clears_def)

lemma verdict_keeps_or_clears:
  assumes "manager_laws m" and "calm_manager m" and "authority_laws m ver res"
    and "session_verdict m (res a) s = (v, s')"
  shows "keeps_or_clears m s s'"
proof -
  let ?u = "get_string m session_subject_key s"
  obtain r s1 where r: "res a ?u s = (r, s1)" by fastforce
  have k: "get_string m k s1 = get_string m k s" for k using resolver_keeps [OF assms(3) r] .
  have "s' = s \<or> s' = s1 \<or> (\<exists>c. discard m c s = (v, s')) \<or> (\<exists>c. discard m c s1 = (v, s'))"
    using assms(4) r by (auto simp: session_verdict_def split: if_splits sum.splits)
  then show ?thesis
    using discard_keeps_or_clears [OF assms(1,2)] keeps_or_clears_after [OF k] keeps_or_clearsI [OF k]
      keeps_or_clearsI [of m s s] by blast
qed

lemma sign_in_session:
  assumes "manager_laws m" and "calm_manager m" and "SignIn m c s = (e, s')"
  shows "keeps_or_clears m s s' \<or> carried m s' = c"
proof (cases e)
  case None
  then have "carried m s' = c"
    using assms(3) by (cases c) (auto simp: SignIn_def carried_def manager_get_put [OF assms(1)] split: if_splits prod.splits option.splits)
  then show ?thesis ..
next
  case (Some err)
  with assms(3) have "s' = s \<or> (\<exists>f. renew_token m s = (Some f, s'))"
    by (auto simp: SignIn_def split: if_splits prod.splits option.splits)
  then show ?thesis using assms(2) keeps_or_clearsI [of m s' s] unfolding calm_manager_def by metis
qed

lemma sign_out_session:
  "manager_laws m \<Longrightarrow> calm_manager m \<Longrightarrow> SignOut m s = (e, s') \<Longrightarrow> keeps_or_clears m s s'"
  by (auto simp: SignOut_def intro: destroy_keeps_or_clears split: prod.splits option.splits)

lemma request_session:
  assumes "manager_laws m" and "calm_manager m" and "authority_laws m ver res"
    and "resolve_session m (res a) (\<lambda>ws r. ws) (x, s) r = (y, s')"
  shows "keeps_or_clears m s s'"
proof -
  obtain v s1 where v: "session_verdict m (res a) s = (v, s1)" by fastforce
  have "s' = s1"
  proof (cases v)
    case (Failed f)
    then have "error_func m f (x, s1) r = (y, s')" using assms(4) v by (simp add: resolve_session_verdict)
    then show ?thesis using assms(2) unfolding calm_manager_def by (metis snd_conv)
  qed (use assms(4) v in \<open>simp_all add: resolve_session_verdict\<close>)
  then show ?thesis using verdict_keeps_or_clears [OF assms(1-3) v] by simp
qed

lemma auth_inv_session:
  assumes "auth_inv m ver w" and "genuine (verified w) (carried m s)"
  shows "auth_inv m ver (w\<lparr>session := (session w)(i := s)\<rparr>)"
  using assms by (simp add: auth_inv_def)

lemma auth_inv_genuine: "auth_inv m ver w \<Longrightarrow> genuine (verified w) (carried m (session w i))"
  by (simp add: auth_inv_def)

lemma auth_step_inv:
  assumes "manager_laws m" and "calm_manager m" and "authority_laws m ver res"
    and "auth_step m ver res w w'" and inv: "auth_inv m ver w"
  shows "auth_inv m ver w'"
  using assms(4)
proof cases
  case (verify u v)
  then show ?thesis using inv by (auto simp: auth_inv_def versions_def genuine_def)
next
  case (change a)
  then show ?thesis using inv by (auto simp: auth_inv_def)
next
  case (sign_in c i e s)
  then have "genuine (verified w) (carried m s)"
    using sign_in_session [OF assms(1,2) sign_in(3)] genuine_kept [OF _ auth_inv_genuine [OF inv]]
    by (auto simp: genuine_def)
  then show ?thesis unfolding sign_in(1) by (rule auth_inv_session [OF inv])
next
  case (sign_out i e s)
  then show ?thesis
    using auth_inv_session [OF inv genuine_kept [OF sign_out_session [OF assms(1,2) sign_out(2)] auth_inv_genuine [OF inv]]]
    by simp
next
  case (put k i v)
  then have "carried m (Sessions_Put m k v (session w i)) = carried m (session w i)"
    by (simp add: carried_def Sessions_Put_def manager_get_put [OF assms(1)])
  then show ?thesis unfolding put(1) by (metis auth_inv_session [OF inv] auth_inv_genuine [OF inv])
next
  case (remove i k)
  have "genuine (verified w) (carried m (Sessions_Remove m k (session w i)))"
    using auth_inv_genuine [OF inv, of i]
    by (auto simp: genuine_def carried_def Sessions_Remove_def manager_get_remove [OF assms(1)])
  then show ?thesis unfolding remove by (rule auth_inv_session [OF inv])
next
  case (request i x r y s)
  then show ?thesis
    using auth_inv_session [OF inv genuine_kept [OF request_session [OF assms(1-3) request(2)] auth_inv_genuine [OF inv]]]
    by simp
qed

lemma auth_reachable_inv:
  assumes "manager_laws m" and "calm_manager m" and "authority_laws m ver res" and "auth_reachable m ver res w"
  shows "auth_inv m ver w"
proof -
  obtain w0 where start: "auth_start m ver w0" and steps: "(auth_step m ver res)\<^sup>*\<^sup>* w0 w"
    using assms(4) unfolding auth_reachable_def by blast
  from steps show ?thesis
  proof (induction rule: rtranclp_induct)
    case base
    then show ?case using start by (simp add: auth_start_def auth_inv_def genuine_def carried_def)
  next
    case (step w1 w2)
    then show ?case using auth_step_inv [OF assms(1-3)] by blast
  qed
qed

subsection \<open>Properties\<close>

lemma current_is_carried:
  assumes "authority_laws m ver res" and "session_verdict m (res a) s = (Current p, s')"
  shows "identity_of p = carried m s" and "id_subject (carried m s) \<noteq> []" and "id_version (carried m s) \<noteq> []"
    and "ver a (subject p) = Some (security_version p)"
proof -
  have p: "is_current m s p" "fst (res a (get_string m session_subject_key s) s) = Inr p"
    using assms(2)
    by (auto simp: session_verdict_def discard_def split: if_splits sum.splits prod.splits option.splits)
  then show "identity_of p = carried m s" "id_subject (carried m s) \<noteq> []" "id_version (carried m s) \<noteq> []"
    by (auto simp: is_current_def identity_of_def carried_def)
  have "\<exists>s1. res a (subject p) s = (Inr p, s1)"
    using p by (cases "res a (subject p) s") (simp add: is_current_def)
  then show "ver a (subject p) = Some (security_version p)"
    using assms(1) unfolding authority_laws_def by blast
qed

lemma session_handlers_agree:
  assumes "PrincipalFromContext (ctx r) = None"
    and "\<And>p s' ws. session_verdict m resolver s = (Current p, s') \<Longrightarrow>
      hnd ws (with_principal p r) = other ws (with_principal p r)"
  shows "resolve_session m resolver (RequireAuthenticated hnd) (x, s) r =
    resolve_session m resolver (RequireAuthenticated other) (x, s) r"
proof -
  obtain v s' where v: "session_verdict m resolver s = (v, s')" by fastforce
  then show ?thesis
    using assms by (cases v) (simp_all add: resolve_session_verdict RequireAuthenticated_def split: option.splits)
qed

text \<open>
  C16. Every authenticated request agrees with a verification of credentials: whatever sign-ins,
  requests, rotations and application data came before, in any order and over any number of
  sessions, a protected handler only sees a principal whose subject and security version were verified together
  before, and are at this moment what the authority has. Handlers that agree on those
  requests give the same response.
\<close>

theorem requests_agree_with_verification:
  assumes "manager_laws m" and "calm_manager m" and "authority_laws m ver res" and "auth_reachable m ver res w"
    and "PrincipalFromContext (ctx r) = None"
    and "\<And>ws r' p. PrincipalFromContext (ctx r') = Some p \<Longrightarrow> identity_of p \<in> verified w \<Longrightarrow>
      ver (authority w) (subject p) = Some (security_version p) \<Longrightarrow> hnd ws r' = other ws r'"
  shows "resolve_session m (res (authority w)) (RequireAuthenticated hnd) (x, session w i) r =
    resolve_session m (res (authority w)) (RequireAuthenticated other) (x, session w i) r"
proof (rule session_handlers_agree [OF assms(5)])
  fix p s' ws
  assume v: "session_verdict m (res (authority w)) (session w i) = (Current p, s')"
  note c = current_is_carried [OF assms(3) v]
  have "genuine (verified w) (carried m (session w i))"
    using auth_reachable_inv [OF assms(1-4)] by (rule auth_inv_genuine)
  with c(1-3) have "identity_of p \<in> verified w" by (simp add: genuine_def)
  moreover have "PrincipalFromContext (ctx (with_principal p r)) = Some p"
    by (simp add: with_principal_def PrincipalFromContext_def)
  ultimately show "hnd ws (with_principal p r) = other ws (with_principal p r)"
    using assms(6) c(4) by blast
qed

lemma retired_step:
  assumes "auth_step m ver res w w'" and "(u, v) \<in> used w" and "ver (authority w) u \<noteq> Some v"
  shows "(u, v) \<in> used w' \<and> ver (authority w') u \<noteq> Some v"
  using assms by cases (auto simp: fresh_change_def)

lemma retired_for_good:
  assumes "(auth_step m ver res)\<^sup>*\<^sup>* w w'" and "(u, v) \<in> used w" and "ver (authority w) u \<noteq> Some v"
  shows "ver (authority w') u \<noteq> Some v"
proof -
  from assms(1) have "(u, v) \<in> used w' \<and> ver (authority w') u \<noteq> Some v"
    by (induction rule: rtranclp_induct) (use assms(2,3) retired_step in \<open>blast+\<close>)
  then show ?thesis ..
qed

text \<open>
  C6. Rotation revokes for good: once the authority has another version for a subject than the one that was verified, no
  session with the old identity ever reaches a protected handler again, whatever happens
  afterwards, even when the sign-in with that identity commits only after the rotation.
\<close>

theorem rotation_revokes:
  assumes "manager_laws m" and "calm_manager m" and "authority_laws m ver res" and "auth_reachable m ver res w"
    and "\<lparr>id_subject = u, id_version = v\<rparr> \<in> verified w" and "ver (authority w) u \<noteq> Some v"
    and "(auth_step m ver res)\<^sup>*\<^sup>* w w'" and "carried m (session w' i) = \<lparr>id_subject = u, id_version = v\<rparr>"
    and "PrincipalFromContext (ctx r) = None"
  shows "resolve_session m (res (authority w')) (RequireAuthenticated hnd) (x, session w' i) r =
    resolve_session m (res (authority w')) (RequireAuthenticated other) (x, session w' i) r"
proof (rule session_handlers_agree [OF assms(9)])
  fix p s' ws
  assume vd: "session_verdict m (res (authority w')) (session w' i) = (Current p, s')"
  note c = current_is_carried [OF assms(3) vd]
  have "(u, v) \<in> used w" using auth_reachable_inv [OF assms(1-4)] assms(5) by (auto simp: auth_inv_def)
  from retired_for_good [OF assms(7) this assms(6)] c(1,4) assms(8)
  show "hnd ws (with_principal p r) = other ws (with_principal p r)" by (simp add: identity_of_def)
qed

subsection \<open>A rotation between verification and sign-in\<close>

text \<open>An authority that is a table of versions.\<close>

definition table_resolver :: "(string \<rightharpoonup> string) \<Rightarrow> 's resolver" where
  "table_resolver a u s = (case a u of None \<Rightarrow> Inl ErrUnauthenticated
     | Some v \<Rightarrow> Inr \<lparr>subject = u, security_version = v, roles = [], claims = Map.empty\<rparr>, s)"

definition table_versions :: "(string \<rightharpoonup> string) \<Rightarrow> string \<Rightarrow> string option" where
  "table_versions a u = a u"

lemma table_laws: "authority_laws (m :: 'b session_manager) table_versions table_resolver"
proof -
  have "ver = Some (security_version p)" if "Inr p = (case ver of None \<Rightarrow> Inl ErrUnauthenticated
      | Some v \<Rightarrow> Inr \<lparr>subject = u, security_version = v, roles = [], claims = Map.empty\<rparr>)" for u ver p
    using that by (cases ver) simp_all
  then show ?thesis
    unfolding authority_laws_def table_resolver_def table_versions_def prod.inject by metis
qed

lemma demo_calm: "calm_manager demo_manager"
  by (simp add: calm_manager_def demo_manager_def on_response_def)

definition early :: "(string \<rightharpoonup> string, string \<Rightarrow> string) auth_world" where
  "early = \<lparr>authority = [''u1'' \<mapsto> ''v1''], used = {(''u1'', ''v1'')}, verified = {}, session = (\<lambda>i k. [])\<rparr>"

definition ann :: session_identity where
  "ann = \<lparr>id_subject = ''u1'', id_version = ''v1''\<rparr>"

definition seen_ann :: "(string \<rightharpoonup> string, string \<Rightarrow> string) auth_world" where
  "seen_ann = early\<lparr>verified := {ann}\<rparr>"

definition rotated :: "(string \<rightharpoonup> string, string \<Rightarrow> string) auth_world" where
  "rotated = seen_ann\<lparr>authority := [''u1'' \<mapsto> ''v2''], 
     used := used seen_ann \<union> versions table_versions [''u1'' \<mapsto> ''v2'']\<rparr>"

definition signed_in :: "(string \<rightharpoonup> string, string \<Rightarrow> string) auth_world \<Rightarrow> (string \<rightharpoonup> string, string \<Rightarrow> string) auth_world" where
  "signed_in w = w\<lparr>session := (session w)(0 := snd (SignIn demo_manager ann (session w 0)))\<rparr>"

lemma early_start: "auth_start demo_manager table_versions early"
  by (auto simp: auth_start_def early_def versions_def table_versions_def demo_manager_def split: if_splits)

lemma early_verify: "auth_step demo_manager table_versions table_resolver early seen_ann"
proof -
  have "table_versions (authority early) ''u1'' = Some ''v1''" by (simp add: early_def table_versions_def)
  from auth_step.verify [where ver = table_versions, OF this] show ?thesis by (simp add: seen_ann_def ann_def early_def)
qed

lemma seen_rotate: "auth_step demo_manager table_versions table_resolver seen_ann rotated"
proof -
  have "fresh_change table_versions (used seen_ann) (authority seen_ann) [''u1'' \<mapsto> ''v2'']"
    by (simp add: fresh_change_def table_versions_def seen_ann_def early_def)
  then show ?thesis unfolding rotated_def by (rule auth_step.change)
qed

lemma late_sign_in: "ann \<in> verified w \<Longrightarrow> auth_step demo_manager table_versions table_resolver w (signed_in w)"
  unfolding signed_in_def
  by (rule auth_step.sign_in [where e = "fst (SignIn demo_manager ann (session w 0))"]) simp_all

lemma rotated_reachable: "auth_reachable demo_manager table_versions table_resolver rotated"
  unfolding auth_reachable_def using early_start early_verify seen_rotate by (meson rtranclp.intros)

lemma late_carried: "carried demo_manager (session (signed_in w) 0) = ann"
proof -
  have "trim_space ''u1'' = ''u1''" by (simp add: go_text)
  then show ?thesis by (simp add: carried_def signed_in_def SignIn_def ann_def demo_manager_def)
qed

text \<open>The identity is verified, the version rotated, and only then the sign-in is committed: it is worthless.\<close>

theorem rotation_revokes_witness:
  "resolve_session demo_manager (table_resolver (authority (signed_in rotated)))
     (RequireAuthenticated (\<lambda>ws r. (empty_response, \<lambda>k. ''in''))) (empty_response, session (signed_in rotated) 0) plain_request =
   resolve_session demo_manager (table_resolver (authority (signed_in rotated)))
     (RequireAuthenticated (\<lambda>ws r. ws)) (empty_response, session (signed_in rotated) 0) plain_request"
proof -
  have old: "\<lparr>id_subject = ''u1'', id_version = ''v1''\<rparr> \<in> verified rotated" "table_versions (authority rotated) ''u1'' \<noteq> Some ''v1''"
    by (simp_all add: rotated_def seen_ann_def ann_def table_versions_def)
  then have step: "(auth_step demo_manager table_versions table_resolver)\<^sup>*\<^sup>* rotated (signed_in rotated)"
    using late_sign_in [of rotated] by (simp add: ann_def)
  have p: "PrincipalFromContext (ctx plain_request) = None"
    by (simp add: plain_request_def PrincipalFromContext_def)
  show ?thesis
    by (rule rotation_revokes [OF demo_manager_laws demo_calm table_laws rotated_reachable old step
          late_carried [unfolded ann_def] p])
qed

text \<open>Signed in without a rotation, the same session is let in.\<close>

theorem requests_agree_with_verification_witness:
  "resolve_session demo_manager (table_resolver (authority (signed_in seen_ann)))
     (RequireAuthenticated (\<lambda>ws r. if PrincipalFromContext (ctx r) = None then (empty_response, \<lambda>k. ''x'') else ws))
     (empty_response, session (signed_in seen_ann) 0) plain_request =
   resolve_session demo_manager (table_resolver (authority (signed_in seen_ann)))
     (RequireAuthenticated (\<lambda>ws r. ws)) (empty_response, session (signed_in seen_ann) 0) plain_request"
proof -
  have "ann \<in> verified seen_ann" by (simp add: seen_ann_def)
  then have "auth_reachable demo_manager table_versions table_resolver (signed_in seen_ann)"
    unfolding auth_reachable_def using early_start early_verify late_sign_in by (meson rtranclp.intros)
  moreover have "PrincipalFromContext (ctx plain_request) = None"
    by (simp add: plain_request_def PrincipalFromContext_def)
  ultimately show ?thesis
    by (rule requests_agree_with_verification [OF demo_manager_laws demo_calm table_laws]) simp
qed

end
