(* ===== verification/Auth_Password.thy ===== *)
theory Auth_Password
  imports Go_Base64 "HOL-Library.Word"
begin

section \<open>Package auth: password hashing\<close>

text \<open>
  \<open>NewPasswords\<close>, \<open>Hash\<close>, \<open>Verify\<close>, \<open>VerifyWithRehash\<close> and \<open>NeedsRehash\<close> of
  \<open>auth/password.go\<close>, with the parameter fields at their widths. The package \<open>argon2id\<close> is not
  part of the repository: it is a parameter, with its documented behaviour as a hypothesis. An error
  that puts its own text behind the one it wraps is written like the others, text first.
\<close>

definition defaultMinPasswordBytes :: int where [simp]: "defaultMinPasswordBytes = 12"
definition defaultMaxPasswordBytes :: int where [simp]: "defaultMaxPasswordBytes = 1024"
definition maxArgonHashBytes :: nat where [simp]: "maxArgonHashBytes = 256"
definition maxArgonMemoryKiB :: "32 word" where [simp]: "maxArgonMemoryKiB = 262144"
definition maxArgonIterations :: "32 word" where [simp]: "maxArgonIterations = 6"
definition maxArgonParallelism :: "8 word" where [simp]: "maxArgonParallelism = 16"
definition maxArgonWorkKiB :: "64 word" where [simp]: "maxArgonWorkKiB = 524288"
definition maxArgonSaltBytes :: nat where [simp]: "maxArgonSaltBytes = 64"
definition maxArgonKeyBytes :: nat where [simp]: "maxArgonKeyBytes = 64"

record argon_params =
  Memory :: "32 word"
  Iterations :: "32 word"
  Parallelism :: "8 word"
  SaltLength :: "32 word"
  KeyLength :: "32 word"

definition zero_params :: argon_params where
  "zero_params = \<lparr>Memory = 0, Iterations = 0, Parallelism = 0, SaltLength = 0, KeyLength = 0\<rparr>"

definition default_params :: argon_params where
  "default_params = \<lparr>Memory = 65536, Iterations = 3, Parallelism = 2, SaltLength = 16, KeyLength = 32\<rparr>"

record password_config =
  MinBytes :: int
  MaxBytes :: int
  Params :: argon_params

record passwords =
  min_bytes :: int
  max_bytes :: int
  params :: argon_params

record password_verification =
  Matched :: bool
  NeedsRehash_flag :: bool

definition ErrPasswordTooShort :: gerror where
  "ErrPasswordTooShort = Sentinel ''password is too short''"

definition ErrPasswordTooLong :: gerror where
  "ErrPasswordTooLong = Sentinel ''password is too long''"

definition ErrUnsafeHash :: gerror where
  "ErrUnsafeHash = Sentinel ''password hash parameters exceed verification limits''"

text \<open>The functions of \<open>argon2id\<close> the package calls; hashing draws a salt.\<close>

record 's argon =
  CreateHash :: "string \<Rightarrow> argon_params \<Rightarrow> 's \<Rightarrow> string result \<times> 's"
  DecodeHash :: "string \<Rightarrow> argon_params result"
  ComparePasswordAndHash :: "string \<Rightarrow> string \<Rightarrow> bool result"

subsection \<open>Limits\<close>

definition validate_argon_params :: "argon_params \<Rightarrow> gerror option" where
  "validate_argon_params p =
     (if Memory p = 0 \<or> Memory p > maxArgonMemoryKiB \<or> Iterations p = 0 \<or> Iterations p > maxArgonIterations \<or>
         Parallelism p = 0 \<or> Parallelism p > maxArgonParallelism \<or>
         (ucast (Memory p) :: 64 word) * ucast (Iterations p) > maxArgonWorkKiB \<or>
         SaltLength p < 16 \<or> SaltLength p > of_nat maxArgonSaltBytes \<or>
         KeyLength p < 16 \<or> KeyLength p > of_nat maxArgonKeyBytes
      then Some ErrUnsafeHash else None)"

definition dollar :: char where
  "dollar = CHR ''$''"

definition preflight_hash :: "string \<Rightarrow> gerror option" where
  "preflight_hash hash =
     (if length hash > maxArgonHashBytes then Some (Suffixf ErrUnsafeHash ''encoded hash exceeds 256 bytes'')
      else let parts = split_on dollar hash in
        if length parts \<noteq> 6 then None
        else if length (parts ! 4) > b64_encoded_len maxArgonSaltBytes \<or> length (parts ! 5) > b64_encoded_len maxArgonKeyBytes
          then Some (Suffixf ErrUnsafeHash ''encoded salt or key exceeds verification limits'')
        else None)"

definition decode_hash :: "'s argon \<Rightarrow> string \<Rightarrow> argon_params result" where
  "decode_hash a hash =
     (case preflight_hash hash of
        Some e \<Rightarrow> Inl e
      | None \<Rightarrow> (case DecodeHash a hash of
            Inl e \<Rightarrow> Inl (Wrapf ''decode password hash'' e)
          | Inr p \<Rightarrow> (case validate_argon_params p of Some e \<Rightarrow> Inl e | None \<Rightarrow> Inr p)))"

subsection \<open>Operations\<close>

definition NewPasswords :: "password_config \<Rightarrow> passwords result" where
  "NewPasswords config =
     (let mn = (if MinBytes config = 0 then defaultMinPasswordBytes else MinBytes config);
          mx = (if MaxBytes config = 0 then defaultMaxPasswordBytes else MaxBytes config);
          ps = (if Params config = zero_params then default_params else Params config) in
      if mn < 1 \<or> mx < mn then Inl (Plain ''invalid password length policy'')
      else case validate_argon_params ps of
          Some e \<Rightarrow> Inl e
        | None \<Rightarrow> Inr \<lparr>min_bytes = mn, max_bytes = mx, params = ps\<rparr>)"

abbreviation too_short :: "passwords \<Rightarrow> gerror" where
  "too_short p \<equiv> Suffixf ErrPasswordTooShort (''minimum is '' @ itoa (nat (min_bytes p)) @ '' bytes'')"

abbreviation too_long :: "passwords \<Rightarrow> gerror" where
  "too_long p \<equiv> Suffixf ErrPasswordTooLong (''maximum is '' @ itoa (nat (max_bytes p)) @ '' bytes'')"

definition validate_password :: "passwords \<Rightarrow> string \<Rightarrow> gerror option" where
  "validate_password p password =
     (if int (length password) < min_bytes p then Some (too_short p)
      else if int (length password) > max_bytes p then Some (too_long p)
      else None)"

definition validate_candidate_password :: "passwords \<Rightarrow> string \<Rightarrow> gerror option" where
  "validate_candidate_password p password =
     (if int (length password) > max_bytes p then Some (too_long p) else None)"

definition Hash :: "'s argon \<Rightarrow> passwords \<Rightarrow> string \<Rightarrow> 's \<Rightarrow> string result \<times> 's" where
  "Hash a p password s =
     (case validate_password p password of
        Some e \<Rightarrow> (Inl e, s)
      | None \<Rightarrow> (case CreateHash a password (params p) s of
            (Inl e, s') \<Rightarrow> (Inl (Wrapf ''hash password'' e), s')
          | (Inr hash, s') \<Rightarrow> (Inr hash, s')))"

definition VerifyWithRehash :: "'s argon \<Rightarrow> passwords \<Rightarrow> string \<Rightarrow> string \<Rightarrow> password_verification result" where
  "VerifyWithRehash a p hash password =
     (case validate_candidate_password p password of
        Some e \<Rightarrow> Inl e
      | None \<Rightarrow> (case decode_hash a hash of
            Inl e \<Rightarrow> Inl e
          | Inr ps \<Rightarrow> (case ComparePasswordAndHash a password hash of
                Inl e \<Rightarrow> Inl (Wrapf ''verify password'' e)
              | Inr matched \<Rightarrow>
                  Inr \<lparr>Matched = matched, NeedsRehash_flag = (matched \<and> ps \<noteq> params p)\<rparr>)))"

text \<open>\<open>Verify\<close> returns the zero verification's flag next to an error.\<close>

definition Verify :: "'s argon \<Rightarrow> passwords \<Rightarrow> string \<Rightarrow> string \<Rightarrow> bool \<times> gerror option" where
  "Verify a p hash password =
     (case VerifyWithRehash a p hash password of Inl e \<Rightarrow> (False, Some e) | Inr v \<Rightarrow> (Matched v, None))"

definition NeedsRehash :: "'s argon \<Rightarrow> passwords \<Rightarrow> string \<Rightarrow> bool result" where
  "NeedsRehash a p hash =
     (case decode_hash a hash of Inl e \<Rightarrow> Inl e | Inr ps \<Rightarrow> Inr (ps \<noteq> params p))"

subsection \<open>Documented behaviour of argon2id\<close>

text \<open>
  \<open>CreateHash\<close> returns a string in the format of the reference implementation, with salt and
  key in unpadded base64; the string decodes to the parameters and matches the password.
\<close>

definition phc_string :: "argon_params \<Rightarrow> string \<Rightarrow> string \<Rightarrow> string" where
  "phc_string p salt key = dollar # ''argon2id'' @ dollar # ''v=19'' @ dollar #
     (''m='' @ itoa (unat (Memory p)) @ '',t='' @ itoa (unat (Iterations p)) @ '',p='' @ itoa (unat (Parallelism p))) @
     dollar # salt @ dollar # key"

definition argon_laws :: "'s argon \<Rightarrow> bool" where
  "argon_laws a \<longleftrightarrow> (\<forall>pw p s h s'. CreateHash a pw p s = (Inr h, s') \<longrightarrow>
     DecodeHash a h = Inr p \<and> ComparePasswordAndHash a pw h = Inr True \<and>
     (\<exists>salt key. h = phc_string p salt key \<and> dollar \<notin> set salt \<and> dollar \<notin> set key \<and>
        length salt = b64_encoded_len (unat (SaltLength p)) \<and> length key = b64_encoded_len (unat (KeyLength p))))"

subsection \<open>The limits as numbers\<close>

text \<open>The 64-bit product of two 32-bit numbers does not wrap.\<close>

lemma product_exact:
  fixes a b :: "32 word"
  shows "unat ((ucast a :: 64 word) * ucast b) = unat a * unat b"
proof -
  have "unat a < 2 ^ 32" "unat b < 2 ^ 32" using unsigned_less [of a] unsigned_less [of b] by simp_all
  then have "unat a * unat b < 2 ^ 32 * 2 ^ 32" by (intro mult_strict_mono) simp_all
  then have "unat a * unat b < 2 ^ 64" by simp
  moreover have "take_bit 64 (unat a) = unat a" "take_bit 64 (unat b) = unat b"
    using \<open>unat a < 2 ^ 32\<close> \<open>unat b < 2 ^ 32\<close> by (simp_all add: take_bit_nat_eq_self)
  ultimately show ?thesis by (simp add: unat_word_ariths unsigned_ucast_eq)
qed

definition within_limits :: "argon_params \<Rightarrow> bool" where
  "within_limits p \<longleftrightarrow>
     1 \<le> unat (Memory p) \<and> unat (Memory p) \<le> 262144 \<and> 1 \<le> unat (Iterations p) \<and> unat (Iterations p) \<le> 6 \<and>
     1 \<le> unat (Parallelism p) \<and> unat (Parallelism p) \<le> 16 \<and>
     unat (Memory p) * unat (Iterations p) \<le> 524288 \<and>
     16 \<le> unat (SaltLength p) \<and> unat (SaltLength p) \<le> 64 \<and> 16 \<le> unat (KeyLength p) \<and> unat (KeyLength p) \<le> 64"

lemma word_bounds:
  fixes w :: "32 word" and b :: "8 word" and d :: "64 word"
  shows "w = 0 \<longleftrightarrow> unat w = 0" "b = 0 \<longleftrightarrow> unat b = 0"
    "w > 262144 \<longleftrightarrow> unat w > 262144" "w > 6 \<longleftrightarrow> unat w > 6" "b > 16 \<longleftrightarrow> unat b > 16"
    "d > 524288 \<longleftrightarrow> unat d > 524288" "w < 16 \<longleftrightarrow> unat w < 16" "w > 64 \<longleftrightarrow> unat w > 64"
  by (simp_all add: word_less_nat_alt unat_eq_0)

lemmas argon_limit_defs = maxArgonMemoryKiB_def maxArgonIterations_def maxArgonParallelism_def maxArgonWorkKiB_def
  maxArgonSaltBytes_def maxArgonKeyBytes_def of_nat_numeral

lemma validate_argon_params_iff: "validate_argon_params p = None \<longleftrightarrow> within_limits p"
  unfolding validate_argon_params_def within_limits_def argon_limit_defs word_bounds product_exact
  by (simp add: not_less)

lemma validate_argon_params_error: "validate_argon_params p = Some e \<Longrightarrow> e = ErrUnsafeHash"
  by (simp add: validate_argon_params_def split: if_splits)

lemma decode_hash_limits: "decode_hash a hash = Inr p \<Longrightarrow>
    length hash \<le> 256 \<and> DecodeHash a hash = Inr p \<and> within_limits p"
  by (auto simp: decode_hash_def preflight_hash_def validate_argon_params_iff [symmetric]
      split: option.splits sum.splits if_splits)

subsection \<open>A hash this package made passes its own limits\<close>

lemma itoa_length: "n < 10 ^ Suc k \<Longrightarrow> length (itoa n) \<le> Suc k"
proof (induction k arbitrary: n)
  case 0
  then show ?case by (subst itoa.simps) simp
next
  case (Suc k)
  show ?case
  proof (cases "n < 10")
    case True
    then show ?thesis by (subst itoa.simps) simp
  next
    case False
    have "n div 10 < 10 ^ Suc k" using Suc.prems by (simp add: less_mult_imp_div_less mult.commute)
    then have "length (itoa (n div 10)) \<le> Suc k" by (rule Suc.IH)
    then show ?thesis using False by (subst itoa.simps) simp
  qed
qed

lemma itoa_no_dollar: "dollar \<notin> set (itoa n)"
  using itoa_digits [of n] by (auto simp: is_digit_def dollar_def)

lemma phc_split:
  assumes "dollar \<notin> set salt" and "dollar \<notin> set key"
  shows "split_on dollar (phc_string p salt key) = [[], ''argon2id'', ''v=19'',
    ''m='' @ itoa (unat (Memory p)) @ '',t='' @ itoa (unat (Iterations p)) @ '',p='' @ itoa (unat (Parallelism p)),
    salt, key]"
proof -
  let ?m = "''m='' @ itoa (unat (Memory p)) @ '',t='' @ itoa (unat (Iterations p)) @ '',p='' @ itoa (unat (Parallelism p))"
  have free: "dollar \<notin> set ''argon2id''" "dollar \<notin> set ''v=19''" by (simp_all add: dollar_def)
  have "dollar \<notin> set ''m=''" "dollar \<notin> set '',t=''" "dollar \<notin> set '',p=''" by (simp_all add: dollar_def)
  then have m: "dollar \<notin> set ?m" using itoa_no_dollar by simp
  have s: "split_on dollar (x @ dollar # y) = x # split_on dollar y" if "dollar \<notin> set x" for x y
    using that by (simp add: split_on_append_sep split_on_no_sep)
  have "split_on dollar (dollar # y) = [] # split_on dollar y" for y by simp
  then show ?thesis
    unfolding phc_string_def
    by (simp only: s [OF free(1)] s [OF free(2)] s [OF m] s [OF assms(1)] split_on_no_sep [OF assms(2)])
qed

lemma phc_length:
  assumes "within_limits p" and "length salt = b64_encoded_len (unat (SaltLength p))"
    and "length key = b64_encoded_len (unat (KeyLength p))"
  shows "length salt \<le> 86" and "length key \<le> 86" and "length (phc_string p salt key) \<le> 206"
proof -
  have "list_all (\<lambda>n. b64_encoded_len n \<le> 86) [0..<65]" by code_simp
  then have mono: "b64_encoded_len n \<le> 86" if "n \<le> 64" for n
    using that by (simp only: list_all_iff set_upt) (simp add: less_Suc_eq_le)
  show s: "length salt \<le> 86" and k: "length key \<le> 86" using assms mono by (simp_all add: within_limits_def)
  have "length (itoa (unat (Memory p))) \<le> Suc 5" "length (itoa (unat (Iterations p))) \<le> Suc 0"
    "length (itoa (unat (Parallelism p))) \<le> Suc 1"
    using assms(1) itoa_length [of _ 5] itoa_length [of _ 0] itoa_length [of _ 1]
    by (simp_all add: within_limits_def)
  then show "length (phc_string p salt key) \<le> 206" using s k by (simp add: phc_string_def)
qed

lemma decode_own_hash:
  assumes "argon_laws a" and "CreateHash a pw p s = (Inr h, s')" and "within_limits p"
  shows "decode_hash a h = Inr p"
proof -
  obtain salt key where h: "h = phc_string p salt key" "dollar \<notin> set salt" "dollar \<notin> set key"
    and len: "length salt = b64_encoded_len (unat (SaltLength p))" "length key = b64_encoded_len (unat (KeyLength p))"
    and d: "DecodeHash a h = Inr p"
    using assms(1,2) unfolding argon_laws_def by metis
  have "b64_encoded_len 64 = 86" by (simp add: b64_encoded_len_def)
  then have "preflight_hash h = None"
    using phc_length [OF assms(3) len] phc_split [OF h(2,3), of p]
    by (simp add: preflight_hash_def h(1) eval_nat_numeral)
  then show ?thesis using d validate_argon_params_iff [THEN iffD2, OF assms(3)] by (simp add: decode_hash_def)
qed

lemma new_passwords_ok: "NewPasswords c = Inr p \<Longrightarrow> 1 \<le> min_bytes p \<and> min_bytes p \<le> max_bytes p \<and> within_limits (params p)"
  by (auto simp: NewPasswords_def Let_def validate_argon_params_iff [symmetric] split: if_splits option.splits)

subsection \<open>Properties\<close>

text \<open>
  C13. Round trip: a hash made by one configuration verifies, for its password, under every
  configuration whose length limit admits the password, own parameters or not; the rehash
  flag is set exactly when the parameters differ.
\<close>

theorem hash_verifies:
  assumes "argon_laws a" and "NewPasswords c = Inr p" and "Hash a p pw s = (Inr h, s')"
    and "int (length pw) \<le> max_bytes q"
  shows "VerifyWithRehash a q h pw = Inr \<lparr>Matched = True, NeedsRehash_flag = (params p \<noteq> params q)\<rparr> \<and>
    Verify a q h pw = (True, None) \<and> NeedsRehash a q h = Inr (params p \<noteq> params q)"
proof -
  have c: "CreateHash a pw (params p) s = (Inr h, s')"
    using assms(3) by (auto simp: Hash_def split: option.splits prod.splits sum.splits)
  have d: "decode_hash a h = Inr (params p)"
    using decode_own_hash [OF assms(1) c] new_passwords_ok [OF assms(2)] by simp
  have m: "ComparePasswordAndHash a pw h = Inr True" using assms(1) c unfolding argon_laws_def by blast
  show ?thesis using d m assms(4)
    by (simp add: VerifyWithRehash_def Verify_def NeedsRehash_def validate_candidate_password_def)
qed

text \<open>An \<open>argon2id\<close> that keeps the password in the string, for the witnesses.\<close>

definition demo_key :: "nat \<Rightarrow> string" where
  "demo_key n = replicate (b64_encoded_len n) CHR ''A''"

definition demo_argon :: "argon_params \<Rightarrow> string \<Rightarrow> nat argon" where
  "demo_argon p pw = \<lparr>
     CreateHash = (\<lambda>w q s. (if w = pw \<and> q = p
       then Inr (phc_string p (demo_key (unat (SaltLength p))) (demo_key (unat (KeyLength p)))) else Inl (External ''salt''), Suc s)),
     DecodeHash = (\<lambda>h. if h = phc_string p (demo_key (unat (SaltLength p))) (demo_key (unat (KeyLength p)))
       then Inr p else Inl (External ''format'')),
     ComparePasswordAndHash = (\<lambda>w h. Inr (w = pw))\<rparr>"

lemma demo_argon_laws: "argon_laws (demo_argon p pw)"
proof -
  have "dollar \<notin> set (demo_key n)" "length (demo_key n) = b64_encoded_len n" for n
    by (simp_all add: demo_key_def dollar_def)
  then show ?thesis by (auto simp: argon_laws_def demo_argon_def split: if_splits)
qed

definition demo_config :: password_config where
  "demo_config = \<lparr>MinBytes = 0, MaxBytes = 0, Params = zero_params\<rparr>"

lemma demo_passwords: "NewPasswords demo_config = Inr \<lparr>min_bytes = 12, max_bytes = 1024, params = default_params\<rparr>"
  by (simp add: NewPasswords_def demo_config_def validate_argon_params_def default_params_def Let_def)

theorem hash_verifies_witness:
  "\<exists>h. Hash (demo_argon default_params ''correct horse'') \<lparr>min_bytes = 12, max_bytes = 1024, params = default_params\<rparr>
      ''correct horse'' 0 = (Inr h, 1) \<and>
     VerifyWithRehash (demo_argon default_params ''correct horse'')
       \<lparr>min_bytes = 12, max_bytes = 1024, params = default_params\<lparr>Iterations := 4\<rparr>\<rparr> h ''correct horse'' =
     Inr \<lparr>Matched = True, NeedsRehash_flag = True\<rparr>"
proof -
  let ?p = "\<lparr>min_bytes = 12, max_bytes = 1024, params = default_params\<rparr>"
  let ?q = "\<lparr>min_bytes = 12, max_bytes = 1024, params = default_params\<lparr>Iterations := 4\<rparr>\<rparr>"
  let ?a = "demo_argon default_params ''correct horse''"
  obtain h where h: "Hash ?a ?p ''correct horse'' 0 = (Inr h, 1)"
    by (simp add: Hash_def validate_password_def demo_argon_def)
  have l: "int (length ''correct horse'') \<le> max_bytes ?q" by simp
  from hash_verifies [OF demo_argon_laws demo_passwords h l] h show ?thesis
    by (simp add: default_params_def)
qed

text \<open>
  C12. No hostile hash is ever computed on: replacing Argon2 by anything that agrees with it for hashes
  of at most 256 bytes whose parameters are within the limits, and passwords within the length
  limit, changes no verification. Nothing else is passed to the expensive comparison.
\<close>

theorem verification_cost_bounded:
  assumes "\<And>pw h p. DecodeHash a h = Inr p \<Longrightarrow> within_limits p \<Longrightarrow> length h \<le> 256 \<Longrightarrow>
      int (length pw) \<le> max_bytes q \<Longrightarrow> f pw h = ComparePasswordAndHash a pw h"
  shows "VerifyWithRehash (a\<lparr>ComparePasswordAndHash := f\<rparr>) q h pw = VerifyWithRehash a q h pw \<and>
    Verify (a\<lparr>ComparePasswordAndHash := f\<rparr>) q h pw = Verify a q h pw"
proof -
  have d: "decode_hash (a\<lparr>ComparePasswordAndHash := f\<rparr>) h = decode_hash a h"
    by (simp add: decode_hash_def cong: option.case_cong)
  have "VerifyWithRehash (a\<lparr>ComparePasswordAndHash := f\<rparr>) q h pw = VerifyWithRehash a q h pw"
  proof (cases "decode_hash a h")
    case (Inl e)
    with d show ?thesis by (simp add: VerifyWithRehash_def split: option.splits)
  next
    case (Inr p)
    then have "int (length pw) \<le> max_bytes q \<Longrightarrow> f pw h = ComparePasswordAndHash a pw h"
      using assms [of h p pw] decode_hash_limits [OF Inr] by simp
    with Inr d show ?thesis
      by (auto simp: VerifyWithRehash_def validate_candidate_password_def split: option.splits)
  qed
  then show ?thesis by (simp add: Verify_def)
qed

definition hostile_argon :: "nat argon" where
  "hostile_argon = \<lparr>CreateHash = (\<lambda>w q s. (Inl (Plain []), s)),
     DecodeHash = (\<lambda>h. Inr (default_params\<lparr>Memory := 4000000000\<rparr>)), ComparePasswordAndHash = (\<lambda>w h. Inr True)\<rparr>"

theorem verification_cost_bounded_witness:
  "VerifyWithRehash (hostile_argon\<lparr>ComparePasswordAndHash := (\<lambda>w h. Inl (External ''out of memory''))\<rparr>)
      \<lparr>min_bytes = 12, max_bytes = 1024, params = default_params\<rparr> ''x'' ''y'' =
   VerifyWithRehash hostile_argon \<lparr>min_bytes = 12, max_bytes = 1024, params = default_params\<rparr> ''x'' ''y''"
  by (rule conjunct1 [OF verification_cost_bounded])
    (auto simp: hostile_argon_def default_params_def within_limits_def)

text \<open>
  The limit check is exact in the natural numbers, although it is written on machine words: the
  product of memory and iterations is computed without wrap-around, so a profile passes exactly
  when every cost is within its bound.
\<close>

theorem argon_limits_exact:
  "validate_argon_params p =
     (if 1 \<le> unat (Memory p) \<and> unat (Memory p) \<le> 262144 \<and>
         1 \<le> unat (Iterations p) \<and> unat (Iterations p) \<le> 6 \<and>
         1 \<le> unat (Parallelism p) \<and> unat (Parallelism p) \<le> 16 \<and>
         unat (Memory p) * unat (Iterations p) \<le> 524288 \<and>
         16 \<le> unat (SaltLength p) \<and> unat (SaltLength p) \<le> 64 \<and>
         16 \<le> unat (KeyLength p) \<and> unat (KeyLength p) \<le> 64
      then None else Some ErrUnsafeHash)"
proof (cases "validate_argon_params p")
  case None
  then show ?thesis using validate_argon_params_iff [of p] by (simp add: within_limits_def)
next
  case (Some e)
  then show ?thesis
    using validate_argon_params_iff [of p] validate_argon_params_error [OF Some]
    unfolding within_limits_def by simp
qed

text \<open>
  \<open>NewPasswords\<close> and the length policy: zero fields take the defaults; a configuration is
  accepted exactly when its limits are ordered and its profile is within the limits; an accepted
  one refuses to hash exactly the passwords outside its limits, with the matching sentinel.
\<close>

theorem password_policy:
  "let mn = (if MinBytes c = 0 then 12 else MinBytes c);
       mx = (if MaxBytes c = 0 then 1024 else MaxBytes c);
       ps = (if Params c = zero_params then default_params else Params c) in
   case NewPasswords c of
     Inl e \<Rightarrow> mn < 1 \<or> mx < mn \<or> (e = ErrUnsafeHash \<and> validate_argon_params ps = Some e)
   | Inr p \<Rightarrow> p = \<lparr>min_bytes = mn, max_bytes = mx, params = ps\<rparr> \<and>
       1 \<le> mn \<and> mn \<le> mx \<and> within_limits ps \<and>
       (int (length pw) < mn) = (Hash a p pw s = (Inl (too_short p), s)) \<and>
       (int (length pw) > mx) = (Hash a p pw s = (Inl (too_long p), s)) \<and>
       (int (length pw) > mx) = (VerifyWithRehash a p h pw = Inl (too_long p))"
proof (cases "NewPasswords c")
  case (Inl e)
  then show ?thesis
    by (auto simp: NewPasswords_def Let_def dest: validate_argon_params_error split: if_splits option.splits)
next
  case (Inr p)
  define mn where "mn = min_bytes p"
  define mx where "mx = max_bytes p"
  have p: "mn = (if MinBytes c = 0 then 12 else MinBytes c)" "mx = (if MaxBytes c = 0 then 1024 else MaxBytes c)"
    "params p = (if Params c = zero_params then default_params else Params c)"
    "p = \<lparr>min_bytes = mn, max_bytes = mx, params = params p\<rparr>"
    using Inr by (auto simp: NewPasswords_def Let_def mn_def mx_def split: if_splits option.splits)
  note ok = new_passwords_ok [OF Inr, folded mn_def mx_def]
  have pre: "preflight_hash h \<noteq> Some (too_long p)"
    by (simp add: preflight_hash_def Let_def)
  have dec: "decode_hash a h \<noteq> Inl (too_long p)"
    using pre by (auto simp: decode_hash_def ErrUnsafeHash_def dest: validate_argon_params_error
        split: option.splits sum.splits)
  have short: "(int (length pw) < mn) = (Hash a p pw s = (Inl (too_short p), s))"
    by (auto simp: Hash_def validate_password_def mn_def split: option.splits prod.splits sum.splits)
  have long: "(int (length pw) > mx) = (Hash a p pw s = (Inl (too_long p), s))"
    using ok by (auto simp: Hash_def validate_password_def mn_def mx_def split: option.splits prod.splits sum.splits)
  have ver: "(int (length pw) > mx) = (VerifyWithRehash a p h pw = Inl (too_long p))"
    using dec by (auto simp: VerifyWithRehash_def validate_candidate_password_def mx_def
        split: option.splits sum.splits)
  show ?thesis
    unfolding Let_def p(1-3) [symmetric] Inr sum.case
    using p(4) ok short long ver by simp
qed

end
