(* ===== verification/Auth_Jwt.thy ===== *)
theory Auth_Jwt
  imports Go_Base
begin

section \<open>Package auth: bearer tokens with an expiry\<close>

text \<open>
  \<open>auth/jwt.go\<close>. golang-jwt, which signs and parses, is a parameter with its documented behaviour
  as a hypothesis. Times and durations are nanoseconds, a clock reads the state; what the
  library stores of a time is whole seconds. The secret is a value: the package copies it.
\<close>

definition nanos :: int where "nanos = 1000000000"
definition minJWTLifetime :: int where "minJWTLifetime = nanos"
definition maxJWTLifetime :: int where "maxJWTLifetime = 15 * 60 * nanos"
definition maxJWTLeeway :: int where "maxJWTLeeway = 60 * nanos"

lemmas jwt_consts = nanos_def minJWTLifetime_def maxJWTLifetime_def maxJWTLeeway_def

record 's jwt_config =
  cfg_issuer :: string
  cfg_audience :: string
  cfg_secret :: string
  cfg_lifetime :: int
  cfg_leeway :: int
  cfg_now :: "('s \<Rightarrow> int) option"

record jwt_claims =
  cl_roles :: "string list"
  cl_issuer :: string
  cl_subject :: string
  cl_audience :: "string list"
  cl_expires :: "int option"
  cl_not_before :: "int option"
  cl_issued :: "int option"

record 's jwts =
  jwt_issuer :: string
  jwt_audience :: string
  jwt_secret :: string
  jwt_lifetime :: int
  jwt_leeway :: int
  jwt_now :: "'s \<Rightarrow> int"

record parse_options =
  valid_methods :: "string list"
  with_issuer :: string
  with_audience :: string
  expiration_required :: bool
  check_issued_at :: bool
  with_leeway :: int
  parse_time :: int

record jwt_library =
  jwt_sign :: "string \<Rightarrow> jwt_claims \<Rightarrow> string result"
  jwt_parse :: "parse_options \<Rightarrow> string \<Rightarrow> string \<Rightarrow> (jwt_claims \<times> bool) result"

text \<open>\<open>NewNumericDate\<close> cuts a time to the second; \<open>Sub\<close> saturates at 64 bits.\<close>

definition numeric_date :: "int \<Rightarrow> int" where
  "numeric_date t = t div nanos * nanos"

definition time_sub :: "int \<Rightarrow> int \<Rightarrow> int" where
  "time_sub a b = max (- (2 ^ 63)) (min (2 ^ 63 - 1) (a - b))"

subsection \<open>Operations\<close>

definition NewJWTs :: "('s \<Rightarrow> int) \<Rightarrow> 's jwt_config \<Rightarrow> 's jwts result" where
  "NewJWTs time_now config =
     (if cfg_issuer config = [] \<or> cfg_audience config = [] then Inl (Plain ''JWT issuer and audience are required'')
      else if length (cfg_secret config) < 32 then Inl (Plain ''JWT secret must contain at least 32 bytes'')
      else if cfg_lifetime config < minJWTLifetime \<or> cfg_lifetime config > maxJWTLifetime
        then Inl (Plain ''JWT lifetime must be between 1s and 15m0s'')
      else if cfg_lifetime config mod nanos \<noteq> 0 then Inl (Plain ''JWT lifetime must use whole-second precision'')
      else if cfg_leeway config < 0 \<or> cfg_leeway config > maxJWTLeeway
        then Inl (Plain ''JWT leeway must be between zero and 1m0s'')
      else Inr \<lparr>jwt_issuer = cfg_issuer config, jwt_audience = cfg_audience config, jwt_secret = cfg_secret config,
        jwt_lifetime = cfg_lifetime config, jwt_leeway = cfg_leeway config,
        jwt_now = (case cfg_now config of None \<Rightarrow> time_now | Some clock \<Rightarrow> clock)\<rparr>)"

definition IssueToken :: "jwt_library \<Rightarrow> 's jwts \<Rightarrow> string \<Rightarrow> string list \<Rightarrow> 's \<Rightarrow> string result" where
  "IssueToken lib j subj held s =
     (if subj = [] then Inl (Plain ''JWT subject is required'')
      else let now = jwt_now j s in
        case jwt_sign lib (jwt_secret j) \<lparr>cl_roles = held, cl_issuer = jwt_issuer j, cl_subject = subj,
            cl_audience = [jwt_audience j], cl_expires = Some (numeric_date (now + jwt_lifetime j)),
            cl_not_before = Some (numeric_date now), cl_issued = Some (numeric_date now)\<rparr> of
          Inl e \<Rightarrow> Inl (Wrapf ''sign JWT'' e)
        | Inr token \<Rightarrow> Inr token)"

definition verify_options :: "'s jwts \<Rightarrow> 's \<Rightarrow> parse_options" where
  "verify_options j s = \<lparr>valid_methods = [''HS256''], with_issuer = jwt_issuer j, with_audience = jwt_audience j,
     expiration_required = True, check_issued_at = True, with_leeway = jwt_leeway j, parse_time = jwt_now j s\<rparr>"

definition VerifyToken :: "jwt_library \<Rightarrow> 's jwts \<Rightarrow> string \<Rightarrow> 's \<Rightarrow> jwt_claims result" where
  "VerifyToken lib j encoded s =
     (case jwt_parse lib (verify_options j s) (jwt_secret j) encoded of
        Inl e \<Rightarrow> Inl (Wrapf ''verify JWT'' e)
      | Inr (c, valid) \<Rightarrow>
          if \<not> valid \<or> cl_subject c = [] then Inl (Plain ''verify JWT: invalid claims'')
          else (case (cl_issued c, cl_expires c) of
              (Some issued, Some expires) \<Rightarrow>
                let lifetime = time_sub expires issued in
                if lifetime \<le> 0 \<or> lifetime > jwt_lifetime j
                then Inl (Plain ''verify JWT: token lifetime exceeds configured profile'')
                else Inr c
            | _ \<Rightarrow> Inl (Plain ''verify JWT: issued-at and expiration are required'')))"

subsection \<open>The library's promises\<close>

text \<open>The checks the options ask for, as the library documents them.\<close>

definition claims_valid :: "parse_options \<Rightarrow> jwt_claims \<Rightarrow> bool" where
  "claims_valid opts c \<longleftrightarrow> cl_issuer c = with_issuer opts \<and> with_audience opts \<in> set (cl_audience c) \<and>
     (case cl_expires c of None \<Rightarrow> \<not> expiration_required opts | Some e \<Rightarrow> parse_time opts < e + with_leeway opts) \<and>
     (case cl_not_before c of None \<Rightarrow> True | Some n \<Rightarrow> n - with_leeway opts \<le> parse_time opts) \<and>
     (case cl_issued c of None \<Rightarrow> True | Some i \<Rightarrow> check_issued_at opts \<longrightarrow> i - with_leeway opts \<le> parse_time opts)"

text \<open>Claims that survive the encoding as they are: ASCII text and whole seconds.\<close>

definition ascii :: "string \<Rightarrow> bool" where
  "ascii t \<longleftrightarrow> list_all (\<lambda>c. ord c < 128) t"

definition encodable :: "jwt_claims \<Rightarrow> bool" where
  "encodable c \<longleftrightarrow> list_all ascii (cl_roles c) \<and> ascii (cl_issuer c) \<and> ascii (cl_subject c) \<and>
     list_all ascii (cl_audience c) \<and>
     list_all (\<lambda>d. case d of None \<Rightarrow> True | Some t \<Rightarrow> t mod nanos = 0) [cl_expires c, cl_not_before c, cl_issued c]"

text \<open>A parsed token was checked, and a token signed with the same secret parses to its claims.\<close>

definition jwt_laws :: "jwt_library \<Rightarrow> bool" where
  "jwt_laws lib \<longleftrightarrow>
     (\<forall>opts secret token c valid. jwt_parse lib opts secret token = Inr (c, valid) \<longrightarrow> valid \<and> claims_valid opts c) \<and>
     (\<forall>opts secret token c. jwt_sign lib secret c = Inr token \<longrightarrow> encodable c \<longrightarrow> ''HS256'' \<in> set (valid_methods opts) \<longrightarrow>
        claims_valid opts c \<longrightarrow> jwt_parse lib opts secret token = Inr (c, True))"

subsection \<open>Facts\<close>

lemma new_jwts_Inr:
  assumes "NewJWTs time_now config = Inr j"
  shows "nanos \<le> jwt_lifetime j" and "jwt_lifetime j \<le> 900 * nanos" and "jwt_lifetime j mod nanos = 0"
    and "0 \<le> jwt_leeway j" and "jwt_leeway j \<le> 60 * nanos" and "32 \<le> length (jwt_secret j)"
    and "jwt_issuer j \<noteq> []" and "jwt_audience j \<noteq> []"
  using assms by (auto simp: NewJWTs_def minJWTLifetime_def maxJWTLifetime_def maxJWTLeeway_def split: if_splits)

lemma numeric_date_add: "d mod nanos = 0 \<Longrightarrow> numeric_date (t + d) = numeric_date t + d"
  by (auto simp: numeric_date_def nanos_def elim!: dvdE simp flip: dvd_eq_mod_eq_0)

lemma numeric_date_mod [simp]: "numeric_date t mod nanos = 0"
  by (simp add: numeric_date_def)

lemma numeric_date_le: "numeric_date t \<le> t"
  by (simp add: numeric_date_def nanos_def)

lemma time_sub_small: "0 \<le> d \<Longrightarrow> d \<le> 900 * nanos \<Longrightarrow> time_sub (t + d) t = d"
  by (simp add: time_sub_def nanos_def)

lemma time_sub_bound: "time_sub a b \<le> d \<Longrightarrow> d < 2 ^ 63 - 1 \<Longrightarrow> 0 < time_sub a b \<Longrightarrow> 0 < a - b \<and> a - b \<le> d"
  by (auto simp: time_sub_def min_def max_def split: if_splits)

lemma verify_token_Inr:
  assumes "VerifyToken lib j token s = Inr c"
  shows "\<exists>valid issued expires. jwt_parse lib (verify_options j s) (jwt_secret j) token = Inr (c, valid) \<and>
    cl_subject c \<noteq> [] \<and> cl_issued c = Some issued \<and> cl_expires c = Some expires \<and>
    0 < time_sub expires issued \<and> time_sub expires issued \<le> jwt_lifetime j"
  using assms by (auto simp: VerifyToken_def Let_def not_le split: sum.splits option.splits if_splits)

subsection \<open>Properties\<close>

text \<open>
  C14. Round trip: a token that \<open>Issue\<close> signed is accepted by the same profile at every later time before
  its expiry, leeway included, and gives back exactly the subject and the roles it was issued
  for. This needs the whole-second lifetimes \<open>NewJWTs\<close> insists on.
\<close>

theorem issued_token_verifies:
  assumes "NewJWTs time_now config = Inr j" and "jwt_laws lib" and "IssueToken lib j subj held s = Inr token"
    and "list_all ascii (subj # jwt_issuer j # jwt_audience j # held)"
    and "jwt_now j s \<le> jwt_now j s'" and "jwt_now j s' < numeric_date (jwt_now j s) + jwt_lifetime j + jwt_leeway j"
  shows "\<exists>c. VerifyToken lib j token s' = Inr c \<and> cl_subject c = subj \<and> cl_roles c = held"
proof -
  let ?now = "jwt_now j s" and ?iat = "numeric_date (jwt_now j s)"
  let ?c = "\<lparr>cl_roles = held, cl_issuer = jwt_issuer j, cl_subject = subj, cl_audience = [jwt_audience j],
      cl_expires = Some (?iat + jwt_lifetime j), cl_not_before = Some ?iat, cl_issued = Some ?iat\<rparr>"
  note j = new_jwts_Inr [OF assms(1)]
  have signed: "jwt_sign lib (jwt_secret j) ?c = Inr token" and subj: "subj \<noteq> []"
    using assms(3) numeric_date_add [OF j(3), of ?now]
    by (auto simp: IssueToken_def Let_def split: if_splits sum.splits)
  have "(?iat + jwt_lifetime j) mod nanos = 0" using j(3) by (simp add: numeric_date_def mod_add_eq [symmetric])
  then have "encodable ?c" using assms(4) by (simp add: encodable_def)
  moreover have "claims_valid (verify_options j s') ?c"
    using assms(5,6) j(4) numeric_date_le [of ?now] by (simp add: claims_valid_def verify_options_def)
  ultimately have "jwt_parse lib (verify_options j s') (jwt_secret j) token = Inr (?c, True)"
    using assms(2) signed by (simp add: jwt_laws_def verify_options_def)
  moreover have "0 < jwt_lifetime j" using j(1) by (simp add: nanos_def)
  ultimately show ?thesis
    using subj time_sub_small [of "jwt_lifetime j" ?iat] j(2) by (simp add: VerifyToken_def)
qed

text \<open>
  C15. Nothing is accepted for long: a token that \<open>Verify\<close> accepts names this issuer and this audience
  and a subject, and the time of the check lies between its issue, less the leeway, and
  the profile's lifetime and the leeway after it, so at most 16 minutes after it was issued.
\<close>

theorem verified_token_is_fresh:
  assumes "NewJWTs time_now config = Inr j" and "jwt_laws lib" and "VerifyToken lib j token s = Inr c"
  shows "cl_subject c \<noteq> [] \<and> cl_issuer c = jwt_issuer j \<and> jwt_audience j \<in> set (cl_audience c) \<and>
    (case cl_issued c of None \<Rightarrow> False | Some issued \<Rightarrow>
       issued - jwt_leeway j \<le> jwt_now j s \<and> jwt_now j s < issued + jwt_lifetime j + jwt_leeway j \<and>
       jwt_now j s < issued + 960 * nanos)"
proof -
  note j = new_jwts_Inr [OF assms(1)]
  obtain valid issued expires where
    parsed: "jwt_parse lib (verify_options j s) (jwt_secret j) token = Inr (c, valid)" and
    c: "cl_subject c \<noteq> []" "cl_issued c = Some issued" "cl_expires c = Some expires"
      "0 < time_sub expires issued" "time_sub expires issued \<le> jwt_lifetime j"
    using verify_token_Inr [OF assms(3)] by blast
  have "claims_valid (verify_options j s) c" using assms(2) parsed by (simp add: jwt_laws_def)
  moreover have "expires - issued \<le> jwt_lifetime j"
    using time_sub_bound [OF c(5) _ c(4)] j(2) by (simp add: nanos_def)
  ultimately show ?thesis using c j(2,5) by (simp add: claims_valid_def verify_options_def)
qed

text \<open>A library that knows one token; its clock is the state.\<close>

definition demo_jwt_config :: "int jwt_config" where
  "demo_jwt_config = \<lparr>cfg_issuer = ''shop'', cfg_audience = ''web'', cfg_secret = replicate 32 CHR ''k'',
     cfg_lifetime = 60000000000, cfg_leeway = 0, cfg_now = Some (\<lambda>s. s)\<rparr>"

definition demo_jwts :: "int jwts" where
  "demo_jwts = \<lparr>jwt_issuer = ''shop'', jwt_audience = ''web'', jwt_secret = replicate 32 CHR ''k'',
     jwt_lifetime = 60000000000, jwt_leeway = 0, jwt_now = (\<lambda>s. s)\<rparr>"

definition demo_claims :: jwt_claims where
  "demo_claims = \<lparr>cl_roles = [''admin''], cl_issuer = ''shop'', cl_subject = ''ann'', cl_audience = [''web''],
     cl_expires = Some 65000000000, cl_not_before = Some 5000000000, cl_issued = Some 5000000000\<rparr>"

definition demo_library :: jwt_library where
  "demo_library = \<lparr>jwt_sign = (\<lambda>secret c. if c = demo_claims then Inr ''token'' else Inl (External ''unknown'')),
     jwt_parse = (\<lambda>opts secret t. if t = ''token'' \<and> claims_valid opts demo_claims then Inr (demo_claims, True)
       else Inl (External ''invalid''))\<rparr>"

lemma demo_jwts_new: "NewJWTs time_now demo_jwt_config = Inr demo_jwts"
  by (simp add: NewJWTs_def demo_jwt_config_def demo_jwts_def jwt_consts)

lemma demo_jwt_laws: "jwt_laws demo_library"
  by (simp add: jwt_laws_def demo_library_def)

lemma demo_issue: "IssueToken demo_library demo_jwts ''ann'' [''admin''] 5000000007 = Inr ''token''"
  by (simp add: IssueToken_def demo_library_def demo_jwts_def demo_claims_def numeric_date_def nanos_def)

lemma demo_verify: "VerifyToken demo_library demo_jwts ''token'' 64000000000 = Inr demo_claims"
  by (simp add: VerifyToken_def demo_library_def demo_jwts_def demo_claims_def verify_options_def claims_valid_def
      time_sub_def)

theorem issued_token_verifies_witness:
  "\<exists>c. VerifyToken demo_library demo_jwts ''token'' 64000000000 = Inr c \<and> cl_subject c = ''ann'' \<and> cl_roles c = [''admin'']"
  by (rule issued_token_verifies [OF demo_jwts_new demo_jwt_laws demo_issue])
    (simp_all add: demo_jwts_def ascii_def numeric_date_def nanos_def)

theorem verified_token_is_fresh_witness: "cl_subject demo_claims \<noteq> [] \<and> (64000000000 :: int) < 5000000000 + 960 * nanos"
  using verified_token_is_fresh [OF demo_jwts_new demo_jwt_laws demo_verify] by (simp add: demo_claims_def demo_jwts_def)

end
