(* ===== verification/Auth_Totp.thy ===== *)
theory Auth_Totp
  imports Go_Base "HOL-Library.Word"
begin

section \<open>Package auth: time-based one-time passwords\<close>

text \<open>
  \<open>auth/totp.go\<close>. The protocol itself (secrets, codes, URLs) is pquerna/otp's, a parameter; of it
  the file uses the constants for digits and algorithms, whose documented values are written
  out. A Go \<open>uint\<close> has 64 bits, a time is a number of nanoseconds.
\<close>

definition DigitsSix :: int where "DigitsSix = 6"
definition DigitsEight :: int where "DigitsEight = 8"
definition AlgorithmSHA1 :: int where "AlgorithmSHA1 = 0"
definition AlgorithmSHA256 :: int where "AlgorithmSHA256 = 1"
definition AlgorithmSHA512 :: int where "AlgorithmSHA512 = 2"

lemmas otp_defs = DigitsSix_def DigitsEight_def AlgorithmSHA1_def AlgorithmSHA256_def AlgorithmSHA512_def

definition minTOTPPeriodSeconds :: "64 word" where [simp]: "minTOTPPeriodSeconds = 15"
definition maxTOTPPeriodSeconds :: "64 word" where [simp]: "maxTOTPPeriodSeconds = 60"
definition maxTOTPSkew :: "64 word" where [simp]: "maxTOTPSkew = 2"

record totp_config =
  Issuer :: string
  Period :: "64 word"
  Skew :: "64 word"
  Digits :: int
  Algorithm :: int

record enrollment =
  enr_secret :: string
  enr_url :: string

record generate_opts =
  gen_issuer :: string
  gen_account :: string
  gen_period :: "64 word"
  gen_secret_size :: "64 word"
  gen_digits :: int
  gen_algorithm :: int

record validate_opts =
  val_period :: "64 word"
  val_skew :: "64 word"
  val_digits :: int
  val_algorithm :: int

text \<open>\<open>totp.Generate\<close> draws its secret from the system, \<open>totp.ValidateCustom\<close> computes.\<close>

record 's otp =
  otp_generate :: "generate_opts \<Rightarrow> 's \<Rightarrow> enrollment result \<times> 's"
  otp_validate :: "string \<Rightarrow> string \<Rightarrow> int \<Rightarrow> validate_opts \<Rightarrow> bool result"

definition supported_totp_algorithm :: "int \<Rightarrow> bool" where
  "supported_totp_algorithm a \<longleftrightarrow> a = AlgorithmSHA1 \<or> a = AlgorithmSHA256 \<or> a = AlgorithmSHA512"

definition NewTOTP :: "totp_config \<Rightarrow> totp_config result" where
  "NewTOTP config0 =
     (if trim_space (Issuer config0) = [] then Inl (Plain ''TOTP issuer is required'')
      else
       (let c1 = (if Period config0 = 0 then config0\<lparr>Period := 30\<rparr> else config0);
            c2 = (if Digits c1 = 0 then c1\<lparr>Digits := DigitsSix\<rparr> else c1);
            c = (if Algorithm c2 = 0 then c2\<lparr>Algorithm := AlgorithmSHA1\<rparr> else c2) in
        if Digits c \<noteq> DigitsSix \<and> Digits c \<noteq> DigitsEight then Inl (Plain ''TOTP digits must be six or eight'')
        else if Period c < minTOTPPeriodSeconds \<or> maxTOTPPeriodSeconds < Period c
          then Inl (Plain ''TOTP period must be between 15 and 60 seconds'')
        else if maxTOTPSkew < Skew c then Inl (Plain ''TOTP skew must not exceed 2 periods'')
        else if \<not> supported_totp_algorithm (Algorithm c)
          then Inl (Plain ''TOTP algorithm must be SHA1, SHA256, or SHA512'')
        else Inr c))"

definition Enroll :: "'s otp \<Rightarrow> totp_config \<Rightarrow> string \<Rightarrow> 's \<Rightarrow> enrollment result \<times> 's" where
  "Enroll lib t account s =
     (if trim_space account = [] then (Inl (Plain ''TOTP account name is required''), s)
      else case otp_generate lib \<lparr>gen_issuer = Issuer t, gen_account = account, gen_period = Period t,
          gen_secret_size = 20, gen_digits = Digits t, gen_algorithm = Algorithm t\<rparr> s of
          (Inl e, s') \<Rightarrow> (Inl (Wrapf ''generate TOTP enrollment'' e), s')
        | (Inr key, s') \<Rightarrow> (Inr key, s'))"

text \<open>
  A code is looked at rune by rune; a byte that is no digit belongs to a rune that is none, and
  the other way round.
\<close>

definition Validate :: "'s otp \<Rightarrow> totp_config \<Rightarrow> string \<Rightarrow> string \<Rightarrow> int \<Rightarrow> bool result" where
  "Validate lib t secret code now =
     (if int (length code) \<noteq> Digits t then Inr False
      else if \<not> list_all is_digit code then Inr False
      else case otp_validate lib code secret now \<lparr>val_period = Period t, val_skew = Skew t,
          val_digits = Digits t, val_algorithm = Algorithm t\<rparr> of
          Inl e \<Rightarrow> Inl (Wrapf ''validate TOTP code'' e)
        | Inr ok \<Rightarrow> Inr ok)"

subsection \<open>Profiles\<close>

text \<open>What RFC 6238 profiles the package means to support.\<close>

definition sane_profile :: "64 word \<Rightarrow> 64 word \<Rightarrow> int \<Rightarrow> int \<Rightarrow> bool" where
  "sane_profile period skew digits algorithm \<longleftrightarrow> 15 \<le> unat period \<and> unat period \<le> 60 \<and> unat skew \<le> 2 \<and>
     digits \<in> {6, 8} \<and> algorithm \<in> {0, 1, 2}"

lemma new_totp_Inr:
  assumes "NewTOTP c = Inr t"
  shows "sane_profile (Period t) (Skew t) (Digits t) (Algorithm t)" and "Issuer t = Issuer c" and "trim_space (Issuer t) \<noteq> []"
proof -
  let ?t = "c\<lparr>Period := if Period c = 0 then 30 else Period c, Digits := if Digits c = 0 then 6 else Digits c\<rparr>"
  have t: "t = ?t" and bounds: "\<not> Period ?t < 15" "\<not> 60 < Period ?t" "\<not> 2 < Skew ?t"
    and kinds: "Digits ?t \<in> {6, 8}" "Algorithm ?t \<in> {0, 1, 2}" and issuer: "trim_space (Issuer c) \<noteq> []"
    using assms by (auto simp: NewTOTP_def Let_def otp_defs supported_totp_algorithm_def split: if_splits)
  have "15 \<le> unat (Period ?t)" "unat (Period ?t) \<le> 60" "unat (Skew ?t) \<le> 2"
    using bounds by (simp_all add: word_less_nat_alt not_less)
  then show "sane_profile (Period t) (Skew t) (Digits t) (Algorithm t)"
    using kinds unfolding t sane_profile_def by blast
  show "Issuer t = Issuer c" "trim_space (Issuer t) \<noteq> []" using issuer by (simp_all add: t)
qed

subsection \<open>Properties\<close>

text \<open>Two implementations of the protocol that agree on what a sane profile asks for.\<close>

definition same_protocol :: "'s otp \<Rightarrow> 's otp \<Rightarrow> bool" where
  "same_protocol lib lib' \<longleftrightarrow>
     (\<forall>opts. sane_profile (gen_period opts) 0 (gen_digits opts) (gen_algorithm opts) \<longrightarrow>
        trim_space (gen_issuer opts) \<noteq> [] \<longrightarrow> trim_space (gen_account opts) \<noteq> [] \<longrightarrow> gen_secret_size opts = 20 \<longrightarrow>
        otp_generate lib opts = otp_generate lib' opts) \<and>
     (\<forall>code secret now opts. sane_profile (val_period opts) (val_skew opts) (val_digits opts) (val_algorithm opts) \<longrightarrow>
        int (length code) = val_digits opts \<longrightarrow> list_all is_digit code \<longrightarrow>
        otp_validate lib code secret now opts = otp_validate lib' code secret now opts)"

text \<open>
  C38. A profile that \<open>NewTOTP\<close> returned keeps to its limits for good: the protocol is only ever run with
  periods of 15 to 60 seconds, a skew of at most two periods, one of three hash functions,
  secrets of 20 bytes, and on codes of exactly six or eight decimal digits.
\<close>

theorem totp_stays_in_profile:
  assumes "NewTOTP c = Inr t" and "same_protocol lib lib'"
  shows "Enroll lib t account s = Enroll lib' t account s \<and> Validate lib t secret code now = Validate lib' t secret code now"
proof -
  have sane: "sane_profile (Period t) (Skew t) (Digits t) (Algorithm t)" and "trim_space (Issuer t) \<noteq> []"
    using new_totp_Inr [OF assms(1)] by blast+
  moreover have "sane_profile (Period t) 0 (Digits t) (Algorithm t)" using sane by (simp add: sane_profile_def)
  ultimately show ?thesis using assms(2) unfolding same_protocol_def Enroll_def Validate_def by simp
qed

text \<open>
  What the library promises: a key made for a profile validates the code an authenticator shows
  for its secret under the same profile, and such codes are digits, as many as the profile says.
\<close>

type_synonym authenticator = "string \<Rightarrow> int \<Rightarrow> 64 word \<Rightarrow> int \<Rightarrow> int \<Rightarrow> string"

definition otp_laws :: "'s otp \<Rightarrow> authenticator \<Rightarrow> bool" where
  "otp_laws lib show_code \<longleftrightarrow> (\<forall>opts s key s' now skew. otp_generate lib opts s = (Inr key, s') \<longrightarrow>
     (let code = show_code (enr_secret key) now (gen_period opts) (gen_digits opts) (gen_algorithm opts) in
      int (length code) = gen_digits opts \<and> list_all is_digit code \<and>
      otp_validate lib code (enr_secret key) now \<lparr>val_period = gen_period opts, val_skew = skew,
        val_digits = gen_digits opts, val_algorithm = gen_algorithm opts\<rparr> = Inr True))"

text \<open>
  Enrolment and validation are one profile: the code that an authenticator with the enrolled
  profile shows at any time is accepted at that time.
\<close>

theorem enrolled_code_validates:
  assumes "otp_laws lib show_code" and "Enroll lib t account s = (Inr key, s')"
  shows "Validate lib t (enr_secret key) (show_code (enr_secret key) now (Period t) (Digits t) (Algorithm t)) now = Inr True"
proof -
  let ?opts = "\<lparr>gen_issuer = Issuer t, gen_account = account, gen_period = Period t,
      gen_secret_size = 20, gen_digits = Digits t, gen_algorithm = Algorithm t\<rparr>"
  have "otp_generate lib ?opts s = (Inr key, s')"
    using assms(2) by (auto simp: Enroll_def split: if_splits prod.splits sum.splits)
  from assms(1) [unfolded otp_laws_def, rule_format, OF this, of now "Skew t"] show ?thesis
    by (simp add: Validate_def Let_def)
qed

text \<open>A protocol that counts periods.\<close>

definition demo_code :: authenticator where
  "demo_code secret now period digits algorithm = replicate (nat digits) (digit (nat (now mod 10)))"

definition demo_otp :: "nat otp" where
  "demo_otp = \<lparr>otp_generate = (\<lambda>opts n. if gen_digits opts < 0 then (Inl (External ''digits''), n)
       else (Inr \<lparr>enr_secret = itoa n, enr_url = gen_issuer opts\<rparr>, Suc n)),
     otp_validate = (\<lambda>code secret now opts.
       Inr (code = demo_code secret now (val_period opts) (val_digits opts) (val_algorithm opts)))\<rparr>"

lemma demo_otp_laws: "otp_laws demo_otp demo_code"
  by (auto simp: otp_laws_def demo_otp_def demo_code_def Let_def list_all_iff is_digit_def split: if_splits)

definition demo_config :: totp_config where
  "demo_config = \<lparr>Issuer = ''Shop'', Period = 0, Skew = 1, Digits = 0, Algorithm = 0\<rparr>"

lemma demo_totp: "NewTOTP demo_config = Inr (demo_config\<lparr>Period := 30, Digits := 6\<rparr>)"
proof -
  have "trim_space ''Shop'' = ''Shop''" by (simp add: go_text)
  then show ?thesis by (simp add: NewTOTP_def demo_config_def otp_defs supported_totp_algorithm_def)
qed

lemma demo_enroll:
  "Enroll demo_otp (demo_config\<lparr>Period := 30, Digits := 6\<rparr>) ''ann'' 7 =
     (Inr \<lparr>enr_secret = itoa 7, enr_url = ''Shop''\<rparr>, 8)"
proof -
  have "trim_space ''ann'' = ''ann''" by (simp add: go_text)
  then show ?thesis by (simp add: Enroll_def demo_otp_def demo_config_def)
qed

theorem enrolled_code_validates_witness:
  "Validate demo_otp (demo_config\<lparr>Period := 30, Digits := 6\<rparr>) (itoa 7) (replicate 6 (digit 3)) 123 = Inr True"
  using enrolled_code_validates [OF demo_otp_laws demo_enroll, of 123] by (simp add: demo_code_def demo_config_def)

definition lax_otp :: "nat otp" where
  "lax_otp = demo_otp\<lparr>otp_validate := (\<lambda>code secret now opts.
     if code = [] then Inr True
     else Inr (code = demo_code secret now (val_period opts) (val_digits opts) (val_algorithm opts)))\<rparr>"

theorem totp_stays_in_profile_witness:
  "Validate demo_otp (demo_config\<lparr>Period := 30, Digits := 6\<rparr>) ''k'' [] 5 =
   Validate lax_otp (demo_config\<lparr>Period := 30, Digits := 6\<rparr>) ''k'' [] 5"
proof -
  have "same_protocol demo_otp lax_otp"
    by (auto simp: same_protocol_def lax_otp_def demo_otp_def sane_profile_def)
  from totp_stays_in_profile [OF demo_totp this] show ?thesis by blast
qed

end
