(* ===== verification/Web_Headers.thy ===== *)
theory Web_Headers
  imports Web_Http Go_Base64
begin

section \<open>Package web: hardening middlewares\<close>

text \<open>
  \<open>SecurityHeaders\<close>, \<open>CSPNonce\<close>, \<open>NoStore\<close> and \<open>MaxBodyBytes\<close> of \<open>web/headers.go\<close>. Each
  middleware is an interpretation of the interface \<open>guard\<close>.
\<close>

subsection \<open>Operations\<close>

abbreviation quote :: char where
  "quote \<equiv> CHR 0x27"

abbreviation semicolon :: char where
  "semicolon \<equiv> CHR '';''"

definition quoted :: "string \<Rightarrow> string" where
  "quoted s = quote # s @ [quote]"

definition nonce_placeholder :: string where
  "nonce_placeholder = ''{nonce}''"

definition default_content_security_policy :: string where
  "default_content_security_policy =
     ''default-src '' @ quoted ''self'' @ ''; script-src '' @ quoted ''self'' @ '' '' @ quoted ''nonce-{nonce}'' @
     ''; style-src '' @ quoted ''self'' @ ''; img-src '' @ quoted ''self'' @ '' data:; connect-src '' @
     quoted ''self'' @ ''; form-action '' @ quoted ''self'' @ ''; frame-ancestors '' @ quoted ''none'' @
     ''; base-uri '' @ quoted ''none''"

record security_headers_config =
  ContentSecurityPolicy :: string
  PermissionsPolicy :: string
  HSTS :: bool

definition new_nonce :: "'s randomness \<Rightarrow> 's \<Rightarrow> string result \<times> 's" where
  "new_nonce rnd s = (case rnd 18 s of
       (Inl e, s') \<Rightarrow> (Inl e, s') | (Inr value, s') \<Rightarrow> (Inr (b64_encode value), s'))"

definition with_defaults :: "security_headers_config \<Rightarrow> security_headers_config" where
  "with_defaults config =
     (let config1 = (if ContentSecurityPolicy config = []
            then config\<lparr>ContentSecurityPolicy := default_content_security_policy\<rparr> else config) in
      if PermissionsPolicy config1 = []
      then config1\<lparr>PermissionsPolicy := ''camera=(), microphone=(), geolocation=()''\<rparr> else config1)"

definition hardened :: "security_headers_config \<Rightarrow> string \<Rightarrow> response \<Rightarrow> response" where
  "hardened config nonce w =
     (let w1 = set_header ''Content-Security-Policy''
            (replace_all nonce_placeholder nonce (ContentSecurityPolicy config)) w;
          w2 = set_header ''Permissions-Policy'' (PermissionsPolicy config) w1;
          w3 = set_header ''Referrer-Policy'' ''no-referrer'' w2;
          w4 = set_header ''X-Content-Type-Options'' ''nosniff'' w3;
          w5 = set_header ''X-Frame-Options'' ''DENY'' w4;
          w6 = set_header ''Cross-Origin-Opener-Policy'' ''same-origin'' w5 in
      if HSTS config then set_header ''Strict-Transport-Security'' ''max-age=31536000; includeSubDomains'' w6
      else w6)"

definition with_nonce :: "string \<Rightarrow> request \<Rightarrow> request" where
  "with_nonce nonce r = r\<lparr>ctx := (ctx r)\<lparr>nonce_key := Some (CtxString nonce)\<rparr>\<rparr>"

definition SecurityHeaders :: "'s randomness \<Rightarrow> security_headers_config \<Rightarrow> 's middleware" where
  "SecurityHeaders rnd config0 next ws r =
     (let config = with_defaults config0 in
      case new_nonce rnd (snd ws) of
        (Inl e, s') \<Rightarrow> (http_error ''Internal Server Error'' 500 (fst ws), s')
      | (Inr nonce, s') \<Rightarrow> next (hardened config nonce (fst ws), s') (with_nonce nonce r))"

definition CSPNonce :: "context_values \<Rightarrow> string" where
  "CSPNonce c = (case nonce_key c of Some (CtxString n) \<Rightarrow> n | _ \<Rightarrow> [])"

definition NoStore :: "'s middleware" where
  "NoStore next ws r = next (on_response (set_header ''Cache-Control'' ''no-store'') ws) r"

text \<open>\<^const>\<open>None\<close> is the panic at setup.\<close>

definition MaxBodyBytes :: "int \<Rightarrow> 's middleware option" where
  "MaxBodyBytes limit =
     (if limit \<le> 0 then None
      else Some (\<lambda>next ws r.
        if content_length r > limit
        then on_response (http_error ''Request Entity Too Large'' 413) ws
        else next ws (max_bytes_reader limit r)))"

subsection \<open>Every middleware is a guard\<close>

interpretation security_headers: guard "SecurityHeaders rnd config"
  "\<lambda>ws r. \<exists>n. fst (new_nonce rnd (snd ws)) = Inr n"
  "\<lambda>ws r. let (n, s') = new_nonce rnd (snd ws) in
     ((hardened (with_defaults config) (projr n) (fst ws), s'), with_nonce (projr n) r)"
  "\<lambda>ws r. (http_error ''Internal Server Error'' 500 (fst ws), snd (new_nonce rnd (snd ws)))"
  for rnd config
  by unfold_locales (auto simp: SecurityHeaders_def Let_def split: prod.splits sum.splits)

interpretation no_store: guard NoStore "\<lambda>ws r. True"
  "\<lambda>ws r. (on_response (set_header ''Cache-Control'' ''no-store'') ws, r)" "\<lambda>ws r. ws"
  by unfold_locales (simp add: NoStore_def)

definition max_body :: "int \<Rightarrow> 's middleware" where
  "max_body limit = the (MaxBodyBytes limit)"

interpretation max_body: guard "max_body (int (Suc n))" "\<lambda>ws r. content_length r \<le> int (Suc n)"
  "\<lambda>ws r. (ws, max_bytes_reader (int (Suc n)) r)"
  "\<lambda>ws r. on_response (http_error ''Request Entity Too Large'' 413) ws" for n
  by unfold_locales (simp add: max_body_def MaxBodyBytes_def)

lemma MaxBodyBytes_Some: "MaxBodyBytes limit = Some mw \<Longrightarrow> \<exists>n. limit = int (Suc n) \<and> mw = max_body (int (Suc n))"
proof -
  assume m: "MaxBodyBytes limit = Some mw"
  then have "0 < limit" by (auto simp: MaxBodyBytes_def split: if_splits)
  then have l: "limit = int (Suc (nat limit - 1))" by simp
  with m show ?thesis by (intro exI [of _ "nat limit - 1"]) (simp add: max_body_def)
qed

subsection \<open>Properties\<close>

text \<open>The headers \<open>SecurityHeaders\<close> is there for.\<close>

definition hardening :: "security_headers_config \<Rightarrow> string \<Rightarrow> headers" where
  "hardening config nonce =
     [''Content-Security-Policy'' \<mapsto> [replace_all nonce_placeholder nonce (ContentSecurityPolicy config)],
      ''Permissions-Policy'' \<mapsto> [PermissionsPolicy config],
      ''Referrer-Policy'' \<mapsto> [''no-referrer''],
      ''X-Content-Type-Options'' \<mapsto> [''nosniff''],
      ''X-Frame-Options'' \<mapsto> [''DENY''],
      ''Cross-Origin-Opener-Policy'' \<mapsto> [''same-origin'']]"

lemma hardening_leaves:
  "hardening config nonce ''Content-Length'' = None" "hardening config nonce ''Content-Type'' = None"
  "hardening config nonce ''Cache-Control'' = None"
  "hardening config nonce ''X-Content-Type-Options'' \<in> {None, Some [''nosniff'']}"
  by (simp_all add: hardening_def)

lemma hardened_carries: "sent w = None \<Longrightarrow> carries (hardening config nonce) (hardened config nonce w)"
  by (simp add: hardening_def hardened_def set_header_def Let_def carries_def outgoing_def map_le_def)

lemma error_keeps_hardening:
  "carries (hardening config nonce) w \<Longrightarrow> carries (hardening config nonce) (http_error msg code w)"
  by (intro carries_http_error hardening_leaves)

lemma no_store_keeps: "keeps (hardening config nonce) hnd \<Longrightarrow> keeps (hardening config nonce) (NoStore hnd)"
  by (rule no_store.guard_keeps) (simp_all add: carries_set_header hardening_leaves)

lemma max_body_keeps:
  "MaxBodyBytes limit = Some mw \<Longrightarrow> keeps (hardening config nonce) hnd \<Longrightarrow> keeps (hardening config nonce) (mw hnd)"
proof -
  assume m: "MaxBodyBytes limit = Some mw" and k: "keeps (hardening config nonce) hnd"
  from MaxBodyBytes_Some [OF m] obtain n where mw: "mw = max_body (int (Suc n))" by blast
  show ?thesis unfolding mw by (rule max_body.guard_keeps [OF _ _ k]) (simp_all add: error_keeps_hardening)
qed

lemma default_policy_nonce:
  "replace_all nonce_placeholder nonce default_content_security_policy =
     ''default-src '' @ quoted ''self'' @ ''; script-src '' @ quoted ''self'' @ '' '' @ quoted (''nonce-'' @ nonce) @
     ''; style-src '' @ quoted ''self'' @ ''; img-src '' @ quoted ''self'' @ '' data:; connect-src '' @
     quoted ''self'' @ ''; form-action '' @ quoted ''self'' @ ''; frame-ancestors '' @ quoted ''none'' @
     ''; base-uri '' @ quoted ''none''"
  by (simp add: nonce_placeholder_def default_content_security_policy_def quoted_def)

text \<open>
  C36. \<open>SecurityHeaders\<close> hardens whatever a handler sends, with one nonce for both sides: when
  randomness is available, the handler reads from its context a nonce of 24 URL-safe
  characters that encode the 18 random bytes, and the response goes out with all hardening headers, the
  policy with its placeholder replaced by that very nonce, unless the handler itself removes
  one. A configuration with \<open>HSTS\<close> sets that header as well, one without leaves it alone.
\<close>

theorem security_headers_hardens:
  assumes "sent w = None" and "rnd 18 s = (Inr v, s')" and "length v = 18"
    and "keeps (hardening (with_defaults config) (b64_encode v)) hnd"
  shows "\<exists>w1. SecurityHeaders rnd config hnd (w, s) r = hnd (w1, s') (with_nonce (b64_encode v) r) \<and>
    CSPNonce (ctx (with_nonce (b64_encode v) r)) = b64_encode v \<and>
    length (b64_encode v) = 24 \<and> list_all b64_safe (b64_encode v) \<and>
    carries (hardening (with_defaults config) (b64_encode v)) (fst (SecurityHeaders rnd config hnd (w, s) r)) \<and>
    header w1 ''Strict-Transport-Security'' =
      (if HSTS config then Some [''max-age=31536000; includeSubDomains''] else header w ''Strict-Transport-Security'')"
proof -
  have n: "new_nonce rnd s = (Inr (b64_encode v), s')" using assms(2) by (simp add: new_nonce_def)
  let ?w1 = "hardened (with_defaults config) (b64_encode v) w"
  have run: "SecurityHeaders rnd config hnd (w, s) r = hnd (?w1, s') (with_nonce (b64_encode v) r)"
    using security_headers.admitted [of rnd "(w, s)" config hnd r] n by simp
  have "carries (hardening (with_defaults config) (b64_encode v)) (fst (?w1, s'))"
    using hardened_carries [OF assms(1)] by simp
  from keepsD [OF assms(4) this] have
    "carries (hardening (with_defaults config) (b64_encode v)) (fst (SecurityHeaders rnd config hnd (w, s) r))"
    by (simp add: run)
  moreover have "header ?w1 ''Strict-Transport-Security'' =
      (if HSTS config then Some [''max-age=31536000; includeSubDomains''] else header w ''Strict-Transport-Security'')"
    by (simp add: hardened_def set_header_def Let_def with_defaults_def)
  moreover have "length (b64_encode v) = 24" by (simp add: b64_length b64_encoded_len_def assms(3))
  ultimately show ?thesis
    using run b64_encode_safe [of v] by (auto simp: CSPNonce_def with_nonce_def list_all_iff)
qed

definition demo_request :: request where
  "demo_request = \<lparr>ctx = \<lparr>principal_key = None, nonce_key = None\<rparr>, content_length = 5,
     body = ''hello'', body_limit = None\<rparr>"

definition demo_bytes :: "nat \<Rightarrow> nat \<Rightarrow> string result \<times> nat" where
  "demo_bytes n s = (Inr (replicate n (char_of s)), Suc s)"

text \<open>A handler that writes the nonce into its page.\<close>

definition demo_page :: "nat handler" where
  "demo_page ws r = on_response (write_body (CSPNonce (ctx r))) ws"

definition demo_headers :: security_headers_config where
  "demo_headers = \<lparr>ContentSecurityPolicy = [], PermissionsPolicy = [], HSTS = True\<rparr>"

lemma demo_page_keeps: "keeps hs demo_page"
  by (rule keepsI) (simp add: demo_page_def carries_write_body)

theorem security_headers_hardens_witness:
  "outgoing (fst (SecurityHeaders demo_bytes demo_headers demo_page (empty_response, 7) demo_request)) ''X-Frame-Options'' =
     Some [''DENY'']"
proof -
  have e: "sent empty_response = None" by (simp add: empty_response_def)
  have b: "demo_bytes 18 7 = (Inr (replicate 18 (char_of (7 :: nat))), 8)" by (simp add: demo_bytes_def)
  have l: "length (replicate 18 (char_of (7 :: nat))) = 18" by (rule length_replicate)
  from security_headers_hardens [where rnd = demo_bytes, OF e b l demo_page_keeps, of demo_headers demo_request]
  have "carries (hardening (with_defaults demo_headers) (b64_encode (replicate 18 (char_of (7 :: nat)))))
      (fst (SecurityHeaders demo_bytes demo_headers demo_page (empty_response, 7) demo_request))"
    by blast
  then show ?thesis by (auto simp: carries_def map_le_def hardening_def dom_def split: if_splits)
qed

text \<open>
  The nonce cannot break the policy: whatever the random bytes are, every character that ends a
  directive, a quoted source or a header line occurs in the header exactly as often as in the
  configured policy, and the default policy allows that nonce and nothing else besides.
\<close>

theorem nonce_keeps_policy:
  "count_list (replace_all nonce_placeholder (b64_encode v) policy) semicolon = count_list policy semicolon \<and>
   count_list (replace_all nonce_placeholder (b64_encode v) policy) quote = count_list policy quote \<and>
   count_list (replace_all nonce_placeholder (b64_encode v) policy) newline = count_list policy newline \<and>
   count_list (replace_all nonce_placeholder (b64_encode v) policy) CHR '' '' = count_list policy CHR '' '' \<and>
   replace_all nonce_placeholder (b64_encode v) default_content_security_policy =
     ''default-src '' @ quoted ''self'' @ ''; script-src '' @ quoted ''self'' @ '' '' @
     quoted (''nonce-'' @ b64_encode v) @
     ''; style-src '' @ quoted ''self'' @ ''; img-src '' @ quoted ''self'' @ '' data:; connect-src '' @
     quoted ''self'' @ ''; form-action '' @ quoted ''self'' @ ''; frame-ancestors '' @ quoted ''none'' @
     ''; base-uri '' @ quoted ''none''"
proof -
  have safe: "\<not> b64_safe c \<Longrightarrow> c \<notin> set (b64_encode v)" for c using b64_encode_safe [of v] by auto
  have "\<not> b64_safe semicolon" "\<not> b64_safe quote" "\<not> b64_safe newline" "\<not> b64_safe CHR '' ''" by code_simp+
  moreover have "semicolon \<notin> set nonce_placeholder" "quote \<notin> set nonce_placeholder"
    "newline \<notin> set nonce_placeholder" "CHR '' '' \<notin> set nonce_placeholder" "nonce_placeholder \<noteq> []"
    by code_simp+
  ultimately show ?thesis using safe replace_all_count default_policy_nonce by simp
qed

text \<open>
  \<open>MaxBodyBytes\<close>: a request that declares more than the limit is answered with status 413 and the
  handler never runs; any other is passed on with a body that delivers no more than the limit,
  all of it when it is within the limit and nobody set a lower one, whatever length was declared.
\<close>

theorem max_body_bounds:
  assumes "MaxBodyBytes limit = Some mw" and "sent w = None"
  shows "if content_length r > limit
    then (\<exists>h. sent (fst (mw hnd (w, s) r)) = Some (413, h)) \<and> mw hnd (w, s) r = mw other (w, s) r
    else (let r' = max_bytes_reader limit r in
      mw hnd (w, s) r = hnd (w, s) r' \<and> int (length (fst (read_body r'))) \<le> limit \<and>
      (body_limit r = None \<longrightarrow> int (length (body r)) \<le> limit \<longrightarrow> read_body r' = (body r, False)) \<and>
      (int (length (body r)) > limit \<longrightarrow> snd (read_body r')))"
proof -
  obtain n where n: "limit = int (Suc n)" "mw = max_body (int (Suc n))"
    using MaxBodyBytes_Some [OF assms(1)] by blast
  show ?thesis
  proof (cases "content_length r > limit")
    case True
    then have a: "\<not> content_length r \<le> int (Suc n)" using n by simp
    show ?thesis
      using True http_error_sent(1) [OF assms(2)] max_body.rejected [OF a, of hnd "(w, s)"]
        max_body.rejected [OF a, of other "(w, s)"] n(2)
      by simp
  next
    case False
    then have "mw hnd (w, s) r = hnd (w, s) (max_bytes_reader limit r)"
      using max_body.admitted [of r n hnd "(w, s)"] n by simp
    moreover have rb: "read_body (max_bytes_reader limit r) =
        (let m = (case body_limit r of None \<Rightarrow> limit | Some m \<Rightarrow> min m limit) in
         (take (nat m) (body r), int (length (body r)) > m))"
      by (simp add: read_body_def max_bytes_reader_def Let_def)
    ultimately show ?thesis
      using False n(1) unfolding Let_def rb by (auto split: option.splits)
  qed
qed

theorem max_body_bounds_witness:
  "\<exists>mw. MaxBodyBytes 4 = Some (mw :: nat middleware) \<and>
     (\<exists>h. sent (fst (mw (\<lambda>ws r. ws) (empty_response, 0) demo_request)) = Some (413, h))"
proof -
  have m: "MaxBodyBytes 4 = Some (max_body 4 :: nat middleware)"
    by (simp add: MaxBodyBytes_def max_body_def)
  have "sent empty_response = None" "content_length demo_request > 4"
    by (simp_all add: empty_response_def demo_request_def)
  with max_body_bounds [OF m this(1), of demo_request "\<lambda>ws r. ws" 0 "\<lambda>ws r. ws"] m show ?thesis by auto
qed

end
