(* ===== verification/Go_Json.thy ===== *)
theory Go_Json
  imports Go_Base
begin

section \<open>encoding/json: reading one value from a stream\<close>

text \<open>
  The scanner of \<open>encoding/json\<close> and \<open>Decoder.readValue\<close>, byte by byte: a state, a stack of what is
  open, and the point at which a value is complete. A number or a literal ends with the byte
  behind it, which is not consumed; a closing bracket ends a value at once.
\<close>

definition json_space :: "char \<Rightarrow> bool" where
  "json_space c \<longleftrightarrow> ord c = 32 \<or> ord c = 9 \<or> ord c = 10 \<or> ord c = 13"

definition json_hex :: "char \<Rightarrow> bool" where
  "json_hex c \<longleftrightarrow> is_digit c \<or> 97 \<le> ord c \<and> ord c \<le> 102 \<or> 65 \<le> ord c \<and> ord c \<le> 70"

definition backslash_char :: char where
  "backslash_char = CHR 0x5C"

datatype nesting = InObjectKey | InObjectValue | InArray

text \<open>\<open>Literal\<close> holds what is missing of \<open>true\<close>, \<open>false\<close> or \<open>null\<close>, \<open>UnicodeEscape\<close> how many digits.\<close>

datatype scan_state = BeginValue | BeginValueOrEmpty | BeginString | BeginStringOrEmpty | EndValue | EndTop
  | InString | InEscape | UnicodeEscape nat | AfterMinus | Integer | Zero | AfterDot | Fraction | AfterE | AfterESign
  | Exponent | Literal string | Broken

datatype scan_code = Continue | EndBracket | End | Error

record scanner =
  scan_step :: scan_state
  open_values :: "nesting list"

definition max_nesting :: nat where
  "max_nesting = 10000"

definition in_state :: "scanner \<Rightarrow> scan_state \<Rightarrow> scanner \<times> scan_code" where
  "in_state s st = (s\<lparr>scan_step := st\<rparr>, Continue)"

definition broken :: "scanner \<Rightarrow> scanner \<times> scan_code" where
  "broken s = (s\<lparr>scan_step := Broken\<rparr>, Error)"

definition push_value :: "scanner \<Rightarrow> nesting \<Rightarrow> scan_state \<Rightarrow> scanner \<times> scan_code" where
  "push_value s n st =
     (if length (open_values s) < max_nesting
      then (s\<lparr>scan_step := st, open_values := n # open_values s\<rparr>, Continue) else broken s)"

definition pop_value :: "scanner \<Rightarrow> scanner \<times> scan_code" where
  "pop_value s = (s\<lparr>scan_step := (if length (open_values s) \<le> 1 then EndTop else EndValue),
     open_values := tl (open_values s)\<rparr>, EndBracket)"

text \<open>A byte that cannot follow the top value is complained about by the next step only.\<close>

definition end_top :: "scanner \<Rightarrow> char \<Rightarrow> scanner \<times> scan_code" where
  "end_top s c = (s\<lparr>scan_step := (if json_space c then EndTop else Broken)\<rparr>, End)"

definition end_value :: "scanner \<Rightarrow> char \<Rightarrow> scanner \<times> scan_code" where
  "end_value s c =
     (case open_values s of
        [] \<Rightarrow> end_top s c
      | n # ns \<Rightarrow>
          if json_space c then in_state s EndValue
          else (case n of
              InObjectKey \<Rightarrow> if c = CHR '':'' then (s\<lparr>scan_step := BeginValue, open_values := InObjectValue # ns\<rparr>, Continue)
                else broken s
            | InObjectValue \<Rightarrow>
                if c = CHR '','' then (s\<lparr>scan_step := BeginString, open_values := InObjectKey # ns\<rparr>, Continue)
                else if c = CHR ''}'' then pop_value s else broken s
            | InArray \<Rightarrow> if c = CHR '','' then in_state s BeginValue
                else if c = CHR '']'' then pop_value s else broken s))"

definition begin_value :: "scanner \<Rightarrow> char \<Rightarrow> scanner \<times> scan_code" where
  "begin_value s c =
     (if json_space c then (s, Continue)
      else if c = CHR ''{'' then push_value s InObjectKey BeginStringOrEmpty
      else if c = CHR ''['' then push_value s InArray BeginValueOrEmpty
      else if c = CHR 0x22 then in_state s InString
      else if c = CHR ''-'' then in_state s AfterMinus
      else if c = CHR ''0'' then in_state s Zero
      else if c = CHR ''t'' then in_state s (Literal ''rue'')
      else if c = CHR ''f'' then in_state s (Literal ''alse'')
      else if c = CHR ''n'' then in_state s (Literal ''ull'')
      else if is_digit c then in_state s Integer
      else broken s)"

definition begin_string :: "scanner \<Rightarrow> char \<Rightarrow> scanner \<times> scan_code" where
  "begin_string s c = (if json_space c then (s, Continue) else if c = CHR 0x22 then in_state s InString else broken s)"

definition after_zero :: "scanner \<Rightarrow> char \<Rightarrow> scanner \<times> scan_code" where
  "after_zero s c = (if c = CHR ''.'' then in_state s AfterDot
     else if c = CHR ''e'' \<or> c = CHR ''E'' then in_state s AfterE else end_value s c)"

definition scan_byte :: "scanner \<Rightarrow> char \<Rightarrow> scanner \<times> scan_code" where
  "scan_byte s c = (case scan_step s of
     BeginValue \<Rightarrow> begin_value s c
   | BeginValueOrEmpty \<Rightarrow> if json_space c then (s, Continue) else if c = CHR '']'' then end_value s c else begin_value s c
   | BeginString \<Rightarrow> begin_string s c
   | BeginStringOrEmpty \<Rightarrow>
       if json_space c then (s, Continue)
       else if c = CHR ''}'' then end_value (s\<lparr>open_values := InObjectValue # tl (open_values s)\<rparr>) c
       else begin_string s c
   | EndValue \<Rightarrow> end_value s c
   | EndTop \<Rightarrow> end_top s c
   | InString \<Rightarrow> if c = CHR 0x22 then in_state s EndValue else if c = backslash_char then in_state s InEscape
       else if ord c < 32 then broken s else (s, Continue)
   | InEscape \<Rightarrow> if c \<in> set ''bfnrt/'' \<or> c = backslash_char \<or> c = CHR 0x22 then in_state s InString
       else if c = CHR ''u'' then in_state s (UnicodeEscape 4) else broken s
   | UnicodeEscape n \<Rightarrow> if json_hex c then in_state s (if n \<le> 1 then InString else UnicodeEscape (n - 1)) else broken s
   | AfterMinus \<Rightarrow> if c = CHR ''0'' then in_state s Zero else if is_digit c then in_state s Integer else broken s
   | Integer \<Rightarrow> if is_digit c then in_state s Integer else after_zero s c
   | Zero \<Rightarrow> after_zero s c
   | AfterDot \<Rightarrow> if is_digit c then in_state s Fraction else broken s
   | Fraction \<Rightarrow> if is_digit c then in_state s Fraction
       else if c = CHR ''e'' \<or> c = CHR ''E'' then in_state s AfterE else end_value s c
   | AfterE \<Rightarrow> if c = CHR ''+'' \<or> c = CHR ''-'' then in_state s AfterESign
       else if is_digit c then in_state s Exponent else broken s
   | AfterESign \<Rightarrow> if is_digit c then in_state s Exponent else broken s
   | Exponent \<Rightarrow> if is_digit c then in_state s Exponent else end_value s c
   | Literal w \<Rightarrow> (case w of [] \<Rightarrow> broken s
       | d # ds \<Rightarrow> if c = d then in_state s (if ds = [] then EndValue else Literal ds) else broken s)
   | Broken \<Rightarrow> (s, Error))"

definition reset_scanner :: scanner where
  "reset_scanner = \<lparr>scan_step = BeginValue, open_values = []\<rparr>"

subsection \<open>Reading a value\<close>

text \<open>What a read gives: a value with what is left, or an error.\<close>

datatype reading = Value string string | ReadFails gerror

definition io_EOF :: gerror where "io_EOF = Sentinel ''EOF''"
definition unexpected_EOF :: gerror where "unexpected_EOF = Sentinel ''unexpected EOF''"
definition json_syntax_error :: gerror where "json_syntax_error = Plain ''invalid character in JSON text''"

text \<open>
  The bytes that are delivered, and the error of the reader when they are used up (\<open>io.EOF\<close> at the
  end of the body). The first argument is what has been scanned of the value; the
  scan starts anew with every value.
\<close>

fun read_value :: "gerror \<Rightarrow> string \<Rightarrow> scanner \<Rightarrow> string \<Rightarrow> reading" where
  "read_value e acc s [] =
     (if e = io_EOF then
        (if snd (scan_byte s CHR '' '') = End then Value acc []
         else if list_all json_space acc then ReadFails io_EOF else ReadFails unexpected_EOF)
      else ReadFails e)"
| "read_value e acc s (c # cs) =
     (case scan_byte s c of
        (s', End) \<Rightarrow> Value acc (c # cs)
      | (s', Error) \<Rightarrow> ReadFails json_syntax_error
      | (s', EndBracket) \<Rightarrow> if snd (end_value s' CHR '' '') = End then Value (acc @ [c]) cs
          else read_value e (acc @ [c]) s' cs
      | (s', Continue) \<Rightarrow> read_value e (acc @ [c]) s' cs)"

end
