(* ===== verification/Json_Grammar.thy ===== *)
theory Json_Grammar
  imports Go_Json
begin

section \<open>The grammar of JSON texts\<close>

text \<open>
  The grammar of RFC 8259 as a reference for the scanner of theory \<open>Go_Json\<close>, with the scanner's bound
  on nesting, and its derivatives by a first character.
\<close>

subsection \<open>Languages\<close>

type_synonym language = "string \<Rightarrow> bool"

definition followed :: "language \<Rightarrow> language \<Rightarrow> language" where
  "followed P Q xs \<longleftrightarrow> (\<exists>a b. xs = a @ b \<and> P a \<and> Q b)"

definition lead :: "char \<Rightarrow> language \<Rightarrow> language" where
  "lead c P xs \<longleftrightarrow> (\<exists>b. xs = c # b \<and> P b)"

definition nothing :: language where
  "nothing xs \<longleftrightarrow> xs = []"

lemma followed_Nil [simp]: "followed P Q [] \<longleftrightarrow> P [] \<and> Q []"
  by (auto simp: followed_def)

lemma followed_Cons: "followed P Q (c # cs) \<longleftrightarrow> followed (\<lambda>a. P (c # a)) Q cs \<or> P [] \<and> Q (c # cs)"
  unfolding followed_def Cons_eq_append_conv by blast

lemma followed_assoc [simp]: "followed (followed P Q) R = followed P (followed Q R)"
  unfolding followed_def by (intro ext) (metis append.assoc)

lemma followed_lead [simp]: "followed (lead c P) Q = lead c (followed P Q)"
  unfolding followed_def lead_def by (intro ext) (metis append_Cons)

lemma followed_nothing [simp]: "followed nothing Q = Q" "followed Q nothing = Q"
  by (simp_all add: followed_def nothing_def fun_eq_iff)

lemma followed_or [simp]: "followed (\<lambda>a. P a \<or> Q a) R xs \<longleftrightarrow> followed P R xs \<or> followed Q R xs"
  by (auto simp: followed_def)

lemma followed_if [simp]: "followed (\<lambda>a. A \<and> P a) R xs \<longleftrightarrow> A \<and> followed P R xs"
  "followed (\<lambda>a. A) R xs \<longleftrightarrow> A \<and> followed (\<lambda>a. True) R xs" if "NO_MATCH True A"
  by (auto simp: followed_def)

lemma followed_False [simp]: "\<not> followed (\<lambda>a. False) R xs"
  by (simp add: followed_def)

lemma lead_simps [simp]: "\<not> lead c P []" "lead c P (d # ds) \<longleftrightarrow> d = c \<and> P ds" "nothing []" "\<not> nothing (d # ds)"
  by (auto simp: lead_def nothing_def)

subsection \<open>The grammar\<close>

definition spaces :: language where
  "spaces s \<longleftrightarrow> list_all json_space s"

definition digits :: language where
  "digits s \<longleftrightarrow> list_all is_digit s"

definition some_digits :: language where
  "some_digits s \<longleftrightarrow> s \<noteq> [] \<and> digits s"

text \<open>The rest of a string literal, behind its opening quote.\<close>

inductive json_chars :: language where
  closing: "json_chars [CHR 0x22]"
| plain: "json_chars s \<Longrightarrow> c \<noteq> CHR 0x22 \<Longrightarrow> c \<noteq> backslash_char \<Longrightarrow> 32 \<le> ord c \<Longrightarrow> json_chars (c # s)"
| escape: "json_chars s \<Longrightarrow> c \<in> set ''bfnrt/'' \<or> c = backslash_char \<or> c = CHR 0x22 \<Longrightarrow> json_chars (backslash_char # c # s)"
| unicode: "json_chars s \<Longrightarrow> length h = 4 \<Longrightarrow> list_all json_hex h \<Longrightarrow> json_chars (backslash_char # CHR ''u'' # h @ s)"

definition json_int :: language where
  "json_int s \<longleftrightarrow> s = ''0'' \<or> (\<exists>c ds. s = c # ds \<and> is_digit c \<and> c \<noteq> CHR ''0'' \<and> digits ds)"

definition json_frac :: language where
  "json_frac s \<longleftrightarrow> nothing s \<or> lead CHR ''.'' some_digits s"

definition exp_sign :: language where
  "exp_sign s \<longleftrightarrow> s = [] \<or> s = ''+'' \<or> s = ''-''"

definition json_exp :: language where
  "json_exp s \<longleftrightarrow> nothing s \<or> lead CHR ''e'' (followed exp_sign some_digits) s \<or>
     lead CHR ''E'' (followed exp_sign some_digits) s"

definition json_number :: language where
  "json_number s \<longleftrightarrow> followed json_int (followed json_frac json_exp) s \<or>
     lead CHR ''-'' (followed json_int (followed json_frac json_exp)) s"

text \<open>
  Values that are nested at most \<open>d\<close> deep, what follows the first element of an array, a member of an
  object and what follows the first one.
\<close>

inductive json_value :: "nat \<Rightarrow> language" and json_elements :: "nat \<Rightarrow> language" and
  json_member :: "nat \<Rightarrow> language" and json_members :: "nat \<Rightarrow> language" where
  string: "json_chars s \<Longrightarrow> json_value d (CHR 0x22 # s)"
| number: "json_number s \<Longrightarrow> json_value d s"
| word: "s = ''true'' \<or> s = ''false'' \<or> s = ''null'' \<Longrightarrow> json_value d s"
| empty_array: "spaces sp \<Longrightarrow> json_value (Suc d) (CHR ''['' # sp @ '']'')"
| array: "spaces sp \<Longrightarrow> json_value d v \<Longrightarrow> json_elements d t \<Longrightarrow> json_value (Suc d) (CHR ''['' # sp @ v @ t)"
| empty_object: "spaces sp \<Longrightarrow> json_value (Suc d) (CHR ''{'' # sp @ ''}'')"
| object: "spaces sp \<Longrightarrow> json_member d v \<Longrightarrow> json_members d t \<Longrightarrow> json_value (Suc d) (CHR ''{'' # sp @ v @ t)"
| last_element: "spaces sp \<Longrightarrow> json_elements d (sp @ '']'')"
| more_elements: "spaces sp \<Longrightarrow> spaces sq \<Longrightarrow> json_value d v \<Longrightarrow> json_elements d t \<Longrightarrow>
    json_elements d (sp @ CHR '','' # sq @ v @ t)"
| member: "json_chars s \<Longrightarrow> spaces sp \<Longrightarrow> spaces sq \<Longrightarrow> json_value d v \<Longrightarrow>
    json_member d (CHR 0x22 # s @ sp @ CHR '':'' # sq @ v)"
| last_member: "spaces sp \<Longrightarrow> json_members d (sp @ ''}'')"
| more_members: "spaces sp \<Longrightarrow> spaces sq \<Longrightarrow> json_member d v \<Longrightarrow> json_members d t \<Longrightarrow>
    json_members d (sp @ CHR '','' # sq @ v @ t)"

definition json_text :: language where
  "json_text = followed spaces (json_value max_nesting)"

subsection \<open>First characters\<close>

lemma spaces_simps [simp]: "spaces []" "spaces (c # s) \<longleftrightarrow> json_space c \<and> spaces s"
  and digits_simps [simp]: "digits []" "digits (c # s) \<longleftrightarrow> is_digit c \<and> digits s"
  and some_digits_simps [simp]: "\<not> some_digits []" "some_digits (c # s) \<longleftrightarrow> is_digit c \<and> digits s"
  by (simp_all add: spaces_def digits_def some_digits_def)

lemma json_int_simps [simp]: "\<not> json_int []"
  "json_int (c # s) \<longleftrightarrow> c = CHR ''0'' \<and> nothing s \<or> is_digit c \<and> c \<noteq> CHR ''0'' \<and> digits s"
  by (auto simp: json_int_def nothing_def)

lemma json_frac_simps [simp]: "json_frac []" "json_frac (c # s) \<longleftrightarrow> c = CHR ''.'' \<and> some_digits s"
  by (simp_all add: json_frac_def)

lemma exp_sign_simps [simp]: "exp_sign []" "exp_sign (c # s) \<longleftrightarrow> (c = CHR ''+'' \<or> c = CHR ''-'') \<and> nothing s"
  by (auto simp: exp_sign_def nothing_def)

lemma json_exp_simps [simp]: "json_exp []"
  "json_exp (c # s) \<longleftrightarrow> (c = CHR ''e'' \<or> c = CHR ''E'') \<and> followed exp_sign some_digits s"
  by (auto simp: json_exp_def)

lemma followedI: "P a \<Longrightarrow> Q b \<Longrightarrow> followed P Q (a @ b)"
  and leadI: "P b \<Longrightarrow> lead c P (c # b)"
  by (auto simp: followed_def)

lemma followedE:
  assumes "followed P Q s"
  obtains a b where "s = a @ b" "P a" "Q b"
  using assms by (auto simp: followed_def)

lemma leadE:
  assumes "lead c P s"
  obtains b where "s = c # b" "P b"
  using assms by (auto simp: lead_def)

text \<open>The grammar with its sequences as languages.\<close>

inductive_cases chars_cases: "json_chars (c # s)"
inductive_cases value_cases: "json_value d s"
inductive_cases elements_cases: "json_elements d s"
inductive_cases member_cases: "json_member d s"
inductive_cases members_cases: "json_members d s"

lemma elements_eq:
  "json_elements d = followed spaces (\<lambda>s. lead CHR '']'' nothing s \<or>
     lead CHR '','' (followed spaces (followed (json_value d) (json_elements d))) s)" (is "_ = ?R")
proof (intro ext iffI)
  fix s assume "json_elements d s"
  then show "?R s" by (cases rule: elements_cases) (auto intro!: followedI)
next
  fix s assume "?R s"
  then show "json_elements d s"
    by (auto elim!: followedE leadE simp: nothing_def intro: last_element more_elements)
qed

lemma member_eq:
  "json_member d = lead CHR 0x22 (followed json_chars (followed spaces (lead CHR '':'' (followed spaces (json_value d)))))"
  (is "_ = ?R")
proof (intro ext iffI)
  fix s assume "json_member d s"
  then show "?R s" by (cases rule: member_cases) (auto intro!: followedI)
next
  fix s assume "?R s"
  then show "json_member d s"
    by (auto elim!: followedE leadE intro: member)
qed

lemma members_eq:
  "json_members d = followed spaces (\<lambda>s. lead CHR ''}'' nothing s \<or>
     lead CHR '','' (followed spaces (followed (json_member d) (json_members d))) s)" (is "_ = ?R")
proof (intro ext iffI)
  fix s assume "json_members d s"
  then show "?R s" by (cases rule: members_cases) (auto intro!: followedI)
next
  fix s assume "?R s"
  then show "json_members d s"
    by (auto elim!: followedE leadE simp: nothing_def intro: last_member more_members)
qed

definition array_rest :: "nat \<Rightarrow> language" where
  "array_rest d = followed spaces (\<lambda>s. lead CHR '']'' nothing s \<or> followed (json_value d) (json_elements d) s)"

definition object_rest :: "nat \<Rightarrow> language" where
  "object_rest d = followed spaces (\<lambda>s. lead CHR ''}'' nothing s \<or> followed (json_member d) (json_members d) s)"

lemma array_restI:
  "spaces sp \<Longrightarrow> array_rest d (sp @ '']'')"
  "spaces sp \<Longrightarrow> json_value d v \<Longrightarrow> json_elements d t \<Longrightarrow> array_rest d (sp @ v @ t)"
  unfolding array_rest_def by (rule followedI; simp add: followedI)+

lemma object_restI:
  "spaces sp \<Longrightarrow> object_rest d (sp @ ''}'')"
  "spaces sp \<Longrightarrow> json_member d v \<Longrightarrow> json_members d t \<Longrightarrow> object_rest d (sp @ v @ t)"
  unfolding object_rest_def by (rule followedI; simp add: followedI)+

lemma array_restD: "array_rest d s \<Longrightarrow> json_value (Suc d) (CHR ''['' # s)"
  unfolding array_rest_def
  by (elim followedE disjE leadE; hypsubst)
    (auto simp: nothing_def elim!: followedE intro: empty_array json_value_json_elements_json_member_json_members.array)

lemma object_restD: "object_rest d s \<Longrightarrow> json_value (Suc d) (CHR ''{'' # s)"
  unfolding object_rest_def
  by (elim followedE disjE leadE; hypsubst)
    (auto simp: nothing_def elim!: followedE intro: empty_object json_value_json_elements_json_member_json_members.object)

lemma value_eq:
  "json_value d s \<longleftrightarrow> lead CHR 0x22 json_chars s \<or> json_number s \<or> s = ''true'' \<or> s = ''false'' \<or> s = ''null'' \<or>
     (\<exists>e. d = Suc e \<and> (lead CHR ''['' (array_rest e) s \<or> lead CHR ''{'' (object_rest e) s))"
  (is "_ \<longleftrightarrow> ?R")
proof
  assume "json_value d s"
  then show ?R
    by (cases rule: value_cases) (simp add: array_restI object_restI | blast)+
next
  assume ?R
  then consider b where "s = CHR 0x22 # b" "json_chars b" | "json_number s" | "s = ''true'' \<or> s = ''false'' \<or> s = ''null''"
    | e b where "d = Suc e" "s = CHR ''['' # b" "array_rest e b" | e b where "d = Suc e" "s = CHR ''{'' # b" "object_rest e b"
    by (auto simp: lead_def)
  then show "json_value d s"
    by cases (simp_all add: string number word array_restD object_restD)
qed

lemma json_number_simps [simp]: "\<not> json_number []"
  "json_number (c # s) \<longleftrightarrow> c = CHR ''-'' \<and> followed json_int (followed json_frac json_exp) s \<or>
     c = CHR ''0'' \<and> followed json_frac json_exp s \<or>
     is_digit c \<and> c \<noteq> CHR ''0'' \<and> followed digits (followed json_frac json_exp) s"
  by (auto simp: json_number_def followed_Cons)

lemma value_Nil [simp]: "\<not> json_value d []"
  by (subst value_eq) simp

lemma value_Cons:
  "json_value d (c # s) \<longleftrightarrow> c = CHR 0x22 \<and> json_chars s \<or>
     c = CHR ''-'' \<and> followed json_int (followed json_frac json_exp) s \<or>
     c = CHR ''0'' \<and> followed json_frac json_exp s \<or>
     is_digit c \<and> c \<noteq> CHR ''0'' \<and> followed digits (followed json_frac json_exp) s \<or>
     c = CHR ''t'' \<and> s = ''rue'' \<or> c = CHR ''f'' \<and> s = ''alse'' \<or> c = CHR ''n'' \<and> s = ''ull'' \<or>
     c = CHR ''['' \<and> 0 < d \<and> array_rest (d - 1) s \<or> c = CHR ''{'' \<and> 0 < d \<and> object_rest (d - 1) s"
  by (subst value_eq) (cases d; auto)

definition escape_rest :: language where
  "escape_rest s \<longleftrightarrow> json_chars (backslash_char # s)"

definition unicode_rest :: "nat \<Rightarrow> language" where
  "unicode_rest n = followed (\<lambda>h. length h = n \<and> list_all json_hex h) json_chars"

lemma unicode_rest_simps [simp]: "unicode_rest 0 = json_chars" "\<not> unicode_rest (Suc n) []"
  "unicode_rest (Suc n) (c # s) \<longleftrightarrow> json_hex c \<and> unicode_rest n s"
proof -
  show "unicode_rest 0 = json_chars" by (auto simp: unicode_rest_def followed_def fun_eq_iff)
  show "\<not> unicode_rest (Suc n) []" by (simp add: unicode_rest_def)
  show "unicode_rest (Suc n) (c # s) \<longleftrightarrow> json_hex c \<and> unicode_rest n s"
    by (simp add: unicode_rest_def followed_Cons) (auto simp: followed_def)
qed

lemma json_chars_Nil [simp]: "\<not> json_chars []"
  by (auto elim: json_chars.cases)

lemma backslash_not_quote [simp]: "backslash_char \<noteq> CHR 0x22"
  by (simp add: backslash_char_def)

lemma json_chars_Cons:
  "json_chars (c # s) \<longleftrightarrow> c = CHR 0x22 \<and> nothing s \<or> c = backslash_char \<and> escape_rest s \<or>
     c \<noteq> CHR 0x22 \<and> c \<noteq> backslash_char \<and> 32 \<le> ord c \<and> json_chars s" (is "_ \<longleftrightarrow> ?R")
proof
  assume j: "json_chars (c # s)"
  then show ?R by (cases rule: chars_cases) (use j in \<open>auto simp: escape_rest_def\<close>)
next
  assume ?R
  then show "json_chars (c # s)" by (auto simp: escape_rest_def nothing_def intro: json_chars.intros)
qed

lemma escape_rest_Nil [simp]: "\<not> escape_rest []"
proof
  assume "escape_rest []"
  then show False unfolding escape_rest_def by (cases rule: chars_cases) auto
qed

lemma escape_rest_Cons:
  "escape_rest (c # s) \<longleftrightarrow> (c \<in> set ''bfnrt/'' \<or> c = backslash_char \<or> c = CHR 0x22) \<and> json_chars s \<or>
     c = CHR ''u'' \<and> unicode_rest 4 s" (is "_ \<longleftrightarrow> ?R")
proof
  assume "escape_rest (c # s)"
  then show ?R unfolding escape_rest_def
    by (cases rule: chars_cases) (simp add: unicode_rest_def followedI | blast)+
next
  assume ?R
  then consider "c \<in> set ''bfnrt/'' \<or> c = backslash_char \<or> c = CHR 0x22" "json_chars s"
    | h t where "c = CHR ''u''" "s = h @ t" "length h = 4" "list_all json_hex h" "json_chars t"
    by (auto simp: unicode_rest_def elim!: followedE)
  then show "escape_rest (c # s)"
    unfolding escape_rest_def by cases (simp_all add: json_chars.escape json_chars.unicode)
qed

end
