(* ===== verification/Json_Scan.thy ===== *)
theory Json_Scan
  imports Json_Grammar
begin

section \<open>The JSON scanner accepts the grammar\<close>

text \<open>
  For every state and stack of the scanner of theory \<open>Go_Json\<close> the language that is still pending, in
  terms of the grammar of theory \<open>Json_Grammar\<close>. Scanning a byte leads to its derivative, so that reading
  a text as one value is membership in the grammar.
\<close>

subsection \<open>What the scanner still accepts\<close>

definition depth :: "nesting list \<Rightarrow> nat" where
  "depth st = max_nesting - length st"

text \<open>What has to follow a complete value.\<close>

fun awaited :: "nesting list \<Rightarrow> language" where
  "awaited [] = nothing"
| "awaited (InArray # st) = followed (json_elements (depth (InArray # st))) (awaited st)"
| "awaited (InObjectValue # st) = followed (json_members (depth (InObjectValue # st))) (awaited st)"
| "awaited (InObjectKey # st) = followed spaces (lead CHR '':'' (followed spaces
     (followed (json_value (depth (InObjectKey # st))) (followed (json_members (depth (InObjectKey # st))) (awaited st)))))"

fun pending :: "scan_state \<Rightarrow> nesting list \<Rightarrow> language" where
  "pending BeginValue st = followed spaces (followed (json_value (depth st)) (awaited st))"
| "pending BeginValueOrEmpty st = followed spaces (\<lambda>s. lead CHR '']'' (awaited (tl st)) s \<or>
     followed (json_value (depth st)) (awaited st) s)"
| "pending BeginString st = followed spaces (lead CHR 0x22 (followed json_chars (awaited st)))"
| "pending BeginStringOrEmpty st = followed spaces (\<lambda>s. lead CHR ''}'' (awaited (tl st)) s \<or>
     lead CHR 0x22 (followed json_chars (awaited st)) s)"
| "pending EndValue st = awaited st"
| "pending EndTop st = nothing"
| "pending InString st = followed json_chars (awaited st)"
| "pending InEscape st = followed escape_rest (awaited st)"
| "pending (UnicodeEscape n) st = followed (unicode_rest n) (awaited st)"
| "pending AfterMinus st = followed json_int (followed json_frac (followed json_exp (awaited st)))"
| "pending Integer st = followed digits (followed json_frac (followed json_exp (awaited st)))"
| "pending Zero st = followed json_frac (followed json_exp (awaited st))"
| "pending AfterDot st = followed some_digits (followed json_exp (awaited st))"
| "pending Fraction st = followed digits (followed json_exp (awaited st))"
| "pending AfterE st = followed exp_sign (followed some_digits (awaited st))"
| "pending AfterESign st = followed some_digits (awaited st)"
| "pending Exponent st = followed digits (awaited st)"
| "pending (Literal w) st = followed (\<lambda>s. s = w) (awaited st)"
| "pending Broken st = (\<lambda>s. False)"

definition scanner_ok :: "scanner \<Rightarrow> bool" where
  "scanner_ok s \<longleftrightarrow> length (open_values s) \<le> max_nesting \<and>
     (case scan_step s of
        BeginValueOrEmpty \<Rightarrow> (\<exists>st. open_values s = InArray # st)
      | BeginString \<Rightarrow> (\<exists>st. open_values s = InObjectKey # st)
      | BeginStringOrEmpty \<Rightarrow> (\<exists>st. open_values s = InObjectKey # st)
      | EndTop \<Rightarrow> open_values s = []
      | UnicodeEscape n \<Rightarrow> 0 < n
      | Literal w \<Rightarrow> w \<noteq> []
      | _ \<Rightarrow> True)"

definition goes_on :: "scan_code \<Rightarrow> bool" where
  "goes_on code \<longleftrightarrow> code = Continue \<or> code = EndBracket"

text \<open>A byte leads from the language that is pending to its derivative.\<close>

definition derives :: "scanner \<times> scan_code \<Rightarrow> language" where
  "derives t cs \<longleftrightarrow> goes_on (snd t) \<and> pending (scan_step (fst t)) (open_values (fst t)) cs"

lemma followed_alt: "followed (\<lambda>a. P a \<or> Q a) R = (\<lambda>s. followed P R s \<or> followed Q R s)"
  by (rule ext) simp

lemma space_facts: "json_space c \<Longrightarrow> c \<notin> set '']},:[{.-0123456789tfneE'' \<and> c \<noteq> CHR 0x22 \<and> \<not> is_digit c"
  by (auto simp: json_space_def is_digit_def)

lemma spaces_first:
  assumes "A = followed spaces P" and "json_space c \<Longrightarrow> \<not> P (c # cs)"
  shows "A (c # cs) \<longleftrightarrow> (if json_space c then A cs else P (c # cs))"
  using assms(2) by (auto simp: assms(1) followed_Cons)

text \<open>What follows an element, a member or a key begins with its separator or closing bracket.\<close>

lemma awaited_array:
  "awaited (InArray # st) (c # cs) \<longleftrightarrow> (if json_space c then awaited (InArray # st) cs
     else c = CHR '']'' \<and> awaited st cs \<or> c = CHR '','' \<and> pending BeginValue (InArray # st) cs)"
proof -
  have e: "awaited (InArray # st) = followed spaces (\<lambda>s. lead CHR '']'' (awaited st) s \<or>
     lead CHR '','' (pending BeginValue (InArray # st)) s)"
    by (subst awaited.simps, subst elements_eq) (simp add: followed_alt)
  show ?thesis using space_facts [of c] by (subst spaces_first [OF e]) auto
qed

lemma awaited_value:
  "awaited (InObjectValue # st) (c # cs) \<longleftrightarrow> (if json_space c then awaited (InObjectValue # st) cs
     else c = CHR ''}'' \<and> awaited st cs \<or> c = CHR '','' \<and> pending BeginString (InObjectKey # st) cs)"
proof -
  have e: "awaited (InObjectValue # st) = followed spaces (\<lambda>s. lead CHR ''}'' (awaited st) s \<or>
     lead CHR '','' (pending BeginString (InObjectKey # st)) s)"
    by (subst awaited.simps, subst members_eq) (simp add: followed_alt member_eq depth_def)
  show ?thesis using space_facts [of c] by (subst spaces_first [OF e]) auto
qed

lemma awaited_key:
  "awaited (InObjectKey # st) (c # cs) \<longleftrightarrow> (if json_space c then awaited (InObjectKey # st) cs
     else c = CHR '':'' \<and> pending BeginValue (InObjectValue # st) cs)"
proof -
  have e: "awaited (InObjectKey # st) = followed spaces (lead CHR '':'' (pending BeginValue (InObjectValue # st)))"
    by (simp add: depth_def)
  show ?thesis using space_facts [of c] by (subst spaces_first [OF e]) auto
qed

declare awaited.simps(2-4) [simp del]

lemma end_value_derives:
  assumes "length (open_values s) \<le> max_nesting"
  shows "awaited (open_values s) (c # cs) = derives (end_value s c) cs"
proof (cases "open_values s")
  case Nil
  then show ?thesis by (simp add: end_value_def end_top_def derives_def goes_on_def)
next
  case (Cons n st)
  then show ?thesis
    by (cases n)
      (auto simp: end_value_def derives_def goes_on_def in_state_def broken_def pop_value_def
        awaited_array awaited_value awaited_key split: if_splits)
qed

lemma awaited_begins: "awaited st (c # cs) \<Longrightarrow> \<not> is_digit c \<and> c \<notin> set ''.eE''"
proof (cases st)
  case (Cons n ms)
  assume "awaited st (c # cs)"
  then have "json_space c \<or> c = CHR '']'' \<or> c = CHR ''}'' \<or> c = CHR '','' \<or> c = CHR '':''"
    using Cons by (cases n) (auto simp: awaited_array awaited_value awaited_key split: if_splits)
  then show ?thesis using space_facts [of c] by (elim disjE) (simp, simp_all add: is_digit_def)
qed simp

lemma array_rest_awaited: "followed (array_rest (depth st - 1)) (awaited st) = pending BeginValueOrEmpty (InArray # st)"
  by (simp add: array_rest_def followed_alt depth_def awaited.simps)

lemma object_rest_awaited: "followed (object_rest (depth st - 1)) (awaited st) = pending BeginStringOrEmpty (InObjectKey # st)"
  by (simp add: object_rest_def followed_alt depth_def awaited.simps member_eq)

lemma value_derives:
  assumes "length (open_values s) \<le> max_nesting"
  shows "followed (json_value (depth (open_values s))) (awaited (open_values s)) (c # cs) \<longleftrightarrow>
    \<not> json_space c \<and> derives (begin_value s c) cs"
proof -
  have "0 < depth (open_values s) \<longleftrightarrow> length (open_values s) < max_nesting" by (auto simp: depth_def)
  moreover have "\<not> is_digit CHR ''-''" "\<not> is_digit CHR ''t''" "\<not> is_digit CHR ''f''" "\<not> is_digit CHR ''n''"
    "\<not> is_digit CHR ''[''" "\<not> is_digit CHR ''{''" "\<not> is_digit CHR 0x22"
    by (simp_all add: is_digit_def)
  ultimately show ?thesis
    using space_facts [of c] array_rest_awaited [of "open_values s"] object_rest_awaited [of "open_values s"]
    by (simp add: followed_Cons value_Cons begin_value_def derives_def goes_on_def in_state_def push_value_def broken_def
        del: pending.simps(2,4))
qed

lemma after_zero_derives:
  assumes "length (open_values s) \<le> max_nesting"
  shows "followed json_frac (followed json_exp (awaited (open_values s))) (c # cs) = derives (after_zero s c) cs"
  using awaited_begins [of "open_values s" c cs] end_value_derives [OF assms, of c cs]
  by (auto simp: after_zero_def followed_Cons derives_def goes_on_def in_state_def)

lemma followed_empty [simp]: "followed (\<lambda>s. s = []) P = P"
  by (simp add: followed_def fun_eq_iff)

lemma step_derives:
  assumes "scanner_ok s"
  shows "pending (scan_step s) (open_values s) (c # cs) = derives (scan_byte s c) cs"
proof -
  have len: "length (open_values s) \<le> max_nesting" using assms by (simp add: scanner_ok_def)
  note ends = end_value_derives [OF len, of c cs] and begins = value_derives [OF len, of c cs]
    and zero = after_zero_derives [OF len, of c cs] and starts = awaited_begins [of "open_values s" c cs]
    and sp = space_facts [of c]
  have nd: "\<not> is_digit CHR ''.''" "\<not> is_digit CHR ''e''" "\<not> is_digit CHR ''E''" by (simp_all add: is_digit_def)
  note defs = scan_byte_def derives_def goes_on_def in_state_def broken_def followed_Cons
  show ?thesis
  proof (cases "scan_step s")
    case BeginValue
    then show ?thesis using begins sp by (auto simp: scan_byte_def followed_Cons [of spaces] begin_value_def derives_def goes_on_def)
  next
    case BeginValueOrEmpty
    then obtain st where "open_values s = InArray # st" using assms by (auto simp: scanner_ok_def)
    moreover have "snd (begin_value s CHR '']'') = Error"
      by (simp add: begin_value_def broken_def json_space_def is_digit_def)
    ultimately show ?thesis using begins sp BeginValueOrEmpty
      by (auto simp: scan_byte_def followed_Cons [of spaces] derives_def goes_on_def end_value_def pop_value_def)
  next
    case BeginString
    then show ?thesis using sp by (auto simp: defs begin_string_def)
  next
    case BeginStringOrEmpty
    then obtain st where "open_values s = InObjectKey # st" using assms by (auto simp: scanner_ok_def)
    then show ?thesis using sp BeginStringOrEmpty by (auto simp: defs begin_string_def end_value_def pop_value_def)
  next
    case (UnicodeEscape n)
    then obtain k where "n = Suc k" using assms by (cases n) (auto simp: scanner_ok_def)
    then show ?thesis using UnicodeEscape by (cases k) (auto simp: defs)
  next
    case (Literal w)
    then obtain d ds where "w = d # ds" using assms by (cases w) (auto simp: scanner_ok_def)
    then show ?thesis using Literal by (auto simp: defs)
  next
    case InString
    then show ?thesis by (auto simp: defs json_chars_Cons)
  next
    case InEscape
    then show ?thesis by (simp add: defs escape_rest_Cons) (auto simp: backslash_char_def)
  next
    case EndValue
    then show ?thesis using ends by (simp add: scan_byte_def)
  next
    case EndTop
    then show ?thesis by (simp add: defs end_top_def)
  next
    case Zero
    then show ?thesis using zero by (simp add: scan_byte_def)
  next
    case Integer
    then show ?thesis using zero starts nd by (cases "is_digit c") (auto simp: defs)
  next
    case AfterMinus
    then show ?thesis by (auto simp: defs)
  next
    case AfterDot
    then show ?thesis by (simp add: defs)
  next
    case Fraction
    then show ?thesis using ends starts nd by (auto simp: defs)
  next
    case AfterE
    then show ?thesis by (auto simp: defs is_digit_def)
  next
    case AfterESign
    then show ?thesis by (simp add: defs)
  next
    case Exponent
    then show ?thesis using ends starts by (auto simp: defs)
  next
    case Broken
    then show ?thesis by (simp add: defs)
  qed
qed

text \<open>At the end of the text a space decides: the value is complete when nothing is pending.\<close>

lemma end_derives:
  assumes "scanner_ok s"
  shows "pending (scan_step s) (open_values s) [] \<longleftrightarrow> snd (scan_byte s CHR '' '') = End"
proof -
  have sp: "json_space CHR '' ''" "\<not> is_digit CHR '' ''" "\<not> json_hex CHR '' ''" "CHR '' '' \<noteq> backslash_char"
    by (simp_all add: json_space_def is_digit_def json_hex_def backslash_char_def)
  have K: "awaited st [] \<longleftrightarrow> st = []" for st
    by (cases st rule: awaited.cases) (simp_all add: awaited.simps elements_eq [THEN fun_cong] members_eq [THEN fun_cong])
  have e: "snd (end_value s CHR '' '') = End \<longleftrightarrow> open_values s = []"
    using sp by (cases "open_values s") (simp_all add: end_value_def end_top_def in_state_def)
  show ?thesis
  proof (cases "scan_step s")
    case (UnicodeEscape n)
    then show ?thesis using assms sp by (cases n) (auto simp: scanner_ok_def scan_byte_def broken_def)
  next
    case (Literal w)
    then show ?thesis using assms sp by (cases w) (auto simp: scanner_ok_def scan_byte_def broken_def in_state_def)
  qed (use assms sp in \<open>auto simp: scanner_ok_def scan_byte_def broken_def in_state_def begin_value_def begin_string_def
      after_zero_def end_top_def e K\<close>)
qed

lemma end_value_ok:
  "length (open_values s) \<le> max_nesting \<Longrightarrow> goes_on (snd (end_value s c)) \<Longrightarrow> scanner_ok (fst (end_value s c))"
  by (cases "open_values s"; cases "hd (open_values s)")
    (auto simp: end_value_def end_top_def goes_on_def in_state_def broken_def pop_value_def scanner_ok_def split: if_splits)

lemma begin_value_ok:
  "length (open_values s) \<le> max_nesting \<Longrightarrow> goes_on (snd (begin_value s c)) \<Longrightarrow> \<not> json_space c \<Longrightarrow>
     scanner_ok (fst (begin_value s c))"
  by (auto simp: begin_value_def push_value_def goes_on_def in_state_def broken_def scanner_ok_def split: if_splits)

lemma scanner_ok_step:
  assumes ok: "scanner_ok s" and go: "goes_on (snd (scan_byte s c))"
  shows "scanner_ok (fst (scan_byte s c))"
proof -
  have len: "length (open_values s) \<le> max_nesting" using ok by (simp add: scanner_ok_def)
  note simps = scan_byte_def in_state_def broken_def goes_on_def
  have space: "json_space c \<Longrightarrow> begin_value s c = (s, Continue)" by (simp add: begin_value_def)
  have key: "length (open_values (s\<lparr>open_values := InObjectValue # tl (open_values s)\<rparr>)) \<le> max_nesting"
    if "open_values s \<noteq> []" using len that by (cases "open_values s") simp_all
  show ?thesis
  proof (cases "scan_step s")
    case BeginValue
    then show ?thesis using go begin_value_ok [OF len, of c] space ok by (cases "json_space c") (simp_all add: scan_byte_def)
  next
    case BeginValueOrEmpty
    then show ?thesis using go begin_value_ok [OF len, of c] end_value_ok [OF len, of c] ok
      by (auto simp: scan_byte_def split: if_splits)
  next
    case BeginStringOrEmpty
    then show ?thesis using go end_value_ok [OF key, of c] ok
      by (auto simp: simps begin_string_def scanner_ok_def [of s] split: if_splits) (auto simp: scanner_ok_def)
  next
    case (Literal w)
    then show ?thesis using go len by (cases w) (auto simp: simps scanner_ok_def split: if_splits)
  qed (use go ok len end_value_ok [OF len, of c] in \<open>auto simp: simps begin_string_def after_zero_def end_top_def
      scanner_ok_def [of "_\<lparr>scan_step := _\<rparr>"] split: if_splits\<close>)
qed

subsection \<open>The scanner and the grammar agree\<close>

fun scans :: "scanner \<Rightarrow> language" where
  "scans s [] \<longleftrightarrow> snd (scan_byte s CHR '' '') = End"
| "scans s (c # cs) \<longleftrightarrow> goes_on (snd (scan_byte s c)) \<and> scans (fst (scan_byte s c)) cs"

lemma scans_pending: "scanner_ok s \<Longrightarrow> scans s xs \<longleftrightarrow> pending (scan_step s) (open_values s) xs"
proof (induction xs arbitrary: s)
  case Nil
  then show ?case using end_derives by simp
next
  case (Cons c cs)
  then show ?case
    using step_derives [OF Cons.prems, of c cs] scanner_ok_step [OF Cons.prems, of c] by (auto simp: derives_def)
qed

lemma pop_end: "scan_byte s c = (s', EndBracket) \<Longrightarrow> scan_step s' = (if open_values s' = [] then EndTop else EndValue)"
  by (cases "scan_step s"; cases "open_values s")
    (auto simp: scan_byte_def begin_value_def begin_string_def push_value_def broken_def in_state_def after_zero_def
      end_top_def end_value_def pop_value_def split: if_splits list.splits nesting.splits)

lemma bracket_ends:
  assumes "scan_byte s c = (s', EndBracket)"
  shows "if snd (end_value s' CHR '' '') = End then (\<forall>cs. scans s' cs \<longleftrightarrow> cs = []) else True"
proof (cases "open_values s'")
  case Nil
  then have "scan_step s' = EndTop" using pop_end [OF assms] by simp
  moreover have "scans s' cs \<longleftrightarrow> cs = []" if "scan_step s' = EndTop" for cs
    using that by (cases cs) (simp_all add: scan_byte_def end_top_def goes_on_def)
  ultimately show ?thesis by simp
next
  case (Cons n ns)
  then have "snd (end_value s' CHR '' '') = Continue" by (simp add: end_value_def in_state_def json_space_def)
  then show ?thesis by simp
qed

lemma read_value_scans: "read_value io_EOF acc s xs = Value (acc @ xs) [] \<longleftrightarrow> scans s xs"
proof (induction xs arbitrary: acc s)
  case (Cons c cs)
  obtain s' code where b: "scan_byte s c = (s', code)" by fastforce
  have IH: "read_value io_EOF (acc @ [c]) s' cs = Value (acc @ c # cs) [] \<longleftrightarrow> scans s' cs"
    using Cons.IH [of "acc @ [c]" s'] by simp
  show ?case
  proof (cases code)
    case EndBracket
    then show ?thesis using b IH bracket_ends [of s c s'] by (auto simp: goes_on_def split: if_splits)
  qed (use b IH in \<open>simp_all add: goes_on_def\<close>)
qed simp

text \<open>Reading a text gives it back as one whole value exactly when it is a JSON text.\<close>

theorem scanner_reads_grammar: "read_value io_EOF [] reset_scanner v = Value v [] \<longleftrightarrow> json_text v"
proof -
  have "scanner_ok reset_scanner" by (simp add: scanner_ok_def reset_scanner_def)
  from scans_pending [OF this, of v] read_value_scans [of "[]" reset_scanner v]
  show ?thesis by (simp add: reset_scanner_def json_text_def depth_def)
qed

end
