(* ===== verification/Web_Json.thy ===== *)
theory Web_Json
  imports Web_Http Json_Scan
begin

section \<open>Package web: JSON request bodies\<close>

text \<open>
  \<open>DecodeJSON\<close> of \<open>web/json.go\<close> over the streaming decoder. Storing a value in the destination
  depends on the destination's type; it is the argument \<open>assign\<close> (with unknown fields disallowed),
  which is given the text of one complete value.
\<close>

definition ErrMultipleJSONValues :: gerror where
  "ErrMultipleJSONValues = Sentinel ''request body must contain exactly one JSON value''"

definition body_too_large :: gerror where
  "body_too_large = Plain ''http: request body too large''"

text \<open>The error the reader of a body ends with.\<close>

definition body_end :: "bool \<Rightarrow> gerror" where
  "body_end hit = (if hit then body_too_large else io_EOF)"

text \<open>Writer, request and body may be \<open>nil\<close>; a request without a body is no request here.\<close>

definition DecodeJSON ::
  "(string \<Rightarrow> 'd \<Rightarrow> gerror option \<times> 'd) \<Rightarrow> bool \<Rightarrow> request option \<Rightarrow> int \<Rightarrow> 'd \<Rightarrow> gerror option \<times> 'd" where
  "DecodeJSON assign has_writer req max_bytes d =
     (if \<not> has_writer then (Some (Plain ''response writer is required''), d)
      else case req of None \<Rightarrow> (Some (Plain ''request body is required''), d) | Some r \<Rightarrow>
      if max_bytes \<le> 0 then (Some (Plain ''maximum JSON body size must be positive''), d)
      else
       (let (delivered, hit) = read_body (max_bytes_reader max_bytes r) in
        case read_value (body_end hit) [] reset_scanner delivered of
          ReadFails e \<Rightarrow> (Some (Wrapf ''decode JSON body'' e), d)
        | Value v trailing \<Rightarrow>
            (case assign v d of
               (Some e, d') \<Rightarrow> (Some (Wrapf ''decode JSON body'' e), d')
             | (None, d') \<Rightarrow>
                 (case read_value (body_end hit) [] reset_scanner trailing of
                    ReadFails e \<Rightarrow> if errors_is e io_EOF then (None, d')
                      else (Some (Wrapf ''decode trailing JSON data'' e), d')
                  | Value v' left \<Rightarrow> (Some ErrMultipleJSONValues, d')))))"

subsection \<open>The scanner on one value\<close>

lemma read_value_split: "read_value e acc s cs = Value v rest \<Longrightarrow> \<exists>mid. v = acc @ mid \<and> cs = mid @ rest"
  by (induction e acc s cs arbitrary: v rest rule: read_value.induct)
    (fastforce split: if_splits prod.splits scan_code.splits)+

lemma errors_distinct [simp]: "json_syntax_error \<noteq> io_EOF" "unexpected_EOF \<noteq> io_EOF" "body_too_large \<noteq> io_EOF"
  "\<not> errors_is json_syntax_error io_EOF" "\<not> errors_is unexpected_EOF io_EOF" "\<not> errors_is body_too_large io_EOF"
  by (simp_all add: json_syntax_error_def unexpected_EOF_def body_too_large_def io_EOF_def)

lemma read_value_EOF:
  "read_value e acc s cs = ReadFails io_EOF \<Longrightarrow> e = io_EOF \<and> list_all json_space (acc @ cs)"
  by (induction e acc s cs rule: read_value.induct) (auto split: if_splits prod.splits scan_code.splits)

lemma begin_space: "json_space c \<Longrightarrow> scan_byte reset_scanner c = (reset_scanner, Continue)"
  by (simp add: reset_scanner_def begin_value_def scan_byte_def)

lemma read_value_spaces:
  "list_all json_space (acc @ cs) \<Longrightarrow> read_value io_EOF acc reset_scanner cs = ReadFails io_EOF"
proof (induction cs arbitrary: acc)
  case Nil
  have "json_space CHR '' ''" by (simp add: json_space_def)
  from begin_space [OF this] Nil show ?case by simp
next
  case (Cons c cs)
  then show ?case using begin_space [of c] by simp
qed

text \<open>An empty array is only looked for inside an array.\<close>

definition array_open :: "scanner \<Rightarrow> bool" where
  "array_open s \<longleftrightarrow> scan_step s \<noteq> BeginValueOrEmpty \<or> open_values s \<noteq> []"

lemmas scan_defs = begin_value_def begin_string_def push_value_def broken_def in_state_def after_zero_def end_top_def
  end_value_def pop_value_def

lemma array_open_step: "scan_byte s c = (s', code) \<Longrightarrow> array_open s \<Longrightarrow> array_open s'"
  by (cases "scan_step s")
    (auto simp: scan_byte_def scan_defs array_open_def split: if_splits list.splits nesting.splits)

text \<open>Whether a value ends does not depend on which space follows it.\<close>

lemma scan_byte_End_space:
  assumes "snd (scan_byte s c) = End" and "json_space d" and "array_open s"
  shows "snd (scan_byte s d) = End"
proof -
  have d: "d \<noteq> CHR ''.''" "d \<noteq> CHR ''e''" "d \<noteq> CHR ''E''" "\<not> is_digit d" "d \<noteq> CHR ''}''" "d \<noteq> CHR '']''"
    using assms(2) by (auto simp: json_space_def is_digit_def)
  have ending: "snd (end_value s c) = End \<Longrightarrow> snd (end_value s d) = End"
    by (auto simp: end_value_def end_top_def in_state_def broken_def pop_value_def split: list.splits nesting.splits if_splits)
  show ?thesis
    using assms d ending
    by (cases "scan_step s")
      (auto simp: scan_byte_def array_open_def scan_defs split: if_splits list.splits nesting.splits)
qed

lemma read_value_shorter:
  "read_value e acc s (c # cs) = Value w rest \<Longrightarrow> snd (scan_byte s c) \<noteq> End \<Longrightarrow> length rest \<le> length cs"
  by (cases "scan_byte s c"; cases "snd (scan_byte s c)") (auto split: if_splits dest: read_value_split)

text \<open>A value that ends, alone: at the end of the input a space stands for what could follow.\<close>

lemma read_value_alone:
  assumes "read_value io_EOF acc s (v @ sp) = Value (acc @ v) sp" and "array_open s" and "list_all json_space sp"
  shows "read_value io_EOF acc s v = Value (acc @ v) []"
  using assms
proof (induction v arbitrary: acc s)
  case Nil
  show ?case
  proof (cases sp)
    case (Cons c cs)
    have "snd (scan_byte s c) = End"
      using read_value_shorter [of io_EOF acc s c cs] Nil.prems(1) Cons by fastforce
    then have "snd (scan_byte s CHR '' '') = End"
      using scan_byte_End_space [of s c "CHR '' ''"] Nil.prems(2) by (simp add: json_space_def)
    then show ?thesis by simp
  qed (use Nil in simp)
next
  case (Cons c v)
  obtain s' code where s': "scan_byte s c = (s', code)" by fastforce
  have open': "array_open s'" using array_open_step [OF s'] Cons.prems(2) .
  show ?case
  proof (cases "code = Continue \<or> code = EndBracket \<and> snd (end_value s' CHR '' '') \<noteq> End")
    case True
    then have "read_value io_EOF (acc @ [c]) s' (v @ sp) = Value ((acc @ [c]) @ v) sp" using Cons.prems(1) s' by auto
    from Cons.IH [OF this open' Cons.prems(3)] True s' show ?thesis by auto
  next
    case False
    then show ?thesis using Cons.prems(1) s' by (cases code) auto
  qed
qed

lemma read_value_followed:
  assumes "read_value io_EOF acc s v = Value w []" and "array_open s" and "list_all json_space sp"
  shows "read_value io_EOF acc s (v @ sp) = Value w sp"
  using assms
proof (induction v arbitrary: acc s)
  case Nil
  show ?case
  proof (cases sp)
    case (Cons c cs)
    have "snd (scan_byte s CHR '' '') = End" "w = acc" using Nil.prems(1) by (auto split: if_splits)
    then have "snd (scan_byte s c) = End"
      using scan_byte_End_space [of s "CHR '' ''" c] Nil.prems(2,3) Cons by simp
    then show ?thesis using Cons \<open>w = acc\<close> by (cases "scan_byte s c") simp
  qed (use Nil in simp)
next
  case (Cons c v)
  obtain s' code where s': "scan_byte s c = (s', code)" by fastforce
  have "array_open s'" using array_open_step [OF s'] Cons.prems(2) .
  then show ?case using Cons s' by (cases code) (auto split: if_splits)
qed

lemma read_fails_kind:
  "read_value e acc s cs = ReadFails err \<Longrightarrow> err = e \<or> err = unexpected_EOF \<or> err = json_syntax_error"
  by (induction e acc s cs rule: read_value.induct) (auto split: if_splits prod.splits scan_code.splits)

lemma array_open_reset: "array_open reset_scanner"
  by (simp add: array_open_def reset_scanner_def)

subsection \<open>Exactly one value\<close>

definition size_limit :: "int \<Rightarrow> request \<Rightarrow> int" where
  "size_limit n r = (case body_limit r of None \<Rightarrow> n | Some m \<Rightarrow> min m n)"

lemma read_limited:
  "read_body (max_bytes_reader n r) = (take (nat (size_limit n r)) (body r), int (length (body r)) > size_limit n r)"
  by (simp add: read_body_def max_bytes_reader_def size_limit_def split: option.splits)

lemma accepted_reading:
  assumes "read_value (body_end hit) [] reset_scanner delivered = Value v trailing"
    and "read_value (body_end hit) [] reset_scanner trailing = ReadFails e" and "errors_is e io_EOF"
  shows "\<not> hit" and "delivered = v @ trailing" and "list_all json_space trailing" and "json_text v"
proof -
  have "e = io_EOF" using read_fails_kind [OF assms(2)] assms(3) by (auto simp: body_end_def split: if_splits)
  with read_value_EOF assms(2) have eof: "body_end hit = io_EOF" and sp: "list_all json_space trailing" by auto
  show "\<not> hit" using eof by (auto simp: body_end_def)
  show d: "delivered = v @ trailing" using read_value_split [OF assms(1)] by simp
  show "list_all json_space trailing" by (rule sp)
  show "json_text v"
    using read_value_alone [of "[]" reset_scanner v trailing] assms(1) sp array_open_reset d eof
    by (simp add: scanner_reads_grammar [symmetric])
qed

text \<open>
  C20. A body is decoded without an error exactly when it is one JSON text in the sense of the grammar, nested
  at most 10000 deep, that the destination takes, with nothing but white space behind it, and is not longer than the
  limit; the destination is then given precisely that text. A second value, a partial or
  malformed one, or a longer body is always an error.
\<close>

theorem decode_json_exactly_one:
  "fst (DecodeJSON assign True (Some r) n d) = None \<longleftrightarrow>
     0 < n \<and> int (length (body r)) \<le> size_limit n r \<and>
     (\<exists>v sp. body r = v @ sp \<and> json_text v \<and> spaces sp \<and> fst (assign v d) = None \<and>
        snd (DecodeJSON assign True (Some r) n d) = snd (assign v d))" (is "?ok \<longleftrightarrow> ?one")
proof
  assume ?ok
  let ?hit = "int (length (body r)) > size_limit n r" and ?del = "take (nat (size_limit n r)) (body r)"
  from \<open>?ok\<close> obtain v trailing d' e where n: "0 < n"
    and v: "read_value (body_end ?hit) [] reset_scanner ?del = Value v trailing"
    and a: "assign v d = (None, d')"
    and t: "read_value (body_end ?hit) [] reset_scanner trailing = ReadFails e" "errors_is e io_EOF"
    by (auto simp: DecodeJSON_def read_limited split: if_splits reading.splits prod.splits option.splits)
  note ok = accepted_reading [OF v t]
  then have "?del = body r" by simp
  with ok v a t n have "snd (DecodeJSON assign True (Some r) n d) = snd (assign v d)"
    by (simp add: DecodeJSON_def read_limited)
  moreover have "int (length (body r)) \<le> size_limit n r" using ok(1) by simp
  moreover have "body r = v @ trailing" using ok(2) \<open>?del = body r\<close> by simp
  ultimately show ?one using ok(3,4) a n by (metis fst_conv spaces_def)
next
  assume ?one
  then obtain v sp where n: "0 < n" "int (length (body r)) \<le> size_limit n r" and b: "body r = v @ sp"
    and v: "json_text v" "list_all json_space sp" and a: "fst (assign v d) = None" by (auto simp: spaces_def)
  have "read_value io_EOF [] reset_scanner (v @ sp) = Value v sp"
    using read_value_followed [OF scanner_reads_grammar [THEN iffD2, OF v(1)] array_open_reset v(2)] .
  moreover have "read_value io_EOF [] reset_scanner sp = ReadFails io_EOF" using read_value_spaces [of "[]" sp] v(2) by simp
  moreover have "take (nat (size_limit n r)) (body r) = v @ sp" using n(2) b by simp
  ultimately show ?ok using n a b
    by (cases "assign v d") (simp add: DecodeJSON_def read_limited body_end_def)
qed

end
