(* ===== verification/Web_Csrf.thy ===== *)
theory Web_Csrf
  imports Web_Http
begin

section \<open>Package web: cross-site request forgery\<close>

text \<open>
  \<open>web/csrf.go\<close>: the options that reach filippo.io/csrf. The protection itself is that package's, a
  parameter. Keys, cookie names, ages and the insecure switch are accepted and dropped.
\<close>

record 's csrf_config =
  AuthKey :: string
  csrf_cookie_name :: string
  FieldName :: string
  MaxAge :: int
  csrf_insecure :: bool
  csrf_error_handler :: "'s handler option"

datatype 's csrf_option = CsrfFieldName string | CsrfErrorHandler "'s handler"

definition csrf_options :: "'s csrf_config \<Rightarrow> 's csrf_option list" where
  "csrf_options config =
     (if FieldName config \<noteq> [] then [CsrfFieldName (FieldName config)] else [CsrfFieldName ''csrf_token'']) @
     (case csrf_error_handler config of None \<Rightarrow> [] | Some h \<Rightarrow> [CsrfErrorHandler h])"

text \<open>The first argument of \<open>Protect\<close>, the key, is \<open>nil\<close>.\<close>

record 's csrf_library =
  csrf_protect :: "string option \<Rightarrow> 's csrf_option list \<Rightarrow> 's middleware"
  csrf_token :: "request \<Rightarrow> string"
  csrf_template_field :: "request \<Rightarrow> string"

definition NewCSRF :: "'s csrf_library \<Rightarrow> 's csrf_config \<Rightarrow> 's middleware result" where
  "NewCSRF lib config = Inr (csrf_protect lib None (csrf_options config))"

definition CSRFToken :: "'s csrf_library \<Rightarrow> request \<Rightarrow> string" where
  "CSRFToken lib r = csrf_token lib r"

definition CSRFField :: "'s csrf_library \<Rightarrow> request \<Rightarrow> string" where
  "CSRFField lib r = csrf_template_field lib r"

text \<open>
  Two configurations with the same field name and error handler are the same protection: no key
  matters any more.
\<close>

lemma new_csrf_ignores_keys:
  assumes "FieldName c = FieldName c'" and "csrf_error_handler c = csrf_error_handler c'"
  shows "NewCSRF lib c = NewCSRF lib c'"
  using assms by (simp add: NewCSRF_def csrf_options_def)

end
