(* ===== verification/Go_Url.thy ===== *)
theory Go_Url
  imports Go_Base
begin

section \<open>net/url: parsing\<close>

text \<open>
  \<open>url.Parse\<close> of the standard library as the packages \<open>ui\<close> and \<open>member\<close> use it, with the parts
  of the result they look at. Errors carry no detail: the callers only ask whether there is
  one. Strings are bytes.
\<close>

record url =
  Scheme :: string
  Opaque :: string
  User :: "(string \<times> string option) option"
  Host :: string
  Path :: string
  RawQuery :: string
  Fragment :: string

definition empty_url :: url where
  "empty_url = \<lparr>Scheme = [], Opaque = [], User = None, Host = [], Path = [], RawQuery = [], Fragment = []\<rparr>"

subsection \<open>Characters\<close>

definition is_letter :: "char \<Rightarrow> bool" where
  "is_letter c \<longleftrightarrow> 97 \<le> ord c \<and> ord c \<le> 122 \<or> 65 \<le> ord c \<and> ord c \<le> 90"

definition to_lower :: "char \<Rightarrow> char" where
  "to_lower c = (if 65 \<le> ord c \<and> ord c \<le> 90 then char_of (ord c + 32) else c)"

definition is_ctl :: "char \<Rightarrow> bool" where
  "is_ctl c \<longleftrightarrow> ord c < 32 \<or> ord c = 127"

definition hex_value :: "char \<Rightarrow> nat option" where
  "hex_value c =
     (if 48 \<le> ord c \<and> ord c \<le> 57 then Some (ord c - 48)
      else if 97 \<le> ord c \<and> ord c \<le> 102 then Some (ord c - 87)
      else if 65 \<le> ord c \<and> ord c \<le> 70 then Some (ord c - 55)
      else None)"

abbreviation colon :: char where "colon \<equiv> CHR '':''"
abbreviation percent :: char where "percent \<equiv> CHR ''%''"
abbreviation slash_char :: char where "slash_char \<equiv> CHR ''/''"
abbreviation at_sign :: char where "at_sign \<equiv> CHR ''@''"

text \<open>Characters a host may hold unescaped.\<close>

definition host_char :: "char \<Rightarrow> bool" where
  "host_char c \<longleftrightarrow> is_letter c \<or> is_digit c \<or>
     ord c \<in> {33, 34, 36, 38, 39, 40, 41, 42, 43, 44, 45, 46, 58, 59, 60, 61, 62, 91, 93, 95, 126}"

definition userinfo_char :: "char \<Rightarrow> bool" where
  "userinfo_char c \<longleftrightarrow> is_letter c \<or> is_digit c \<or>
     ord c \<in> {33, 36, 37, 38, 39, 40, 41, 42, 43, 44, 45, 46, 58, 59, 61, 64, 95, 126}"

subsection \<open>Cutting\<close>

text \<open>\<open>strings.Cut\<close> at the first separator, and at the last one.\<close>

definition cut :: "char \<Rightarrow> string \<Rightarrow> string \<times> string" where
  "cut c s = (takeWhile (\<lambda>x. x \<noteq> c) s, drop 1 (dropWhile (\<lambda>x. x \<noteq> c) s))"

definition cut_last :: "char \<Rightarrow> string \<Rightarrow> (string \<times> string) option" where
  "cut_last c s =
     (if c \<in> set s
      then Some (rev (drop 1 (dropWhile (\<lambda>x. x \<noteq> c) (rev s))), rev (takeWhile (\<lambda>x. x \<noteq> c) (rev s)))
      else None)"

lemma cut_free: "c \<notin> set s \<Longrightarrow> cut c s = (s, [])"
  by (induction s) (auto simp: cut_def)

lemma cut_last_Some:
  assumes "cut_last c s = Some (a, b)"
  shows "s = a @ c # b" and "c \<notin> set b"
proof -
  have c: "c \<in> set (rev s)" using assms by (auto simp: cut_last_def split: if_splits)
  let ?t = "takeWhile (\<lambda>x. x \<noteq> c) (rev s)" and ?d = "dropWhile (\<lambda>x. x \<noteq> c) (rev s)"
  obtain ds where d: "?d = c # ds"
    using c by (metis (mono_tags, lifting) dropWhile_eq_Nil_conv hd_dropWhile list.collapse)
  have "rev s = ?t @ c # ds" using d takeWhile_dropWhile_id [of "\<lambda>x. x \<noteq> c" "rev s"] by metis
  then have "s = rev ds @ c # rev ?t" by (metis append.assoc append_Cons append_Nil rev.simps(2) rev_append rev_rev_ident)
  moreover have "a = rev ds" "b = rev ?t" using assms d by (auto simp: cut_last_def split: if_splits)
  ultimately show "s = a @ c # b" by simp
  show "c \<notin> set b" using \<open>b = rev ?t\<close> by (auto dest: set_takeWhileD)
qed

lemma cut_last_None: "cut_last c s = None \<longleftrightarrow> c \<notin> set s"
  by (simp add: cut_last_def)

subsection \<open>Unescaping\<close>

datatype encoding = EncodePath | EncodeHost | EncodeZone | EncodeUserPassword | EncodeFragment

definition escape_allowed :: "encoding \<Rightarrow> nat \<Rightarrow> bool" where
  "escape_allowed mode v =
     (case mode of
        EncodeHost \<Rightarrow> v \<ge> 128 \<or> v = 37
      | EncodeZone \<Rightarrow> v = 37 \<or> v = 32 \<or> host_char (char_of v)
      | _ \<Rightarrow> True)"

definition plain_allowed :: "encoding \<Rightarrow> char \<Rightarrow> bool" where
  "plain_allowed mode c \<longleftrightarrow> (mode = EncodeHost \<or> mode = EncodeZone) \<and> ord c < 128 \<longrightarrow> host_char c"

fun unescape :: "encoding \<Rightarrow> string \<Rightarrow> string option" where
  "unescape mode [] = Some []"
| "unescape mode (c # s) =
     (if c = percent then
        (case s of
           a # b # t \<Rightarrow>
             (case (hex_value a, hex_value b) of
                (Some x, Some y) \<Rightarrow>
                  if escape_allowed mode (16 * x + y)
                  then map_option (Cons (char_of (16 * x + y))) (unescape mode t) else None
              | _ \<Rightarrow> None)
         | _ \<Rightarrow> None)
      else if plain_allowed mode c then map_option (Cons c) (unescape mode s) else None)"

lemma unescape_plain: "percent \<notin> set s \<Longrightarrow> unescape EncodePath s = Some s"
  by (induction s) (auto simp: plain_allowed_def)

subsection \<open>Scheme\<close>

text \<open>The first argument is what has been read; an empty scheme leaves the text as it was.\<close>

fun get_scheme :: "string \<Rightarrow> string \<Rightarrow> (string \<times> string) option" where
  "get_scheme acc [] = Some ([], acc)"
| "get_scheme acc (c # s) =
     (if is_letter c then get_scheme (acc @ [c]) s
      else if is_digit c \<or> c \<in> set ''+-.'' then
        (if acc = [] then Some ([], c # s) else get_scheme (acc @ [c]) s)
      else if c = colon then (if acc = [] then None else Some (acc, s))
      else Some ([], acc @ c # s))"

lemma get_scheme_Some:
  "get_scheme acc s = Some (scheme, rest) \<Longrightarrow>
     (scheme = [] \<and> rest = acc @ s) \<or> (scheme \<noteq> [] \<and> acc @ s = scheme @ colon # rest)"
proof (induction acc s rule: get_scheme.induct)
  case (2 acc c s)
  show ?case
  proof (cases "is_letter c \<or> (is_digit c \<or> c \<in> set ''+-.'') \<and> acc \<noteq> []")
    case True
    then have "get_scheme (acc @ [c]) s = Some (scheme, rest)"
      using "2.prems" by (auto split: if_splits)
    moreover have "get_scheme (acc @ [c]) s = Some (scheme, rest) \<Longrightarrow>
        (scheme = [] \<and> rest = (acc @ [c]) @ s) \<or> (scheme \<noteq> [] \<and> (acc @ [c]) @ s = scheme @ colon # rest)"
      using "2.IH" True by blast
    ultimately show ?thesis by simp
  next
    case False
    then show ?thesis using "2.prems" by (auto split: if_splits)
  qed
qed simp

subsection \<open>Authority\<close>

definition valid_optional_port :: "string \<Rightarrow> bool" where
  "valid_optional_port p \<longleftrightarrow> p = [] \<or> (hd p = colon \<and> list_all is_digit (tl p))"

text \<open>The zone of an address literal starts at its first \<open>%25\<close>.\<close>

fun split_zone :: "string \<Rightarrow> (string \<times> string) option" where
  "split_zone [] = None"
| "split_zone (c # s) =
     (if take 3 (c # s) = ''%25'' then Some ([], c # s)
      else map_option (\<lambda>(a, b). (c # a, b)) (split_zone s))"

definition parse_host :: "string \<Rightarrow> string option" where
  "parse_host host =
     (if take 1 host = ''['' then
        (case cut_last CHR '']'' host of
           None \<Rightarrow> None
         | Some (inside, after) \<Rightarrow>
             if \<not> valid_optional_port after then None
             else (case split_zone inside of
                 None \<Rightarrow> unescape EncodeHost host
               | Some (h, zone) \<Rightarrow>
                   (case (unescape EncodeHost h, unescape EncodeZone zone, unescape EncodeHost (CHR '']'' # after)) of
                      (Some a, Some b, Some c) \<Rightarrow> Some (a @ b @ c)
                    | _ \<Rightarrow> None)))
      else (case cut_last colon host of
          Some (h, port) \<Rightarrow> if valid_optional_port (colon # port) then unescape EncodeHost host else None
        | None \<Rightarrow> unescape EncodeHost host))"

definition parse_userinfo :: "string \<Rightarrow> (string \<times> string option) option" where
  "parse_userinfo s =
     (if \<not> list_all userinfo_char s then None
      else if colon \<notin> set s then map_option (\<lambda>u. (u, None)) (unescape EncodeUserPassword s)
      else (case (unescape EncodeUserPassword (fst (cut colon s)), unescape EncodeUserPassword (snd (cut colon s))) of
          (Some u, Some p) \<Rightarrow> Some (u, Some p) | _ \<Rightarrow> None))"

definition parse_authority :: "string \<Rightarrow> ((string \<times> string option) option \<times> string) option" where
  "parse_authority a =
     (case cut_last at_sign a of
        None \<Rightarrow> map_option (\<lambda>h. (None, h)) (parse_host a)
      | Some (info, h) \<Rightarrow>
          (case parse_host h of None \<Rightarrow> None | Some host \<Rightarrow>
            (case parse_userinfo info of None \<Rightarrow> None | Some u \<Rightarrow> Some (Some u, host))))"

subsection \<open>Parse\<close>

text \<open>The query: a lone final question mark is not a query.\<close>

definition cut_query :: "string \<Rightarrow> string \<times> string" where
  "cut_query rest =
     (if rest \<noteq> [] \<and> last rest = CHR ''?'' \<and> count_list rest CHR ''?'' = 1 then (butlast rest, [])
      else cut CHR ''?'' rest)"

lemma cut_query_path: "fst (cut_query s) = takeWhile (\<lambda>c. c \<noteq> CHR ''?'') s"
proof (cases "s \<noteq> [] \<and> last s = CHR ''?'' \<and> count_list s CHR ''?'' = 1")
  case True
  then obtain t where s: "s = t @ [CHR ''?'']" by (metis append_butlast_last_id)
  have "count_list t CHR ''?'' = 0" using True by (simp add: s)
  then have "CHR ''?'' \<notin> set t" by (simp add: count_list_0_iff)
  then have "takeWhile (\<lambda>c. c \<noteq> CHR ''?'') s = t" unfolding s by (subst takeWhile_append2) auto
  then show ?thesis using True by (simp add: cut_query_def) (simp add: s)
next
  case False
  then show ?thesis by (auto simp: cut_query_def cut_def)
qed

definition parse_path :: "url \<Rightarrow> string \<Rightarrow> url option" where
  "parse_path u rest = map_option (\<lambda>p. u\<lparr>Path := p\<rparr>) (unescape EncodePath rest)"

definition parse_rest :: "url \<Rightarrow> string \<Rightarrow> url option" where
  "parse_rest u rest =
     (if take 1 rest \<noteq> ''/'' \<and> Scheme u \<noteq> [] then Some (u\<lparr>Opaque := rest\<rparr>)
      else if take 1 rest \<noteq> ''/'' \<and> colon \<in> set (fst (cut slash_char rest)) then None
      else if (Scheme u \<noteq> [] \<or> take 3 rest \<noteq> ''///'') \<and> take 2 rest = ''//'' then
        (let authority = takeWhile (\<lambda>c. c \<noteq> slash_char) (drop 2 rest);
             path = dropWhile (\<lambda>c. c \<noteq> slash_char) (drop 2 rest) in
         case parse_authority authority of
           None \<Rightarrow> None
         | Some (user, host) \<Rightarrow> parse_path (u\<lparr>User := user, Host := host\<rparr>) path)
      else parse_path u rest)"

definition parse_no_fragment :: "string \<Rightarrow> url option" where
  "parse_no_fragment raw =
     (if list_ex is_ctl raw then None
      else if raw = ''*'' then Some (empty_url\<lparr>Path := ''*''\<rparr>)
      else case get_scheme [] raw of
          None \<Rightarrow> None
        | Some (scheme, rest0) \<Rightarrow>
            (let (rest, query) = cut_query rest0 in
             parse_rest (empty_url\<lparr>Scheme := map to_lower scheme, RawQuery := query\<rparr>) rest))"

definition url_parse :: "string \<Rightarrow> url option" where
  "url_parse raw =
     (case parse_no_fragment (fst (cut CHR ''#'' raw)) of
        None \<Rightarrow> None
      | Some u \<Rightarrow>
          if snd (cut CHR ''#'' raw) = [] then Some u
          else map_option (\<lambda>f. u\<lparr>Fragment := f\<rparr>) (unescape EncodeFragment (snd (cut CHR ''#'' raw))))"

text \<open>\<open>Hostname\<close>: without a port, and without the brackets of a literal.\<close>

definition hostname :: "url \<Rightarrow> string" where
  "hostname u =
     (let host = (case cut_last colon (Host u) of
            Some (h, port) \<Rightarrow> if valid_optional_port (colon # port) then h else Host u
          | None \<Rightarrow> Host u) in
      if take 1 host = ''['' \<and> host \<noteq> [] \<and> last host = CHR '']'' then butlast (tl host) else host)"

end
