(* ===== verification/Ui_Shell.thy ===== *)
theory Ui_Shell
  imports Go_Url
begin

section \<open>Package ui: the page shell\<close>

text \<open>
  The data of one rendered page and its validation, \<open>ui/shell.go\<close>. Navigation items nest, so
  their checks are recursive functions over a datatype.
\<close>

subsection \<open>Data\<close>

record shell_labels =
  SkipToContent :: string
  PrimaryNavigation :: string
  SignOutLabel :: string

record status =
  status_label :: string
  status_title :: string
  status_detail :: string
  Online :: bool

datatype nav_item = NavigationItem
  (item_label: string) (item_url: string) (item_description: string) (item_class: string)
  (item_code: string) (item_count: string) (item_count_label: string) (item_active: bool)
  (item_children: "nav_item list")

record nav_group =
  group_label :: string
  group_aria_label :: string
  Collapsible :: bool
  group_count :: string
  Items :: "nav_item list"
  group_url :: string
  Current :: bool

record hidden_field =
  field_name :: string
  field_value :: string

record user =
  DisplayName :: string
  RoleLabel :: string
  Initial :: string
  AvatarURL :: string
  ProfileURL :: string
  LogoutURL :: string
  LogoutFields :: "hidden_field list"
  user_active :: bool

record header =
  header_context :: string
  header_title :: string
  header_status :: string

record footer_link =
  footer_label :: string
  footer_url :: string
  External :: bool

record footer =
  Primary :: string
  Secondary :: string
  Links :: "footer_link list"

record shell =
  Language :: string
  Title :: string
  ProductName :: string
  ProductSubtitle :: string
  BrandURL :: string
  BodyClass :: string
  Stylesheets :: "string list"
  Favicon :: string
  AutoRefreshSeconds :: int
  Status :: "status option"
  Navigation :: "nav_group list"
  shell_user :: "user option"
  Labels :: shell_labels
  Header :: header
  Footer :: footer
  Alpha :: bool
  Layout :: string

definition LayoutSidebar :: string where "LayoutSidebar = []"
definition LayoutTopbar :: string where "LayoutTopbar = ''topbar''"

subsection \<open>The reader's section\<close>

fun has_active :: "nav_item \<Rightarrow> bool" where
  "has_active (NavigationItem l u d cl co n a act children) = (act \<or> list_ex has_active children)"

definition Active :: "nav_group \<Rightarrow> bool" where
  "Active g \<longleftrightarrow> Current g \<or> list_ex has_active (Items g)"

definition Topbar :: "shell \<Rightarrow> bool" where
  "Topbar s \<longleftrightarrow> Layout s = LayoutTopbar"

text \<open>A pointer into the navigation: the group's index.\<close>

fun section_from :: "nat \<Rightarrow> nav_group list \<Rightarrow> nat option" where
  "section_from i [] = None"
| "section_from i (g # gs) = (if Active g then Some i else section_from (Suc i) gs)"

definition Section :: "shell \<Rightarrow> nat option" where
  "Section s = section_from 0 (Navigation s)"

definition with_default_labels :: "shell_labels \<Rightarrow> shell_labels" where
  "with_default_labels l =
     (let l1 = (if SkipToContent l = [] then l\<lparr>SkipToContent := ''Skip to content''\<rparr> else l);
          l2 = (if PrimaryNavigation l1 = [] then l1\<lparr>PrimaryNavigation := ''Primary navigation''\<rparr> else l1) in
      if SignOutLabel l2 = [] then l2\<lparr>SignOutLabel := ''Sign out''\<rparr> else l2)"

subsection \<open>Validation\<close>

definition backslash :: char where
  "backslash = CHR 0x5C"

definition validate_same_origin_path :: "string \<Rightarrow> string \<Rightarrow> bool \<Rightarrow> gerror option" where
  "validate_same_origin_path kind v allow_empty =
     (if allow_empty \<and> v = [] then None
      else case url_parse v of
          None \<Rightarrow> Some (Plain (''UI shell '' @ kind @ '' URL must be a same-origin absolute path''))
        | Some u \<Rightarrow>
            if Scheme u \<noteq> [] \<or> Host u \<noteq> [] \<or> User u \<noteq> None \<or> Opaque u \<noteq> [] \<or>
               take 1 (Path u) \<noteq> ''/'' \<or> take 2 (Path u) = ''//'' \<or> backslash \<in> set (Path u)
            then Some (Plain (''UI shell '' @ kind @ '' URL must be a same-origin absolute path''))
            else None)"

fun validate_navigation_item :: "nav_item \<Rightarrow> gerror option" where
  "validate_navigation_item (NavigationItem l u d cl co n a act children) =
     (if trim_space l = [] then Some (Plain ''UI shell navigation label is required'')
      else if validate_same_origin_path ''navigation'' u False \<noteq> None
        then Some (Plain (''UI shell navigation URL for '' @ l @ '' must be a same-origin absolute path''))
      else first_some (map validate_navigation_item children))"

definition validate_logout_field :: "hidden_field \<Rightarrow> gerror option" where
  "validate_logout_field f =
     (if trim_space (field_name f) = [] then Some (Plain ''UI shell logout field name is required'') else None)"

definition validate_user :: "user \<Rightarrow> gerror option" where
  "validate_user u = first_some (
     [validate_same_origin_path ''avatar'' (AvatarURL u) True,
      validate_same_origin_path ''profile'' (ProfileURL u) False,
      validate_same_origin_path ''logout'' (LogoutURL u) False] @
     map validate_logout_field (LogoutFields u))"

definition validate_group :: "nav_group \<Rightarrow> gerror option" where
  "validate_group g = first_some (validate_same_origin_path ''navigation group'' (group_url g) True #
     map validate_navigation_item (Items g))"

definition validate_shell :: "shell \<Rightarrow> gerror option" where
  "validate_shell s =
     (if trim_space (Title s) = [] then Some (Plain ''UI shell title is required'')
      else if trim_space (ProductName s) = [] then Some (Plain ''UI shell product name is required'')
      else if AutoRefreshSeconds s < 0 then Some (Plain ''UI shell refresh interval must not be negative'')
      else if Layout s \<noteq> LayoutSidebar \<and> Layout s \<noteq> LayoutTopbar
        then Some (Plain (''UI shell layout '' @ Layout s @ '' is unknown''))
      else first_some (
        validate_same_origin_path ''brand'' (BrandURL s) True #
        map (\<lambda>v. validate_same_origin_path ''stylesheet'' v False) (Stylesheets s) @
        [validate_same_origin_path ''favicon'' (Favicon s) True,
         case shell_user s of None \<Rightarrow> None | Some u \<Rightarrow> validate_user u] @
        map validate_group (Navigation s)))"

end
