(* ===== verification/Ui_Shell_Safe.thy ===== *)
theory Ui_Shell_Safe
  imports Ui_Shell
begin

section \<open>What a validated shell can link to\<close>

text \<open>
  Every URL the shell's validation accepts is a reference a browser resolves on the page's own
  origin; the validation of a whole shell, with its nested navigation, is equivalent to a flat
  list of requirements on the URLs and labels it covers. It does not cover the footer, whose
  links may point anywhere.
\<close>

subsection \<open>What parsing an accepted URL tells about the text\<close>

text \<open>The part of a URL before query and fragment.\<close>

definition url_path_text :: "string \<Rightarrow> string" where
  "url_path_text v = takeWhile (\<lambda>c. c \<noteq> CHR ''?'') (takeWhile (\<lambda>c. c \<noteq> CHR ''#'') v)"

lemma unescape_head:
  assumes "unescape EncodePath s = Some p" and "take 1 p = ''/''"
  shows "s \<noteq> [] \<and> (hd s = slash_char \<or> hd s = percent)"
  using assms by (cases s) (auto split: if_splits)

lemma unescape_two:
  assumes "unescape EncodePath s = Some p" and "take 2 s = ''//''"
  shows "take 2 p = ''//''"
proof -
  obtain t where "s = ''//'' @ t" using assms(2) by (metis append_take_drop_id)
  with assms(1) show ?thesis by (auto simp: plain_allowed_def)
qed

lemma unescape_keeps:
  "unescape EncodePath s = Some p \<Longrightarrow> x \<in> set s \<Longrightarrow> x \<noteq> percent \<Longrightarrow> hex_value x = None \<Longrightarrow> x \<in> set p"
proof (induction EncodePath s arbitrary: p rule: unescape.induct)
  case (2 c s)
  show ?case
  proof (cases "c = percent")
    case True
    then obtain a b t v w where s: "s = a # b # t" "hex_value a = Some v" "hex_value b = Some w"
      using "2.prems"(1) by (auto split: list.splits option.splits)
    then obtain q where q: "unescape EncodePath t = Some q" "p = char_of (16 * v + w) # q"
      using "2.prems"(1) True by (auto split: if_splits)
    have "x \<in> set t" using "2.prems" True s by auto
    moreover have "escape_allowed EncodePath (16 * v + w)" by (simp add: escape_allowed_def)
    ultimately show ?thesis using "2.hyps"(1) [OF True s(1) refl _ s(2,3)] q "2.prems"(3,4) by auto
  next
    case False
    then show ?thesis using 2 by (auto simp: plain_allowed_def)
  qed
qed simp

lemma unescape_Nil: "unescape mode s = Some [] \<Longrightarrow> s = []"
  by (cases s) (auto split: if_splits list.splits option.splits)

lemma parse_host_Nil: "parse_host h = Some [] \<Longrightarrow> h = []"
  by (auto simp: parse_host_def dest: unescape_Nil split: if_splits option.splits prod.splits)

text \<open>With an empty authority and a path there are three slashes.\<close>

lemma no_authority:
  assumes "parse_rest u rest = Some w" and "Scheme u = []" and "Host w = []" and "User w = None"
    and "take 1 (Path w) = ''/''"
  shows "parse_path u rest = Some w"
proof (cases "take 3 rest \<noteq> ''///'' \<and> take 2 rest = ''//''")
  case False
  then show ?thesis using assms(1,2) by (auto simp: parse_rest_def split: if_splits)
next
  case True
  then obtain t where t: "rest = ''//'' @ t" by (metis append_take_drop_id)
  let ?a = "takeWhile (\<lambda>c. c \<noteq> slash_char) t" and ?p = "dropWhile (\<lambda>c. c \<noteq> slash_char) t"
  from assms(1,2) True obtain user host where
    au: "parse_authority ?a = Some (user, host)" and pp: "parse_path (u\<lparr>User := user, Host := host\<rparr>) ?p = Some w"
    by (auto simp: parse_rest_def t Let_def split: option.splits)
  have "Host w = host" "User w = user" using pp by (auto simp: parse_path_def)
  then have "parse_host ?a = Some []" using au assms(3,4)
    by (auto simp: parse_authority_def split: option.splits prod.splits)
  then have a: "?a = []" by (rule parse_host_Nil)
  have "t = []"
  proof (cases t)
    case (Cons c s)
    then have "c = slash_char" using a by (auto split: if_splits)
    then show ?thesis using True t Cons by simp
  qed simp
  then have "Path w = []" using pp by (auto simp: parse_path_def)
  then show ?thesis using assms(5) by simp
qed

lemma accepted_path:
  assumes "validate_same_origin_path kind v allow = None" and "v \<noteq> []"
  shows "\<exists>p. unescape EncodePath (url_path_text v) = Some p \<and> take 1 p = ''/'' \<and> take 2 p \<noteq> ''//'' \<and>
    backslash \<notin> set p" and "\<not> list_ex is_ctl (takeWhile (\<lambda>c. c \<noteq> CHR ''#'') v)"
proof -
  let ?raw = "takeWhile (\<lambda>c. c \<noteq> CHR ''#'') v" and ?rest = "url_path_text v"
  obtain u where u0: "url_parse v = Some u"
    using assms by (cases "url_parse v") (auto simp: validate_same_origin_path_def)
  then have "\<not> (Scheme u \<noteq> [] \<or> Host u \<noteq> [] \<or> User u \<noteq> None \<or> Opaque u \<noteq> [] \<or>
      take 1 (Path u) \<noteq> ''/'' \<or> take 2 (Path u) = ''//'' \<or> backslash \<in> set (Path u))"
    using assms by (simp only: validate_same_origin_path_def option.case split: if_splits) simp_all
  with u0 have u: "url_parse v = Some u" "Scheme u = []" "Host u = []" "User u = None" "Opaque u = []"
    "take 1 (Path u) = ''/''" "take 2 (Path u) \<noteq> ''//''" "backslash \<notin> set (Path u)"
    by blast+
  obtain w where w: "parse_no_fragment ?raw = Some w" "Scheme w = []" "Host w = []" "User w = None"
    "Opaque w = []" "Path w = Path u"
    using u by (auto simp: url_parse_def cut_def split: option.splits if_splits)
  show "\<not> list_ex is_ctl ?raw" using w(1) by (auto simp: parse_no_fragment_def)
  have "?raw \<noteq> ''*''"
  proof
    assume "?raw = ''*''"
    then have "Path w = ''*''" using w(1) by (auto simp: parse_no_fragment_def split: if_splits)
    then have "Path u = ''*''" using w(6) by simp
    then show False using u(6) by simp
  qed
  then obtain scheme rest0 where g: "get_scheme [] ?raw = Some (scheme, rest0)"
    and pr: "parse_rest (empty_url\<lparr>Scheme := map to_lower scheme, RawQuery := snd (cut_query rest0)\<rparr>)
      (fst (cut_query rest0)) = Some w"
    using w(1) by (auto simp: parse_no_fragment_def split: if_splits option.splits prod.splits)
  have "Scheme w = map to_lower scheme"
    using pr by (auto simp: parse_rest_def parse_path_def Let_def split: if_splits option.splits)
  then have "scheme = []" using w(2) by simp
  then have r: "rest0 = ?raw" using get_scheme_Some [OF g] by simp
  then have rest: "fst (cut_query rest0) = ?rest" by (simp add: cut_query_path url_path_text_def)
  let ?u = "empty_url\<lparr>Scheme := [], RawQuery := snd (cut_query rest0)\<rparr>"
  have pr: "parse_rest ?u ?rest = Some w" using pr rest \<open>scheme = []\<close> by simp
  have "parse_path ?u ?rest = Some w"
    by (rule no_authority [OF pr]) (use w u(6) in simp_all)
  then show "\<exists>p. unescape EncodePath ?rest = Some p \<and> take 1 p = ''/'' \<and> take 2 p \<noteq> ''//'' \<and> backslash \<notin> set p"
    using u(6-8) w(6) by (auto simp: parse_path_def)
qed

subsection \<open>References that stay on the origin\<close>

text \<open>
  How a browser reads a reference before it resolves it: no scheme and no authority, whatever it
  does with backslashes and control characters. Only an escaped first slash keeps the
  reference from being an absolute path; it is then relative to the page.
\<close>

definition local_reference :: "string \<Rightarrow> bool" where
  "local_reference v \<longleftrightarrow>
     (let p = url_path_text v in
      p \<noteq> [] \<and> (hd p = slash_char \<or> hd p = percent) \<and> take 2 p \<noteq> ''//'' \<and> backslash \<notin> set p \<and>
      \<not> list_ex is_ctl p)"

lemma path_text_prefix: "prefix (url_path_text v) (takeWhile (\<lambda>c. c \<noteq> CHR ''#'') v)"
  by (simp add: url_path_text_def prefix_def) (metis takeWhile_dropWhile_id)

lemma accepted_is_local:
  assumes "validate_same_origin_path kind v allow = None" and "v \<noteq> []"
  shows "local_reference v"
proof -
  obtain p where p: "unescape EncodePath (url_path_text v) = Some p" "take 1 p = ''/''" "take 2 p \<noteq> ''//''"
    "backslash \<notin> set p"
    using accepted_path(1) [OF assms] by blast
  have "hex_value backslash = None" "backslash \<noteq> percent" by (simp_all add: hex_value_def backslash_def)
  then have "backslash \<notin> set (url_path_text v)" using unescape_keeps [OF p(1), of backslash] p(4) by blast
  moreover have "\<not> list_ex is_ctl (url_path_text v)"
    using accepted_path(2) [OF assms] path_text_prefix [of v] by (auto simp: prefix_def list_ex_iff)
  moreover have "take 2 (url_path_text v) \<noteq> ''//''" using unescape_two [OF p(1)] p(3) by blast
  ultimately show ?thesis using unescape_head [OF p(1,2)] by (simp add: local_reference_def Let_def)
qed

text \<open>
  Every non-empty URL that \<open>validateSameOriginPath\<close> accepts stays on the origin of the page: it has
  no scheme, it is not protocol-relative, and neither a backslash nor a control character can
  make a browser read it as such.
\<close>

theorem same_origin_path_is_local:
  assumes "validate_same_origin_path kind v allow = None" and "v \<noteq> []"
  shows "local_reference v"
  using assms by (rule accepted_is_local)

theorem same_origin_path_is_local_witness: "local_reference ''/admin?x=1''"
proof (rule same_origin_path_is_local)
  show "validate_same_origin_path ''navigation'' ''/admin?x=1'' False = None"
    by (simp add: validate_same_origin_path_def url_parse_def parse_no_fragment_def parse_rest_def parse_path_def
        cut_def cut_query_def empty_url_def is_ctl_def is_letter_def is_digit_def plain_allowed_def backslash_def)
qed simp

text \<open>
  An accepted URL need not be an absolute path: an escaped first slash passes, although a
  browser resolves the text relative to the page.
\<close>

theorem escaped_slash_is_accepted:
  "validate_same_origin_path kind ''%2Fadmin'' False = None \<and> hd ''%2Fadmin'' \<noteq> slash_char"
proof -
  have "char_of (47 :: nat) = slash_char" by code_simp
  then show ?thesis
    by (simp add: validate_same_origin_path_def url_parse_def parse_no_fragment_def parse_rest_def parse_path_def
        cut_def cut_query_def empty_url_def is_ctl_def is_letter_def is_digit_def plain_allowed_def backslash_def
        hex_value_def escape_allowed_def)
qed

text \<open>Plain absolute paths are accepted: letters, digits, hyphens, dots, underscores and slashes.\<close>

definition path_char :: "char \<Rightarrow> bool" where
  "path_char c \<longleftrightarrow> is_letter c \<or> is_digit c \<or> ord c \<in> {45, 46, 47, 95, 126}"

lemma path_char_ord: "path_char c \<Longrightarrow> 45 \<le> ord c \<and> ord c \<noteq> 63 \<and> ord c \<noteq> 92 \<and> ord c \<noteq> 58 \<and> ord c < 127"
  by (auto simp: path_char_def is_letter_def is_digit_def)

lemma path_chars_free:
  assumes "list_all path_char s"
  shows "CHR ''#'' \<notin> set s" "CHR ''?'' \<notin> set s" "percent \<notin> set s" "backslash \<notin> set s" "\<not> list_ex is_ctl s"
proof -
  have "x \<in> set s \<Longrightarrow> 45 \<le> ord x \<and> ord x \<noteq> 63 \<and> ord x \<noteq> 92 \<and> ord x \<noteq> 58 \<and> ord x < 127" for x
    using assms path_char_ord by (auto simp: list_all_iff)
  then show "CHR ''#'' \<notin> set s" "CHR ''?'' \<notin> set s" "percent \<notin> set s" "backslash \<notin> set s" "\<not> list_ex is_ctl s"
    by (force simp: backslash_def is_ctl_def list_ex_iff)+
qed

lemma plain_path_accepted:
  assumes "list_all path_char s" and "take 1 s \<noteq> ''/''"
  shows "validate_same_origin_path kind (slash_char # s) allow = None"
proof -
  let ?v = "slash_char # s"
  have "path_char slash_char" by (simp add: path_char_def)
  then have all: "list_all path_char ?v" using assms(1) by simp
  note free = path_chars_free [OF all]
  have c1: "cut CHR ''#'' ?v = (?v, [])" by (rule cut_free [OF free(1)])
  have "fst (cut_query ?v) = ?v" 
    unfolding cut_query_path using cut_free [OF free(2)] by (simp only: cut_def prod.inject)
  moreover have "get_scheme [] ?v = Some ([], ?v)" by (simp add: is_letter_def is_digit_def)
  moreover have "take 2 ?v \<noteq> ''//''" using assms(2) by (cases s) auto
  ultimately have "parse_no_fragment ?v = Some (empty_url\<lparr>RawQuery := snd (cut_query ?v), Path := ?v\<rparr>)"
    using free(5) unescape_plain [OF free(3)]
    by (auto simp: parse_no_fragment_def parse_rest_def parse_path_def empty_url_def split: prod.splits)
  then have "url_parse ?v = Some (empty_url\<lparr>RawQuery := snd (cut_query ?v), Path := ?v\<rparr>)"
    using c1 by (simp add: url_parse_def)
  then show ?thesis using free(4) assms(2)
    by (cases s) (auto simp: validate_same_origin_path_def empty_url_def)
qed

text \<open>
  Nothing ordinary is refused: an absolute path of letters, digits, hyphens, dots, underscores,
  tildes and slashes is accepted unless it starts with two slashes.
\<close>

lemma plain_path_is_accepted:
  assumes "list_all path_char s" and "take 1 s \<noteq> ''/''"
  shows "validate_same_origin_path kind (slash_char # s) allow = None"
  using assms by (rule plain_path_accepted)

lemma plain_path_is_accepted_witness: "validate_same_origin_path ''logout'' ''/auth/log-out'' False = None"
  using plain_path_is_accepted [of "''auth/log-out''" "''logout''" False]
  by (simp add: path_char_def is_letter_def is_digit_def)

subsection \<open>The whole shell\<close>

lemma first_some_None [simp]: "first_some xs = None \<longleftrightarrow> list_all (\<lambda>x. x = None) xs"
  by (induction xs rule: first_some.induct) auto

text \<open>An item and everything below it, in the order of the page.\<close>

fun item_tree :: "nav_item \<Rightarrow> nav_item list" where
  "item_tree (NavigationItem l u d cl co n a act children) =
     NavigationItem l u d cl co n a act children # concat (map item_tree children)"

definition accepts :: "bool \<Rightarrow> string \<Rightarrow> bool" where
  "accepts allow v \<longleftrightarrow> validate_same_origin_path [] v allow = None"

lemma accepts_kind: "validate_same_origin_path kind v allow = None \<longleftrightarrow> accepts allow v"
  by (auto simp: accepts_def validate_same_origin_path_def split: option.splits)

definition item_fine :: "nav_item \<Rightarrow> bool" where
  "item_fine i \<longleftrightarrow> trim_space (item_label i) \<noteq> [] \<and> accepts False (item_url i)"

lemma validate_navigation_item_iff:
  "validate_navigation_item i = None \<longleftrightarrow> list_all item_fine (item_tree i)"
proof (induction i rule: item_tree.induct)
  case (1 l u d cl co n a act children)
  have "list_all (\<lambda>x. x = None) (map validate_navigation_item children) \<longleftrightarrow>
      list_all item_fine (concat (map item_tree children))"
    using 1 by (auto simp: list_all_iff)
  then show ?case by (simp add: item_fine_def [of "NavigationItem l u d cl co n a act children"] accepts_kind)
qed

definition all_items :: "shell \<Rightarrow> nav_item list" where
  "all_items s = concat (map (\<lambda>g. concat (map item_tree (Items g))) (Navigation s))"

definition required_urls :: "shell \<Rightarrow> string list" where
  "required_urls s = Stylesheets s @ (case shell_user s of None \<Rightarrow> [] | Some u \<Rightarrow> [ProfileURL u, LogoutURL u]) @
     map item_url (all_items s)"

definition optional_urls :: "shell \<Rightarrow> string list" where
  "optional_urls s = [BrandURL s, Favicon s] @ (case shell_user s of None \<Rightarrow> [] | Some u \<Rightarrow> [AvatarURL u]) @
     map group_url (Navigation s)"

definition required_texts :: "shell \<Rightarrow> string list" where
  "required_texts s = [Title s, ProductName s] @ map item_label (all_items s) @
     (case shell_user s of None \<Rightarrow> [] | Some u \<Rightarrow> map field_name (LogoutFields u))"

lemma validate_group_iff:
  "validate_group g = None \<longleftrightarrow> accepts True (group_url g) \<and> list_all item_fine (concat (map item_tree (Items g)))"
  by (auto simp: validate_group_def accepts_kind validate_navigation_item_iff list_all_iff)

lemma validate_user_iff:
  "validate_user u = None \<longleftrightarrow> accepts True (AvatarURL u) \<and> accepts False (ProfileURL u) \<and>
     accepts False (LogoutURL u) \<and> list_all (\<lambda>f. trim_space (field_name f) \<noteq> []) (LogoutFields u)"
  by (auto simp: validate_user_def accepts_kind validate_logout_field_def list_all_iff)

lemma validate_flat:
  "validate_shell s = None \<longleftrightarrow>
     list_all (\<lambda>t. trim_space t \<noteq> []) (required_texts s) \<and> 0 \<le> AutoRefreshSeconds s \<and>
     Layout s \<in> {[], ''topbar''} \<and>
     list_all (accepts False) (required_urls s) \<and> list_all (accepts True) (optional_urls s)"
proof -
  have items: "list_all (\<lambda>g. validate_group g = None) (Navigation s) \<longleftrightarrow>
      list_all (\<lambda>g. accepts True (group_url g)) (Navigation s) \<and> list_all item_fine (all_items s)"
    by (auto simp: validate_group_iff all_items_def list_all_iff)
  have fine: "list_all item_fine xs \<longleftrightarrow>
      list_all (\<lambda>i. trim_space (item_label i) \<noteq> []) xs \<and> list_all (\<lambda>i. accepts False (item_url i)) xs" for xs
    by (auto simp: item_fine_def list_all_iff)
  show ?thesis
    by (cases "shell_user s")
      (auto simp: validate_shell_def items fine accepts_kind validate_user_iff required_texts_def required_urls_def
        optional_urls_def LayoutSidebar_def LayoutTopbar_def list.pred_map comp_def not_less)
qed

text \<open>
  The validation of a shell, which stops at its first complaint and descends into nested
  navigation, is equivalent to a flat list of requirements: titles, labels and field names are not
  blank, the refresh interval is not negative, the layout is one of two, and the URLs
  of stylesheets, icons, brand, user and navigation pass, the optional ones also when they are empty.
\<close>

theorem validate_shell_flat:
  "validate_shell s = None \<longleftrightarrow>
     list_all (\<lambda>t. trim_space t \<noteq> []) (required_texts s) \<and> 0 \<le> AutoRefreshSeconds s \<and>
     Layout s \<in> {[], ''topbar''} \<and>
     list_all (accepts False) (required_urls s) \<and> list_all (accepts True) (optional_urls s)"
  by (rule validate_flat)

lemma validate_ignores_footer: "validate_shell (s\<lparr>Footer := f\<rparr>) = validate_shell s"
  by (simp add: validate_shell_def)

text \<open>
  C18. What validation covers stays on the origin, and it covers everything but the footer: in a shell
  that passes, every stylesheet, icon, avatar, profile, logout, brand and navigation URL, at every depth,
  is empty where that is allowed or a reference on the page's origin. The links of the footer are
  not checked: whatever footer the shell gets, it passes as before.
\<close>

theorem validated_shell_is_local:
  assumes "validate_shell s = None"
  shows "list_all local_reference (required_urls s) \<and>
    list_all (\<lambda>v. v = [] \<or> local_reference v) (optional_urls s) \<and>
    validate_shell (s\<lparr>Footer := f\<rparr>) = None"
proof -
  have loc: "accepts allow v \<Longrightarrow> v \<noteq> [] \<Longrightarrow> local_reference v" for allow v
    using accepted_is_local by (simp add: accepts_def)
  have "\<not> accepts False []"
    by (simp add: accepts_def validate_same_origin_path_def url_parse_def parse_no_fragment_def parse_rest_def
        parse_path_def cut_def cut_query_def empty_url_def)
  then have strict: "accepts False v \<Longrightarrow> local_reference v" for v using loc by (cases "v = []") auto
  have "list_all (accepts False) (required_urls s)" "list_all (accepts True) (optional_urls s)"
    using validate_flat [of s] assms by simp_all
  then show ?thesis using assms
    by (auto simp: list_all_iff validate_ignores_footer intro: strict loc)
qed

definition demo_shell :: shell where
  "demo_shell = \<lparr>Language = ''en'', Title = ''Home'', ProductName = ''Product'', ProductSubtitle = [],
     BrandURL = ''/'', BodyClass = [], Stylesheets = [''/static/site.css''], Favicon = [], AutoRefreshSeconds = 0,
     Status = None, Navigation = [\<lparr>group_label = ''Main'', group_aria_label = [], Collapsible = False, group_count = [],
       Items = [NavigationItem ''Reports'' ''/reports'' [] [] [] [] [] False
         [NavigationItem ''Daily'' ''/reports/daily'' [] [] [] [] [] True []]],
       group_url = [], Current = False\<rparr>],
     shell_user = None, Labels = \<lparr>SkipToContent = [], PrimaryNavigation = [], SignOutLabel = []\<rparr>,
     Header = \<lparr>header_context = [], header_title = [], header_status = []\<rparr>,
     Footer = \<lparr>Primary = [], Secondary = [], Links = []\<rparr>, Alpha = False, Layout = []\<rparr>"

lemma accepts_plain: "list_all path_char s \<Longrightarrow> take 1 s \<noteq> ''/'' \<Longrightarrow> accepts allow (slash_char # s)"
  unfolding accepts_def by (rule plain_path_accepted)

lemma demo_shell_valid: "validate_shell demo_shell = None"
proof -
  have t: "trim_space ''Home'' = ''Home''" "trim_space ''Product'' = ''Product''"
    "trim_space ''Reports'' = ''Reports''" "trim_space ''Daily'' = ''Daily''"
    by (simp_all add: go_text)
  have u: "accepts False ''/static/site.css''" "accepts False ''/reports''" "accepts False ''/reports/daily''"
    "accepts True ''/''"
    by (rule accepts_plain; simp add: path_char_def is_letter_def is_digit_def)+
  have "accepts True []" by (simp add: accepts_def validate_same_origin_path_def)
  with t u show ?thesis
    by (simp add: validate_flat demo_shell_def required_texts_def required_urls_def optional_urls_def all_items_def)
qed

definition far_footer :: footer where
  "far_footer = \<lparr>Primary = [], Secondary = [], Links = [\<lparr>footer_label = ''Away'', footer_url = ''https://example.org'', External = False\<rparr>]\<rparr>"

theorem validated_shell_is_local_witness:
  "list_all local_reference [''/static/site.css'', ''/reports'', ''/reports/daily''] \<and>
   validate_shell (demo_shell\<lparr>Footer := far_footer\<rparr>) = None"
  using validated_shell_is_local [OF demo_shell_valid, of far_footer]
  by (simp add: demo_shell_def required_urls_def all_items_def)

lemma has_active_tree: "has_active i = list_ex item_active (item_tree i)"
proof (induction i rule: item_tree.induct)
  case (1 l u d cl co n a act children)
  then show ?case by (auto simp: list_ex_iff)
qed

lemma Active_tree: "Active g = (Current g \<or> list_ex item_active (concat (map item_tree (Items g))))"
  by (auto simp: Active_def has_active_tree list_ex_iff)

lemma section_from_cases:
  "case section_from n gs of
     None \<Rightarrow> list_all (\<lambda>g. \<not> Active g) gs
   | Some j \<Rightarrow> \<exists>i. j = n + i \<and> i < length gs \<and> Active (gs ! i) \<and> list_all (\<lambda>g. \<not> Active g) (take i gs)"
proof (induction n gs rule: section_from.induct)
  case (2 n g gs)
  show ?case
  proof (cases "Active g")
    case False
    show ?thesis
    proof (cases "section_from (Suc n) gs")
      case None
      with 2 False show ?thesis by simp
    next
      case (Some j)
      with 2 False obtain i where "j = Suc n + i" "i < length gs" "Active (gs ! i)" "list_all (\<lambda>g. \<not> Active g) (take i gs)"
        by auto
      with Some False show ?thesis by (auto intro!: exI [where x = "Suc i"])
    qed
  qed (auto intro: exI [of _ 0])
qed simp

text \<open>
  The reader's section is the first group that is marked current or holds, at any depth, the
  current page; there is none exactly when no group is and does.
\<close>

theorem section_first_active:
  "case Section s of
     None \<Rightarrow> list_all (\<lambda>g. \<not> (Current g \<or> list_ex item_active (concat (map item_tree (Items g))))) (Navigation s)
   | Some i \<Rightarrow> i < length (Navigation s) \<and>
       (Current (Navigation s ! i) \<or> list_ex item_active (concat (map item_tree (Items (Navigation s ! i))))) \<and>
       list_all (\<lambda>g. \<not> (Current g \<or> list_ex item_active (concat (map item_tree (Items g))))) (take i (Navigation s))"
  using section_from_cases [where n = 0 and gs = "Navigation s"] unfolding Section_def Active_tree
  by (auto split: option.splits)

end
