(* ===== verification/Ui_Renderer.thy ===== *)
theory Ui_Renderer
  imports Ui_Shell_Safe
begin

section \<open>Package ui: the renderer\<close>

text \<open>
  \<open>ui/renderer.go\<close>. The template engine is a parameter: parsing the application's templates,
  listing them, adding the embedded shell, executing one by its name on a writer (the state
  \<open>'w\<close>). What the renderer adds is which names belong to whom and what is rendered at all.
\<close>

datatype 'd page_data = Page shell 'd | ApplicationData 'd

record ('fs, 'fn, 't, 'd, 'w) template_engine =
  parse_application :: "'fn \<Rightarrow> 'fs \<Rightarrow> string list \<Rightarrow> 't result"
  lookup_template :: "'t \<Rightarrow> string \<Rightarrow> bool"
  all_templates :: "'t \<Rightarrow> (string \<times> bool) list"
  parse_shell :: "'t \<Rightarrow> 't result"
  execute_template :: "'t \<Rightarrow> string \<Rightarrow> 'd page_data \<Rightarrow> 'w \<Rightarrow> gerror option \<times> 'w"

record ('fs, 'fn) ui_options =
  Templates :: "'fs option"
  Patterns :: "string list"
  Functions :: 'fn

text \<open>A nil renderer is no renderer; the zero value has no templates.\<close>

record 't renderer =
  rnd_templates :: "'t option"
  application_templates :: "string set"

definition shared_prefix :: string where
  "shared_prefix = ''shared-''"

fun application_names :: "string set \<Rightarrow> (string \<times> bool) list \<Rightarrow> string set result" where
  "application_names names [] = Inr names"
| "application_names names ((name, has_tree) # ts) =
     (if \<not> has_tree then application_names names ts
      else if prefix shared_prefix name
        then Inl (Plain (''application template name '' @ name @ '' is reserved by the shared UI''))
      else application_names (insert name names) ts)"

definition NewRenderer ::
  "('fs, 'fn, 't, 'd, 'w) template_engine \<Rightarrow> ('fs, 'fn) ui_options \<Rightarrow> 't renderer result" where
  "NewRenderer lib opts =
     (case Templates opts of None \<Rightarrow> Inl (Plain ''application template filesystem is required'') | Some fs \<Rightarrow>
      if length (Patterns opts) = 0 then Inl (Plain ''at least one application template pattern is required'')
      else case parse_application lib (Functions opts) fs (Patterns opts) of
          Inl e \<Rightarrow> Inl (Wrapf ''parse application templates'' e)
        | Inr parsed \<Rightarrow>
            if \<not> lookup_template lib parsed ''application-content''
            then Inl (Plain ''application templates must define application-content'')
            else case application_names {} (all_templates lib parsed) of
                Inl e \<Rightarrow> Inl e
              | Inr names \<Rightarrow> (case parse_shell lib parsed of
                  Inl e \<Rightarrow> Inl (Wrapf ''parse shared UI shell'' e)
                | Inr full \<Rightarrow> Inr \<lparr>rnd_templates = Some full, application_templates = names\<rparr>))"

definition Render ::
  "('fs, 'fn, 't, 'd, 'w) template_engine \<Rightarrow> 't renderer option \<Rightarrow> shell \<Rightarrow> 'd \<Rightarrow> 'w \<Rightarrow> gerror option \<times> 'w" where
  "Render lib r s d w =
     (case r of None \<Rightarrow> (Some (Plain ''UI renderer is not initialized''), w) | Some rr \<Rightarrow>
     (case rnd_templates rr of None \<Rightarrow> (Some (Plain ''UI renderer is not initialized''), w) | Some t \<Rightarrow>
     (case validate_shell s of Some e \<Rightarrow> (Some e, w) | None \<Rightarrow>
     (case execute_template lib t ''shared-shell'' (Page (s\<lparr>Labels := with_default_labels (Labels s)\<rparr>) d) w of
        (Some e, w') \<Rightarrow> (Some (Wrapf ''render shared UI shell'' e), w')
      | (None, w') \<Rightarrow> (None, w')))))"

definition ExecuteTemplate ::
  "('fs, 'fn, 't, 'd, 'w) template_engine \<Rightarrow> 't renderer option \<Rightarrow> string \<Rightarrow> 'd \<Rightarrow> 'w \<Rightarrow> gerror option \<times> 'w" where
  "ExecuteTemplate lib r name d w =
     (case r of None \<Rightarrow> (Some (Plain ''UI renderer is not initialized''), w) | Some rr \<Rightarrow>
     (case rnd_templates rr of None \<Rightarrow> (Some (Plain ''UI renderer is not initialized''), w) | Some t \<Rightarrow>
      if trim_space name = [] then (Some (Plain ''template name is required''), w)
      else if name \<notin> application_templates rr then (Some (Plain (''unknown application template '' @ name)), w)
      else execute_template lib t name (ApplicationData d) w))"

subsection \<open>Facts\<close>

lemma application_names_Inr:
  "application_names names ts = Inr ns \<Longrightarrow>
     ns = names \<union> {n. (n, True) \<in> set ts} \<and> (\<forall>n. (n, True) \<in> set ts \<longrightarrow> \<not> prefix shared_prefix n)"
  by (induction names ts rule: application_names.induct) (auto split: if_splits)

lemma new_renderer_Inr:
  assumes "NewRenderer lib opts = Inr r"
  shows "\<exists>fs parsed full. Templates opts = Some fs \<and> Patterns opts \<noteq> [] \<and>
    parse_application lib (Functions opts) fs (Patterns opts) = Inr parsed \<and>
    lookup_template lib parsed ''application-content'' \<and> parse_shell lib parsed = Inr full \<and>
    r = \<lparr>rnd_templates = Some full, application_templates = {n. (n, True) \<in> set (all_templates lib parsed)}\<rparr> \<and>
    (\<forall>n. (n, True) \<in> set (all_templates lib parsed) \<longrightarrow> \<not> prefix shared_prefix n)"
  using assms
  by (auto simp: NewRenderer_def split: option.splits if_splits sum.splits dest!: application_names_Inr)

lemma validate_shell_labels [simp]: "validate_shell (s\<lparr>Labels := l\<rparr>) = validate_shell s"
  by (simp add: validate_shell_def)

lemma default_labels_present:
  "SkipToContent (with_default_labels l) \<noteq> [] \<and> PrimaryNavigation (with_default_labels l) \<noteq> [] \<and>
     SignOutLabel (with_default_labels l) \<noteq> []"
  by (simp add: with_default_labels_def Let_def)

subsection \<open>Properties\<close>

text \<open>
  The executions a renderer may start: the shell on a page that validates and has all its labels,
  and templates the application defined, under names that are not the shell's.
\<close>

definition rightful :: "(string \<times> bool) list \<Rightarrow> string \<Rightarrow> 'd page_data \<Rightarrow> bool" where
  "rightful own name d = (case d of
       Page s x \<Rightarrow> name = ''shared-shell'' \<and> validate_shell s = None \<and>
         SkipToContent (Labels s) \<noteq> [] \<and> PrimaryNavigation (Labels s) \<noteq> [] \<and> SignOutLabel (Labels s) \<noteq> []
     | ApplicationData x \<Rightarrow> (name, True) \<in> set own \<and> \<not> prefix shared_prefix name \<and> trim_space name \<noteq> [])"

text \<open>
  C29. A renderer only ever executes the shared shell on a valid, fully labelled page, and templates
  the application itself defined under names outside the reserved ones: with an engine that
  behaves differently on anything else, nothing changes. An invalid page is refused with the
  complaint of its validation before anything is written.
\<close>

theorem renderer_confined:
  assumes "NewRenderer lib opts = Inr r" and "Templates opts = Some fs"
    and "parse_application lib (Functions opts) fs (Patterns opts) = Inr parsed"
    and "\<And>t name d w. rightful (all_templates lib parsed) name d \<Longrightarrow> execute_template lib t name d w = other t name d w"
  shows "Render lib (Some r) s d w = Render (lib\<lparr>execute_template := other\<rparr>) (Some r) s d w \<and>
    ExecuteTemplate lib (Some r) name d w = ExecuteTemplate (lib\<lparr>execute_template := other\<rparr>) (Some r) name d w \<and>
    (case validate_shell s of None \<Rightarrow> True | Some e \<Rightarrow> Render lib (Some r) s d w = (Some e, w))"
proof -
  obtain full where r: "r = \<lparr>rnd_templates = Some full, application_templates = {n. (n, True) \<in> set (all_templates lib parsed)}\<rparr>"
    and own: "\<forall>n. (n, True) \<in> set (all_templates lib parsed) \<longrightarrow> \<not> prefix shared_prefix n"
    using new_renderer_Inr [OF assms(1)] assms(2,3) by auto
  have "Render lib (Some r) s d w = Render (lib\<lparr>execute_template := other\<rparr>) (Some r) s d w"
  proof (cases "validate_shell s")
    case None
    then have "rightful (all_templates lib parsed) ''shared-shell'' (Page (s\<lparr>Labels := with_default_labels (Labels s)\<rparr>) d)"
      using default_labels_present [of "Labels s"] by (simp add: rightful_def)
    from assms(4) [OF this] None show ?thesis by (simp add: Render_def r)
  qed (simp add: Render_def r)
  moreover have "ExecuteTemplate lib (Some r) name d w = ExecuteTemplate (lib\<lparr>execute_template := other\<rparr>) (Some r) name d w"
  proof (cases "(name, True) \<in> set (all_templates lib parsed) \<and> trim_space name \<noteq> []")
    case True
    then have "rightful (all_templates lib parsed) name (ApplicationData d)" using own by (simp add: rightful_def)
    from assms(4) [OF this] True show ?thesis by (simp add: ExecuteTemplate_def r)
  qed (auto simp: ExecuteTemplate_def r)
  ultimately show ?thesis by (simp add: Render_def r split: option.splits)
qed

text \<open>An engine whose templates are a list of names and whose writer collects what is executed.\<close>

definition demo_engine :: "((string \<times> bool) list, unit, (string \<times> bool) list, unit, string list) template_engine" where
  "demo_engine = \<lparr>parse_application = (\<lambda>f fs ps. Inr fs), lookup_template = (\<lambda>t n. (n, True) \<in> set t),
     all_templates = (\<lambda>t. t), parse_shell = (\<lambda>t. Inr ((''shared-shell'', True) # t)),
     execute_template = (\<lambda>t n d w. (None, n # w))\<rparr>"

definition demo_templates :: "(string \<times> bool) list" where
  "demo_templates = [(''application-templates'', False), (''application-content'', True)]"

definition demo_ui_options :: "((string \<times> bool) list, unit) ui_options" where
  "demo_ui_options = \<lparr>Templates = Some demo_templates, Patterns = [''*.html''], Functions = ()\<rparr>"

theorem renderer_confined_witness:
  "\<exists>r. NewRenderer demo_engine demo_ui_options = Inr r \<and>
     ExecuteTemplate demo_engine (Some r) ''shared-shell'' () [] =
     ExecuteTemplate (demo_engine\<lparr>execute_template := (\<lambda>t n d w. if n = ''shared-shell'' \<and> d = ApplicationData () then (None, [''shell'']) else (None, n # w))\<rparr>)
       (Some r) ''shared-shell'' () []"
proof -
  obtain r where r: "NewRenderer demo_engine demo_ui_options = Inr r"
    by (auto simp: NewRenderer_def demo_engine_def demo_ui_options_def demo_templates_def shared_prefix_def)
  have p: "Templates demo_ui_options = Some demo_templates"
    "parse_application demo_engine (Functions demo_ui_options) demo_templates (Patterns demo_ui_options) = Inr demo_templates"
    by (simp_all add: demo_ui_options_def demo_engine_def)
  show ?thesis
    by (rule exI [of _ r], rule conjI [OF r])
      (rule renderer_confined [OF r p, THEN conjunct2, THEN conjunct1],
        auto simp: rightful_def demo_engine_def shared_prefix_def split: page_data.splits)
qed

end
