(* ===== verification/Go_Format.thy ===== *)
theory Go_Format
  imports Go_Base
begin

section \<open>The standard library on text with parameters\<close>

text \<open>
  \<open>strconv.Atoi\<close> on digits, the matches of the regular expression \<open>\{(\d+)\}\<close>, and
  \<open>fmt.Sprintf\<close> for the verbs that translated messages may use. What package \<open>fmt\<close> prints
  for a value depends on its dynamic type, so the printing of single values is a record; the
  record \<open>go_printer\<close> is its instance for strings, integers, booleans and \<open>nil\<close>.
\<close>

subsection \<open>Results of lists\<close>

fun map_result :: "('a \<Rightarrow> 'b result) \<Rightarrow> 'a list \<Rightarrow> 'b list result" where
  "map_result f [] = Inr []"
| "map_result f (x # xs) =
     (case f x of Inl e \<Rightarrow> Inl e
      | Inr y \<Rightarrow> (case map_result f xs of Inl e \<Rightarrow> Inl e | Inr ys \<Rightarrow> Inr (y # ys)))"

lemma map_result_Inr: "map_result f xs = Inr ys \<longleftrightarrow> list_all2 (\<lambda>x y. f x = Inr y) xs ys"
proof (induction xs arbitrary: ys)
  case (Cons x xs)
  show ?case by (cases ys) (auto simp: Cons.IH [symmetric] split: sum.splits)
qed auto

subsection \<open>Numbers in messages\<close>

text \<open>An \<open>int\<close> has 64 bits; a number above the largest is a range error.\<close>

definition max_int :: nat where
  "max_int = 9223372036854775807"

definition atoi :: "string \<Rightarrow> nat result" where
  "atoi ds = (if digits_value ds \<le> max_int then Inr (digits_value ds)
     else Inl (Wrapf (''strconv.Atoi: parsing '' @ ds) (Sentinel ''value out of range'')))"

subsection \<open>Placeholders\<close>

definition placeholder_digits :: "string \<Rightarrow> string option" where
  "placeholder_digits s =
     (if s \<noteq> [] \<and> hd s = CHR ''{'' \<and> takeWhile is_digit (tl s) \<noteq> [] \<and>
         take 1 (dropWhile is_digit (tl s)) = ''}''
      then Some (takeWhile is_digit (tl s)) else None)"

text \<open>
  \<open>FindAllStringSubmatchIndex\<close>: the leftmost matches that do not overlap, each with its start,
  its end and its digits. A match starts with a brace, so looking at every byte is
  looking at every rune.
\<close>

function placeholder_matches :: "nat \<Rightarrow> string \<Rightarrow> (nat \<times> nat \<times> string) list" where
  "placeholder_matches i [] = []"
| "placeholder_matches i (c # s) =
     (case placeholder_digits (c # s) of
        Some ds \<Rightarrow> (i, i + length ds + 2, ds) # placeholder_matches (i + length ds + 2) (drop (length ds + 1) s)
      | None \<Rightarrow> placeholder_matches (Suc i) s)"
  by pat_completeness auto
termination by (relation "measure (length \<circ> snd)") auto

text \<open>\<open>ReplaceAllStringFunc\<close>, the replacement as a function of the digits.\<close>

function replace_placeholders :: "(string \<Rightarrow> string) \<Rightarrow> string \<Rightarrow> string" where
  "replace_placeholders f [] = []"
| "replace_placeholders f (c # s) =
     (case placeholder_digits (c # s) of
        Some ds \<Rightarrow> f ds @ replace_placeholders f (drop (length ds + 1) s)
      | None \<Rightarrow> c # replace_placeholders f s)"
  by pat_completeness auto
termination by (relation "measure (length \<circ> snd)") auto

subsection \<open>Formatted printing\<close>

record 'v printer =
  print_plain :: "'v \<Rightarrow> string"
  print_s :: "'v \<Rightarrow> string"
  print_d :: "'v \<Rightarrow> string"
  print_extra :: "'v \<Rightarrow> string"

definition print_verb :: "'v printer \<Rightarrow> char \<Rightarrow> 'v \<Rightarrow> string" where
  "print_verb pr c v = (if c = CHR ''s'' then print_s pr v else print_d pr v)"

definition percent_sign :: char where
  "percent_sign = CHR ''%''"

definition is_verb :: "char \<Rightarrow> bool" where
  "is_verb c \<longleftrightarrow> c = CHR ''s'' \<or> c = CHR ''d''"

definition extra_args :: "'v printer \<Rightarrow> 'v list \<Rightarrow> string" where
  "extra_args pr vs = (if vs = [] then []
     else ''%!(EXTRA '' @ concat (separate '', '' (map (print_extra pr) vs)) @ '')'')"

text \<open>
  \<open>Sprintf\<close> with the verbs \<open>%s\<close> and \<open>%d\<close>, \<open>%%\<close>, missing and extra operands and an
  unfinished verb. From any other verb on, the argument \<open>rest\<close> stands for package \<open>fmt\<close>: it is
  given the rest of the format, all operands and those not used yet.
\<close>

fun sprintf_from ::
  "'v printer \<Rightarrow> (string \<Rightarrow> 'v list \<Rightarrow> 'v list \<Rightarrow> string) \<Rightarrow> 'v list \<Rightarrow> string \<Rightarrow> 'v list \<Rightarrow> string" where
  "sprintf_from pr rest all [] vs = extra_args pr vs"
| "sprintf_from pr rest all [c] vs = (if c = percent_sign then ''%!(NOVERB)'' @ extra_args pr vs else c # extra_args pr vs)"
| "sprintf_from pr rest all (c # d # f) vs =
     (if c \<noteq> percent_sign then c # sprintf_from pr rest all (d # f) vs
      else if d = percent_sign then percent_sign # sprintf_from pr rest all f vs
      else if is_verb d then
        (case vs of
           [] \<Rightarrow> ''%!'' @ d # ''(MISSING)'' @ sprintf_from pr rest all f []
         | v # ws \<Rightarrow> print_verb pr d v @ sprintf_from pr rest all f ws)
      else rest (c # d # f) all vs)"

definition sprintf :: "'v printer \<Rightarrow> (string \<Rightarrow> 'v list \<Rightarrow> 'v list \<Rightarrow> string) \<Rightarrow> string \<Rightarrow> 'v list \<Rightarrow> string" where
  "sprintf pr rest f vs = sprintf_from pr rest vs f vs"

text \<open>Values of the common types.\<close>

datatype go_value = GString string | GInt int | GBool bool | GNil

fun show_value :: "go_value \<Rightarrow> string" where
  "show_value (GString s) = s"
| "show_value (GInt i) = (if i < 0 then CHR ''-'' # itoa (nat (- i)) else itoa (nat i))"
| "show_value (GBool b) = (if b then ''true'' else ''false'')"
| "show_value GNil = ''<nil>''"

fun show_typed :: "go_value \<Rightarrow> string" where
  "show_typed (GString s) = ''string='' @ s"
| "show_typed (GInt i) = ''int='' @ show_value (GInt i)"
| "show_typed (GBool b) = ''bool='' @ show_value (GBool b)"
| "show_typed GNil = ''<nil>''"

definition bad_verb :: "char \<Rightarrow> go_value \<Rightarrow> string" where
  "bad_verb c v = ''%!'' @ c # ''('' @ show_typed v @ '')''"

definition go_printer :: "go_value printer" where
  "go_printer = \<lparr>print_plain = show_value,
     print_s = (\<lambda>v. case v of GString s \<Rightarrow> s | _ \<Rightarrow> bad_verb CHR ''s'' v),
     print_d = (\<lambda>v. case v of GInt i \<Rightarrow> show_value (GInt i) | _ \<Rightarrow> bad_verb CHR ''d'' v),
     print_extra = show_typed\<rparr>"

text \<open>
  An instance of the argument \<open>rest\<close> for the examples, which use no other verb: the format is
  left as it stands.
\<close>

definition other_verbs :: "string \<Rightarrow> 'v list \<Rightarrow> 'v list \<Rightarrow> string" where
  "other_verbs f all vs = f"

subsection \<open>Facts\<close>

lemma placeholder_digits_Some:
  assumes "placeholder_digits (c # s) = Some ds"
  shows "c = CHR ''{''" and "ds \<noteq> []" and "list_all is_digit ds" and "\<exists>r. s = ds @ CHR ''}'' # r"
proof -
  have d: "c = CHR ''{''" "takeWhile is_digit s \<noteq> []" "take 1 (dropWhile is_digit s) = ''}''"
    "ds = takeWhile is_digit s"
    using assms by (auto simp: placeholder_digits_def split: if_splits)
  then show "c = CHR ''{''" "ds \<noteq> []" by simp_all
  show "list_all is_digit ds" unfolding d(4) list_all_iff by (auto dest: set_takeWhileD)
  obtain r where "dropWhile is_digit s = CHR ''}'' # r"
    using d(3) by (cases "dropWhile is_digit s") auto
  then have "s = ds @ CHR ''}'' # r" using d(4) takeWhile_dropWhile_id by metis
  then show "\<exists>r. s = ds @ CHR ''}'' # r" ..
qed

text \<open>The text of a match.\<close>

lemma placeholder_text:
  assumes "placeholder_digits (c # s) = Some ds"
  shows "c # s = CHR ''{'' # ds @ CHR ''}'' # drop (length ds + 1) s"
  using placeholder_digits_Some [OF assms] by auto

end
