(* ===== verification/I18n_Message.thy ===== *)
theory I18n_Message
  imports Go_Format
begin

section \<open>Package i18n: messages\<close>

text \<open>
  Compiling, checking and rendering one message of \<open>i18n/i18n.go\<close>. A compiled message keeps
  the positions of its placeholders; rendering copies the text between them.
\<close>

record message_signature =
  indexed :: "nat list"
  verbs :: "char list"

record message_placeholder =
  ph_start :: nat
  ph_end :: nat
  ph_index :: nat

record compiled_message =
  msg_template :: string
  placeholders :: "message_placeholder list"
  msg_signature :: message_signature
  formatted :: bool

subsection \<open>The regular expressions\<close>

text \<open>\<open>javaFormatRE\<close>, \<open>%[sd]\<close>, anywhere in the text.\<close>

fun java_format :: "string \<Rightarrow> bool" where
  "java_format (c # d # s) = (c = percent_sign \<and> is_verb d \<or> java_format (d # s))"
| "java_format _ = False"

text \<open>
  \<open>javaVerbRE\<close> at the start of a text: a percent sign, an argument index, flags, a width, a precision
  and a conversion of Java's. Taking the longest run at every step is no loss: what a shorter
  one leaves over fits none of the steps behind it.
\<close>

definition java_flags :: "char list" where
  "java_flags = ''-#+0,(<''"

definition java_conversions :: "char list" where
  "java_conversions = ''bBhHsScCdoxXeEfgGaAtTn''"

definition skip_index :: "string \<Rightarrow> string" where
  "skip_index s = (if takeWhile is_digit s \<noteq> [] \<and> take 1 (dropWhile is_digit s) = ''$''
     then drop 1 (dropWhile is_digit s) else s)"

definition skip_precision :: "string \<Rightarrow> string" where
  "skip_precision s = (if take 1 s = ''.'' \<and> takeWhile is_digit (drop 1 s) \<noteq> []
     then dropWhile is_digit (drop 1 s) else s)"

definition java_verb :: "string \<Rightarrow> string option" where
  "java_verb s =
     (if take 1 s \<noteq> [percent_sign] then None
      else case skip_precision (dropWhile is_digit (dropWhile (\<lambda>c. c \<in> set java_flags) (skip_index (drop 1 s)))) of
          [] \<Rightarrow> None
        | c # r \<Rightarrow> if c \<in> set java_conversions then Some (take (length s - length r) s) else None)"

subsection \<open>Signatures\<close>

text \<open>The loop over the bytes of the message; a percent sign at the very end is passed over.\<close>

fun scan_verbs :: "bool \<Rightarrow> string \<Rightarrow> char list result" where
  "scan_verbs fmtd (c # d # s) =
     (if c \<noteq> percent_sign then scan_verbs fmtd (d # s)
      else if d = percent_sign then scan_verbs fmtd s
      else if is_verb d then (case scan_verbs fmtd s of Inl e \<Rightarrow> Inl e | Inr vs \<Rightarrow> Inr (d # vs))
      else case java_verb (c # d # s) of
          Some v \<Rightarrow> Inl (Plain (''unsupported format verb '' @ v @ ''; use only %s, %d, and %%''))
        | None \<Rightarrow>
            if fmtd then Inl (Plain ''unescaped percent in formatted message; use %% for a literal percent'')
            else scan_verbs fmtd (d # s))"
| "scan_verbs fmtd _ = Inr []"

definition parse_index :: "string \<Rightarrow> nat result" where
  "parse_index ds = (case atoi ds of
       Inl e \<Rightarrow> Inl (Wrapf (''parse placeholder {'' @ ds @ ''}'') e) | Inr n \<Rightarrow> Inr n)"

text \<open>The indexes go through a set, so that each counts once, and are sorted.\<close>

definition parse_message_signature :: "string \<Rightarrow> message_signature result" where
  "parse_message_signature message =
     (case map_result (\<lambda>(a, b, ds). parse_index ds) (placeholder_matches 0 message) of
        Inl e \<Rightarrow> Inl e
      | Inr ns \<Rightarrow> (case scan_verbs (java_format message) message of
          Inl e \<Rightarrow> Inl e
        | Inr vs \<Rightarrow> Inr \<lparr>indexed = sort (remdups ns), verbs = vs\<rparr>))"

definition same_message_signature :: "message_signature \<Rightarrow> message_signature \<Rightarrow> bool" where
  "same_message_signature x y \<longleftrightarrow> indexed x = indexed y \<and> verbs x = verbs y"

subsection \<open>Compilation\<close>

definition compile_placeholder :: "nat \<times> nat \<times> string \<Rightarrow> message_placeholder result" where
  "compile_placeholder m = (case m of (a, b, ds) \<Rightarrow>
     (case parse_index ds of Inl e \<Rightarrow> Inl e | Inr n \<Rightarrow> Inr \<lparr>ph_start = a, ph_end = b, ph_index = n\<rparr>))"

definition compile_message :: "string \<Rightarrow> compiled_message result" where
  "compile_message message =
     (case parse_message_signature message of
        Inl e \<Rightarrow> Inl e
      | Inr sig \<Rightarrow> (case map_result compile_placeholder (placeholder_matches 0 message) of
          Inl e \<Rightarrow> Inl e
        | Inr phs \<Rightarrow> Inr \<lparr>msg_template = message, placeholders = phs, msg_signature = sig,
            formatted = java_format message\<rparr>))"

subsection \<open>Rendering\<close>

definition slice_text :: "string \<Rightarrow> nat \<Rightarrow> nat \<Rightarrow> string" where
  "slice_text t a b = take (b - a) (drop a t)"

fun fill :: "'v printer \<Rightarrow> string \<Rightarrow> 'v list \<Rightarrow> nat \<Rightarrow> message_placeholder list \<Rightarrow> string" where
  "fill pr t ps lst [] = drop lst t"
| "fill pr t ps lst (p # phs) =
     slice_text t lst (ph_start p) @
     (if length ps \<le> ph_index p then slice_text t (ph_start p) (ph_end p) else print_plain pr (ps ! ph_index p)) @
     fill pr t ps (ph_end p) phs"

definition render ::
  "'v printer \<Rightarrow> (string \<Rightarrow> 'v list \<Rightarrow> 'v list \<Rightarrow> string) \<Rightarrow> compiled_message \<Rightarrow> 'v list \<Rightarrow> string" where
  "render pr rest m ps =
     (if ps = [] then msg_template m
      else let r = fill pr (msg_template m) ps 0 (placeholders m) in
        if formatted m then sprintf pr rest r ps else r)"

text \<open>The replacement of one match in \<open>injectParams\<close>.\<close>

definition inject_match :: "'v printer \<Rightarrow> 'v list \<Rightarrow> string \<Rightarrow> string" where
  "inject_match pr ps ds = (case atoi ds of
       Inl e \<Rightarrow> CHR ''{'' # ds @ ''}''
     | Inr i \<Rightarrow> if length ps \<le> i then CHR ''{'' # ds @ ''}'' else print_plain pr (ps ! i))"

definition inject_params ::
  "'v printer \<Rightarrow> (string \<Rightarrow> 'v list \<Rightarrow> 'v list \<Rightarrow> string) \<Rightarrow> string \<Rightarrow> 'v list \<Rightarrow> string" where
  "inject_params pr rest message ps =
     (if ps = [] then message
      else let r = replace_placeholders (inject_match pr ps) message in
        if java_format r then sprintf pr rest r ps else r)"

end
