(* ===== verification/I18n_Render.thy ===== *)
theory I18n_Render
  imports I18n_Message
begin

section \<open>What rendering a message gives\<close>

text \<open>
  The compiled form of a message renders like the regular expression would replace (the
  uncompiled path), and a message that passed the check of its verbs prints its operands in order
  between fixed texts.
\<close>

subsection \<open>Positions against replacement\<close>

lemma compile_placeholder_triple:
  "compile_placeholder (a, b, ds) =
     (case parse_index ds of Inl e \<Rightarrow> Inl e | Inr n \<Rightarrow> Inr \<lparr>ph_start = a, ph_end = b, ph_index = n\<rparr>)"
  by (simp add: compile_placeholder_def)

lemma fill_replace:
  assumes "map_result compile_placeholder (placeholder_matches i s) = Inr phs"
    and "drop i t = s" and "k \<le> i"
  shows "fill pr t ps k phs = slice_text t k i @ replace_placeholders (inject_match pr ps) s"
  using assms
proof (induction i s arbitrary: k phs rule: placeholder_matches.induct)
  case (1 i)
  then show ?case by (simp add: slice_text_def)
next
  case (2 i c s)
  have next_drop: "drop (Suc i + n) t = drop n s" for n
    using 2(4) by (metis add.commute drop_Suc_Cons drop_drop add_Suc)
  show ?case
  proof (cases "placeholder_digits (c # s)")
    case None
    have "slice_text t k (Suc i) = slice_text t k i @ [c]"
    proof -
      have "drop k t = slice_text t k i @ c # s"
        using 2(4,5) by (simp add: slice_text_def) (metis append_take_drop_id drop_drop le_add_diff_inverse2)
      moreover have "length (slice_text t k i) = i - k"
        using 2(4,5) by (simp add: slice_text_def) (metis drop_eq_Nil linorder_not_le list.distinct(1) min.absorb2 diff_le_mono less_imp_le)
      ultimately show ?thesis
        unfolding slice_text_def [of t k "Suc i"] using 2(5) by (simp add: Suc_diff_le)
    qed
    then show ?thesis using 2(1) [OF None, of phs k] 2(3,5) None next_drop [of 0] by simp
  next
    case (Some ds)
    let ?e = "i + length ds + 2"
    from 2(3) Some obtain n phs' where n: "parse_index ds = Inr n" and
      rest: "map_result compile_placeholder (placeholder_matches ?e (drop (length ds + 1) s)) = Inr phs'" and
      phs: "phs = \<lparr>ph_start = i, ph_end = ?e, ph_index = n\<rparr> # phs'"
      by (auto simp: compile_placeholder_triple split: sum.splits)
    have e: "drop ?e t = drop (length ds + 1) s" using next_drop [of "length ds + 1"] by (simp add: add.commute)
    have whole: "slice_text t i ?e = CHR ''{'' # ds @ ''}''"
      using placeholder_text [OF Some] 2(4) by (simp add: slice_text_def) (metis append.assoc append_Cons append_Nil append_eq_conv_conj length_append_singleton)
    have "fill pr t ps ?e phs' = replace_placeholders (inject_match pr ps) (drop (length ds + 1) s)"
      using 2(2) [OF Some rest e, of ?e] by (simp add: slice_text_def)
    moreover have "inject_match pr ps ds = (if length ps \<le> n then slice_text t i ?e else print_plain pr (ps ! n))"
      using n unfolding whole by (simp add: inject_match_def parse_index_def split: sum.splits)
    ultimately show ?thesis by (simp add: phs Some)
  qed
qed

lemma compile_message_Inr:
  "compile_message msg = Inr m \<longleftrightarrow>
     parse_message_signature msg = Inr (msg_signature m) \<and> msg_template m = msg \<and> formatted m = java_format msg \<and>
     map_result compile_placeholder (placeholder_matches 0 msg) = Inr (placeholders m)"
  by (cases m) (auto simp: compile_message_def split: sum.splits)

lemma render_compiled:
  assumes "compile_message msg = Inr m"
  shows "render pr rest m ps =
    (if ps = [] then msg
     else if java_format msg then sprintf pr rest (replace_placeholders (inject_match pr ps) msg) ps
     else replace_placeholders (inject_match pr ps) msg)"
proof -
  have "fill pr msg ps 0 (placeholders m) = replace_placeholders (inject_match pr ps) msg"
    using assms fill_replace [where i = 0 and k = 0 and t = msg and s = msg and phs = "placeholders m"]
    by (simp add: compile_message_Inr slice_text_def)
  with assms show ?thesis by (simp add: compile_message_Inr render_def Let_def)
qed

subsection \<open>Verbs\<close>

text \<open>A percent sign that the scan meets as the very last byte.\<close>

fun unfinished_verb :: "string \<Rightarrow> bool" where
  "unfinished_verb [] = False"
| "unfinished_verb [c] = (c = percent_sign)"
| "unfinished_verb (c # d # s) =
     (if c \<noteq> percent_sign then unfinished_verb (d # s)
      else if d = percent_sign \<or> is_verb d then unfinished_verb s else unfinished_verb (d # s))"

text \<open>The fixed texts of a message, before, between and behind its verbs.\<close>

definition longer :: "char \<Rightarrow> string list \<Rightarrow> string list" where
  "longer c ls = (c # hd ls) # tl ls"

fun fixed_texts :: "string \<Rightarrow> string list" where
  "fixed_texts [] = [[]]"
| "fixed_texts [c] = [[c]]"
| "fixed_texts (c # d # s) =
     (if c \<noteq> percent_sign then longer c (fixed_texts (d # s))
      else if d = percent_sign then longer percent_sign (fixed_texts s)
      else if is_verb d then [] # fixed_texts s
      else longer c (fixed_texts (d # s)))"

fun interleave :: "string list \<Rightarrow> string list \<Rightarrow> string" where
  "interleave (l # ls) (x # xs) = l @ x @ interleave ls xs"
| "interleave ls [] = concat ls"
| "interleave [] xs = concat xs"

lemma fixed_texts_not_Nil [simp]: "fixed_texts f \<noteq> []"
  by (induction f rule: fixed_texts.induct) (simp_all add: longer_def)

lemma interleave_longer: "ls \<noteq> [] \<Longrightarrow> interleave (longer c ls) xs = c # interleave ls xs"
  by (cases ls; cases xs) (simp_all add: longer_def)

lemma percent_sign_not_verb [simp]: "\<not> is_verb percent_sign"
  by (simp add: percent_sign_def is_verb_def)

lemma scan_prints:
  assumes "scan_verbs True f = Inr vs" and "\<not> unfinished_verb f" and "length ps = length vs"
  shows "sprintf_from pr rest all f ps = interleave (fixed_texts f) (map2 (print_verb pr) vs ps)"
  using assms
proof (induction f arbitrary: vs ps rule: fixed_texts.induct)
  case (3 c d s)
  consider (plain) "c \<noteq> percent_sign" | (escaped) "c = percent_sign" "d = percent_sign"
    | (verb) "c = percent_sign" "is_verb d" | (other) "c = percent_sign" "d \<noteq> percent_sign" "\<not> is_verb d" by auto
  then show ?case
  proof cases
    case plain
    with 3 show ?thesis by (simp add: interleave_longer)
  next
    case escaped
    with 3 show ?thesis by (simp add: interleave_longer)
  next
    case verb
    then have "d \<noteq> percent_sign" by auto
    with verb 3(5) obtain vs' where vs': "scan_verbs True s = Inr vs'" "vs = d # vs'"
      by (auto split: sum.splits)
    with 3(7) obtain v ws where "ps = v # ws" by (cases ps) auto
    with 3 verb vs' \<open>d \<noteq> percent_sign\<close> show ?thesis by simp
  next
    case other
    with 3(5) show ?thesis by (auto split: option.splits)
  qed
qed (auto simp: extra_args_def)

lemma scan_verbs_format:
  assumes "scan_verbs fmtd f = Inr vs" and "vs \<noteq> []"
  shows "java_format f"
  using assms
proof (induction fmtd f arbitrary: vs rule: scan_verbs.induct)
  case (1 fmtd c d s)
  have deeper: "java_format s \<Longrightarrow> java_format (d # s)" by (cases s) simp_all
  show ?case
    using 1 deeper by (auto split: if_splits sum.splits option.splits)
qed simp_all

lemma signature_verbs:
  "parse_message_signature msg = Inr sig \<Longrightarrow> scan_verbs (java_format msg) msg = Inr (verbs sig)"
  by (auto simp: parse_message_signature_def split: sum.splits)

subsection \<open>Properties of messages\<close>

text \<open>
  C24. The two ways to render agree: the compiled message, which copies the text between recorded
  positions, gives what the regular expression replacement on the raw message gives, with the
  placeholder left as it is when there is no such operand; without operands a message is
  itself. It is then formatted exactly when the raw message has a verb.
\<close>

theorem compiled_render_is_replacement:
  assumes "compile_message msg = Inr m"
  shows "render pr rest m ps =
    (if ps = [] then msg
     else if java_format msg then sprintf pr rest (replace_placeholders (inject_match pr ps) msg) ps
     else replace_placeholders (inject_match pr ps) msg) \<and>
    (if java_format (replace_placeholders (inject_match pr ps) msg) = java_format msg
     then render pr rest m ps = inject_params pr rest msg ps else True)"
  using render_compiled [OF assms, of pr rest ps] by (simp add: inject_params_def Let_def)

lemma digits_one_zero: "digits_value ''1'' = 1" "digits_value ''0'' = 0"
  by (simp_all add: digits_value_def)

lemma hello_compiles:
  "compile_message ''Hello {0}!'' = Inr \<lparr>msg_template = ''Hello {0}!'',
     placeholders = [\<lparr>ph_start = 6, ph_end = 9, ph_index = 0\<rparr>],
     msg_signature = \<lparr>indexed = [0], verbs = []\<rparr>, formatted = False\<rparr>"
  by (simp add: compile_message_def parse_message_signature_def compile_placeholder_triple parse_index_def atoi_def
      placeholder_digits_def is_digit_def digits_one_zero max_int_def percent_sign_def is_verb_def)

theorem compiled_render_is_replacement_witness:
  "\<exists>m. compile_message ''Hello {0}!'' = Inr m \<and> render go_printer other_verbs m [GString ''Ann''] = ''Hello Ann!''"
  using compiled_render_is_replacement [OF hello_compiles, where pr = go_printer and rest = other_verbs and ps = "[GString ''Ann'']"]
  by (simp add: hello_compiles placeholder_digits_def is_digit_def inject_match_def atoi_def digits_one_zero max_int_def
      go_printer_def percent_sign_def is_verb_def)

text \<open>
  A message with verbs and no placeholders that compiles, and does not end inside a verb, prints its
  operands in their order between the fixed texts: no operand is missing or left over, and
  nothing of package \<open>fmt\<close> beyond the two verbs is reached.
\<close>

theorem compiled_verbs_print:
  assumes "compile_message msg = Inr m" and "placeholders m = []" and "verbs (msg_signature m) \<noteq> []"
    and "\<not> unfinished_verb msg" and "length ps = length (verbs (msg_signature m))"
  shows "render pr rest m ps = interleave (fixed_texts msg) (map2 (print_verb pr) (verbs (msg_signature m)) ps)"
proof -
  have m: "msg_template m = msg" "formatted m = java_format msg"
    and sig: "parse_message_signature msg = Inr (msg_signature m)"
    using assms(1) by (simp_all add: compile_message_Inr)
  from signature_verbs [OF sig] have scan: "scan_verbs (java_format msg) msg = Inr (verbs (msg_signature m))" .
  from scan_verbs_format [OF scan assms(3)] have fmtd: "java_format msg" .
  with scan have "scan_verbs True msg = Inr (verbs (msg_signature m))" by simp
  from scan_prints [OF this assms(4,5)] show ?thesis
    using assms(2,3,5) m fmtd by (auto simp: render_def sprintf_def)
qed

lemma files_compiles:
  "compile_message ''%d of %s (100%%)'' = Inr \<lparr>msg_template = ''%d of %s (100%%)'', placeholders = [],
     msg_signature = \<lparr>indexed = [], verbs = ''ds''\<rparr>, formatted = True\<rparr>"
  by (simp add: compile_message_def parse_message_signature_def placeholder_digits_def percent_sign_def is_verb_def)

theorem compiled_verbs_print_witness:
  "\<exists>m. compile_message ''%d of %s (100%%)'' = Inr m \<and>
     render go_printer other_verbs m [GInt 4, GString ''all''] = ''4 of all (100%)''"
proof -
  have "digit 4 = CHR ''4''" unfolding digit_def by code_simp
  then have four: "itoa 4 = ''4''" by (subst itoa.simps) simp
  have "render go_printer other_verbs \<lparr>msg_template = ''%d of %s (100%%)'', placeholders = [],
     msg_signature = \<lparr>indexed = [], verbs = ''ds''\<rparr>, formatted = True\<rparr> [GInt 4, GString ''all''] = ''4 of all (100%)''"
    by (subst compiled_verbs_print [OF files_compiles])
      (simp_all add: percent_sign_def is_verb_def longer_def print_verb_def go_printer_def four)
  with files_compiles show ?thesis by blast
qed

text \<open>
  The check lets a percent sign at the very end of a formatted message pass, although it is the
  unescaped percent the check is there for: the message is rendered with a complaint of
  package \<open>fmt\<close> in it.
\<close>

lemma trailing_percent_is_accepted:
  "\<exists>m. compile_message ''%s is 100%'' = Inr m \<and> render go_printer other_verbs m [GString ''Job''] = ''Job is 100%!(NOVERB)''"
  by (simp add: compile_message_def parse_message_signature_def placeholder_digits_def percent_sign_def is_verb_def
      render_def sprintf_def print_verb_def go_printer_def extra_args_def)

text \<open>
  Whether a message is formatted and which verbs it has are decided by two scans that disagree: an
  escaped percent sign before the letter s makes a message formatted that has no verb, so its
  operands are reported as superfluous in the rendered text.
\<close>

lemma escaped_percent_counts_as_format:
  "\<exists>m. compile_message ''{0}: 100%%s'' = Inr m \<and> verbs (msg_signature m) = [] \<and> formatted m \<and>
     render go_printer other_verbs m [GString ''Job''] = ''Job: 100%s%!(EXTRA string=Job)''"
  by (simp add: compile_message_def parse_message_signature_def placeholder_digits_def percent_sign_def is_verb_def
      render_def sprintf_def print_verb_def go_printer_def extra_args_def is_digit_def parse_index_def
      compile_placeholder_def atoi_def digits_one_zero max_int_def slice_text_def Let_def)

text \<open>
  The text of an operand is taken for a format when the message comes from the caller's default
  instead of a bundle.
\<close>

lemma operand_is_used_as_format:
  "inject_params go_printer other_verbs ''Hello {0}'' [GString ''50%d''] = ''Hello 50%!d(string=50%d)''"
  by (simp add: inject_params_def inject_match_def placeholder_digits_def is_digit_def atoi_def digits_one_zero max_int_def
      percent_sign_def is_verb_def sprintf_def print_verb_def go_printer_def extra_args_def bad_verb_def)

end
