(* ===== verification/I18n_Catalog.thy ===== *)
theory I18n_Catalog
  imports I18n_Render Go_Path
begin

section \<open>Package i18n: the catalog\<close>

text \<open>
  \<open>New\<close>, \<open>ForLocale\<close>, \<open>Default\<close> and translation of \<open>i18n/i18n.go\<close>. The file system is the function
  that \<open>fs.ReadFile\<close> calls, the properties parser (a third-party package) is a parameter that
  returns the pairs of its map in the order in which a \<open>range\<close> happens to visit them: the order
  decides only which of several errors is reported. A Go map of bundles is a map, its values
  are pairs of keys and messages.
\<close>

record language =
  lang_code :: string
  display_name :: string
  native_name :: string

record i18n_options =
  opt_fs :: "(string \<Rightarrow> string result) option"
  base_path :: string
  default_locale_option :: string
  opt_languages :: "language list"

type_synonym properties_parser = "string \<Rightarrow> (string \<times> string) list result"

record translator =
  default_locale :: string
  languages :: "language list"
  catalog :: "string \<rightharpoonup> (string \<times> compiled_message) list"

record localizer =
  loc_translator :: translator
  loc_locale :: string

subsection \<open>Loading\<close>

definition parse_properties :: "properties_parser \<Rightarrow> string \<Rightarrow> (string \<times> string) list result" where
  "parse_properties props data =
     (case props data of Inl e \<Rightarrow> Inl (Wrapf ''parse properties'' e) | Inr kvs \<Rightarrow> Inr kvs)"

definition bundle_file :: "string \<Rightarrow> string \<Rightarrow> string" where
  "bundle_file base locale = path_join [trim_space base, locale @ ''.properties'']"

definition load_bundle ::
  "properties_parser \<Rightarrow> (string \<Rightarrow> string result) \<Rightarrow> string \<Rightarrow> string \<Rightarrow> (string \<times> string) list result" where
  "load_bundle props read_file base locale =
     (case read_file (bundle_file base locale) of
        Inl e \<Rightarrow> Inl (Wrapf (''load locale '' @ locale @ '' from '' @ bundle_file base locale) e)
      | Inr data \<Rightarrow> parse_properties props data)"

text \<open>One language after the other: its code is trimmed, checked, and its bundle is read.\<close>

fun load_languages ::
  "(string \<Rightarrow> (string \<times> string) list result) \<Rightarrow> (string \<rightharpoonup> (string \<times> string) list) \<Rightarrow> language list \<Rightarrow>
     (language list \<times> (string \<rightharpoonup> (string \<times> string) list)) result" where
  "load_languages load raws [] = Inr ([], raws)"
| "load_languages load raws (l # ls) =
     (let code = trim_space (lang_code l) in
      if code = [] \<or> slash \<in> set code \<or> CHR 0x5C \<in> set code
      then Inl (Plain (''invalid language code '' @ lang_code l))
      else if raws code \<noteq> None then Inl (Plain (''duplicate language code '' @ code))
      else case load code of
          Inl e \<Rightarrow> Inl e
        | Inr bundle \<Rightarrow> (case load_languages load (raws(code \<mapsto> bundle)) ls of
            Inl e \<Rightarrow> Inl e
          | Inr (ls', raws') \<Rightarrow> Inr (l\<lparr>lang_code := code\<rparr> # ls', raws')))"

subsection \<open>Compiling\<close>

definition compile_entry :: "string \<Rightarrow> string \<times> string \<Rightarrow> (string \<times> compiled_message) result" where
  "compile_entry locale kv =
     (case compile_message (snd kv) of
        Inl e \<Rightarrow> Inl (Wrapf (''validate locale '' @ locale @ '' key '' @ fst kv) e)
      | Inr m \<Rightarrow> Inr (fst kv, m))"

definition compile_bundle :: "string \<Rightarrow> (string \<times> string) list \<Rightarrow> (string \<times> compiled_message) list result" where
  "compile_bundle locale kvs = map_result (compile_entry locale) kvs"

definition contract_error :: "string \<Rightarrow> string \<Rightarrow> string \<Rightarrow> gerror" where
  "contract_error locale key dflt = Plain (''locale '' @ locale @ '' key '' @ key @
     '' has a different parameter contract from default locale '' @ dflt)"

fun check_contract ::
  "string \<Rightarrow> string \<Rightarrow> (string \<times> compiled_message) list \<Rightarrow> (string \<times> compiled_message) list \<Rightarrow> gerror option" where
  "check_contract locale dflt defaults [] = None"
| "check_contract locale dflt defaults ((key, m) # ms) =
     (case map_of defaults key of
        Some d \<Rightarrow> if \<not> same_message_signature (msg_signature m) (msg_signature d)
          then Some (contract_error locale key dflt) else check_contract locale dflt defaults ms
      | None \<Rightarrow> check_contract locale dflt defaults ms)"

definition raw_bundle :: "(string \<rightharpoonup> (string \<times> string) list) \<Rightarrow> string \<Rightarrow> (string \<times> string) list" where
  "raw_bundle raws code = (case raws code of None \<Rightarrow> [] | Some kvs \<Rightarrow> kvs)"

fun compile_others ::
  "string \<Rightarrow> (string \<rightharpoonup> (string \<times> string) list) \<Rightarrow> (string \<times> compiled_message) list \<Rightarrow>
     (string \<rightharpoonup> (string \<times> compiled_message) list) \<Rightarrow> language list \<Rightarrow>
     (string \<rightharpoonup> (string \<times> compiled_message) list) result" where
  "compile_others dflt raws defaults compiled [] = Inr compiled"
| "compile_others dflt raws defaults compiled (l # ls) =
     (if lang_code l = dflt then compile_others dflt raws defaults compiled ls
      else case compile_bundle (lang_code l) (raw_bundle raws (lang_code l)) of
          Inl e \<Rightarrow> Inl e
        | Inr ms \<Rightarrow> (case check_contract (lang_code l) dflt defaults ms of
            Some e \<Rightarrow> Inl e
          | None \<Rightarrow> compile_others dflt raws defaults (compiled(lang_code l \<mapsto> ms)) ls))"

definition compile_catalog ::
  "language list \<Rightarrow> string \<Rightarrow> (string \<rightharpoonup> (string \<times> string) list) \<Rightarrow>
     (string \<rightharpoonup> (string \<times> compiled_message) list) result" where
  "compile_catalog ls dflt raws =
     (case compile_bundle dflt (raw_bundle raws dflt) of
        Inl e \<Rightarrow> Inl e
      | Inr defaults \<Rightarrow> compile_others dflt raws defaults [dflt \<mapsto> defaults] ls)"

subsection \<open>Construction\<close>

definition NewTranslator :: "properties_parser \<Rightarrow> i18n_options \<Rightarrow> translator result" where
  "NewTranslator props opts =
     (case opt_fs opts of None \<Rightarrow> Inl (Plain ''translation filesystem is required'') | Some read_file \<Rightarrow>
      let dflt = trim_space (default_locale_option opts) in
      if dflt = [] then Inl (Plain ''default locale is required'')
      else if opt_languages opts = [] then Inl (Plain ''at least one language is required'')
      else case load_languages (load_bundle props read_file (base_path opts)) Map.empty (opt_languages opts) of
          Inl e \<Rightarrow> Inl e
        | Inr (ls, raws) \<Rightarrow>
            if \<not> list_ex (\<lambda>l. lang_code l = dflt) ls
            then Inl (Plain (''default locale '' @ dflt @ '' is not declared''))
            else case compile_catalog ls dflt raws of
                Inl e \<Rightarrow> Inl e
              | Inr compiled \<Rightarrow>
                  Inr \<lparr>default_locale = dflt, languages = ls, catalog = compiled\<rparr>)"

subsection \<open>Translation\<close>

definition ForLocale :: "translator \<Rightarrow> string \<Rightarrow> localizer result" where
  "ForLocale t locale = (if catalog t locale = None then Inl (Plain (''unsupported locale '' @ locale))
     else Inr \<lparr>loc_translator = t, loc_locale = locale\<rparr>)"

definition Default :: "translator \<Rightarrow> localizer" where
  "Default t = \<lparr>loc_translator = t, loc_locale = default_locale t\<rparr>"

definition Languages :: "translator \<Rightarrow> language list" where
  "Languages t = languages t"

definition Locale :: "localizer \<Rightarrow> string" where
  "Locale l = loc_locale l"

definition find_message :: "translator \<Rightarrow> string \<Rightarrow> string \<Rightarrow> compiled_message option" where
  "find_message t locale key =
     (case catalog t locale of None \<Rightarrow> None | Some ms \<Rightarrow> map_of ms key)"

definition translate ::
  "'v printer \<Rightarrow> (string \<Rightarrow> 'v list \<Rightarrow> 'v list \<Rightarrow> string) \<Rightarrow> translator \<Rightarrow> string \<Rightarrow> string \<Rightarrow> string \<Rightarrow>
     'v list \<Rightarrow> string" where
  "translate pr rest t locale key fallback ps =
     (case find_message t locale key of
        Some m \<Rightarrow> render pr rest m ps
      | None \<Rightarrow> (case find_message t (default_locale t) key of
          Some m \<Rightarrow> render pr rest m ps
        | None \<Rightarrow> inject_params pr rest fallback ps))"

definition Translate ::
  "'v printer \<Rightarrow> (string \<Rightarrow> 'v list \<Rightarrow> 'v list \<Rightarrow> string) \<Rightarrow> localizer \<Rightarrow> string \<Rightarrow> 'v list \<Rightarrow> string" where
  "Translate pr rest l key ps = translate pr rest (loc_translator l) (loc_locale l) key key ps"

definition TranslateOrDefault ::
  "'v printer \<Rightarrow> (string \<Rightarrow> 'v list \<Rightarrow> 'v list \<Rightarrow> string) \<Rightarrow> localizer \<Rightarrow> string \<Rightarrow> string \<Rightarrow> 'v list \<Rightarrow> string" where
  "TranslateOrDefault pr rest l key dflt ps = translate pr rest (loc_translator l) (loc_locale l) key dflt ps"

end
