(* ===== verification/I18n_Contract.thy ===== *)
theory I18n_Contract
  imports I18n_Catalog
begin

section \<open>What a translator promises\<close>

text \<open>
  A translator that \<open>New\<close> returned is complete and consistent: every declared language has its
  bundle, translations come from the files in the documented order, and messages under a key
  of the default locale take the same parameters in every language that has them. Keys that
  the default locale lacks are not compared.
\<close>

subsection \<open>Construction\<close>

definition trimmed :: "language \<Rightarrow> language" where
  "trimmed l = l\<lparr>lang_code := trim_space (lang_code l)\<rparr>"

lemma load_languages_Inr:
  assumes "load_languages load raws ls = Inr (ls', raws')"
  shows "ls' = map trimmed ls" and "distinct (map lang_code ls')"
    and "code \<in> set (map lang_code ls') \<Longrightarrow> raws code = None \<and> (\<exists>b. load code = Inr b \<and> raws' code = Some b)"
    and "code \<notin> set (map lang_code ls') \<Longrightarrow> raws' code = raws code"
proof -
  have "ls' = map trimmed ls \<and> distinct (map lang_code ls') \<and>
    (\<forall>code \<in> set (map lang_code ls'). raws code = None \<and> (\<exists>b. load code = Inr b \<and> raws' code = Some b)) \<and>
    (\<forall>code. code \<notin> set (map lang_code ls') \<longrightarrow> raws' code = raws code)"
    using assms
  proof (induction ls arbitrary: raws ls' raws')
    case (Cons l ls)
    let ?code = "trim_space (lang_code l)"
    from Cons.prems obtain b ms where b: "load ?code = Inr b" "raws ?code = None"
      and rest: "load_languages load (raws(?code \<mapsto> b)) ls = Inr (ms, raws')" and ls': "ls' = trimmed l # ms"
      by (auto simp: Let_def trimmed_def split: if_splits sum.splits prod.splits)
    note IH = Cons.IH [OF rest]
    have new: "?code \<notin> set (map lang_code ms)" using IH by (auto split: if_splits)
    have code: "lang_code (trimmed l) = ?code" by (simp add: trimmed_def)
    have "raws' ?code = (raws(?code \<mapsto> b)) ?code" using IH new by blast
    then have "raws' ?code = Some b" by simp
    with IH new b ls' show ?case by (auto simp: code split: if_splits)
  qed simp
  then show "ls' = map trimmed ls" "distinct (map lang_code ls')"
    "code \<in> set (map lang_code ls') \<Longrightarrow> raws code = None \<and> (\<exists>b. load code = Inr b \<and> raws' code = Some b)"
    "code \<notin> set (map lang_code ls') \<Longrightarrow> raws' code = raws code"
    by blast+
qed

lemma compile_others_Inr:
  assumes "compile_others dflt raws defaults compiled ls = Inr compiled'" and "distinct (map lang_code ls)"
  shows "code = dflt \<or> code \<notin> set (map lang_code ls) \<Longrightarrow> compiled' code = compiled code"
    and "code \<noteq> dflt \<Longrightarrow> code \<in> set (map lang_code ls) \<Longrightarrow>
      \<exists>ms. compile_bundle code (raw_bundle raws code) = Inr ms \<and> check_contract code dflt defaults ms = None \<and>
        compiled' code = Some ms"
proof -
  have "(\<forall>code. code = dflt \<or> code \<notin> set (map lang_code ls) \<longrightarrow> compiled' code = compiled code) \<and>
    (\<forall>code. code \<noteq> dflt \<and> code \<in> set (map lang_code ls) \<longrightarrow>
      (\<exists>ms. compile_bundle code (raw_bundle raws code) = Inr ms \<and> check_contract code dflt defaults ms = None \<and>
        compiled' code = Some ms))"
    using assms
  proof (induction ls arbitrary: compiled)
    case (Cons l ls)
    show ?case
    proof (cases "lang_code l = dflt")
      case True
      with Cons.IH [of compiled] Cons.prems show ?thesis by auto
    next
      case False
      with Cons.prems obtain ms where ms: "compile_bundle (lang_code l) (raw_bundle raws (lang_code l)) = Inr ms"
        "check_contract (lang_code l) dflt defaults ms = None"
        and rest: "compile_others dflt raws defaults (compiled(lang_code l \<mapsto> ms)) ls = Inr compiled'"
        by (auto split: sum.splits option.splits)
      have "lang_code l \<notin> set (map lang_code ls)" "distinct (map lang_code ls)" using Cons.prems(2) by simp_all
      with Cons.IH [OF rest] ms False show ?thesis by auto
    qed
  qed simp
  then show "code = dflt \<or> code \<notin> set (map lang_code ls) \<Longrightarrow> compiled' code = compiled code"
    "code \<noteq> dflt \<Longrightarrow> code \<in> set (map lang_code ls) \<Longrightarrow>
      \<exists>ms. compile_bundle code (raw_bundle raws code) = Inr ms \<and> check_contract code dflt defaults ms = None \<and>
        compiled' code = Some ms"
    by blast+
qed

text \<open>The bundle of a language as its file has it.\<close>

definition file_bundle :: "properties_parser \<Rightarrow> i18n_options \<Rightarrow> string \<Rightarrow> (string \<times> string) list result" where
  "file_bundle props opts code =
     (case opt_fs opts of None \<Rightarrow> Inl (Plain []) | Some read_file \<Rightarrow> load_bundle props read_file (base_path opts) code)"

lemma new_translator_Inr:
  assumes "NewTranslator props opts = Inr t"
  shows "languages t = map trimmed (opt_languages opts)" and "distinct (map lang_code (languages t))"
    and "default_locale t = trim_space (default_locale_option opts)"
    and "default_locale t \<in> set (map lang_code (languages t))"
    and "catalog t code \<noteq> None \<longleftrightarrow> code \<in> set (map lang_code (languages t))"
    and "code \<in> set (map lang_code (languages t)) \<Longrightarrow>
      \<exists>kvs ms defaults. file_bundle props opts code = Inr kvs \<and> catalog t code = Some ms \<and>
        compile_bundle code kvs = Inr ms \<and> catalog t (default_locale t) = Some defaults \<and>
        (code = default_locale t \<or> check_contract code (default_locale t) defaults ms = None)"
proof -
  let ?d = "trim_space (default_locale_option opts)"
  from assms obtain read_file ls raws compiled where fs: "opt_fs opts = Some read_file"
    and load: "load_languages (load_bundle props read_file (base_path opts)) Map.empty (opt_languages opts) = Inr (ls, raws)"
    and found: "list_ex (\<lambda>l. lang_code l = ?d) ls" and comp: "compile_catalog ls ?d raws = Inr compiled"
    and t: "t = \<lparr>default_locale = ?d, languages = ls, catalog = compiled\<rparr>"
    by (auto simp: NewTranslator_def Let_def split: option.splits if_splits sum.splits prod.splits)
  note loaded = load_languages_Inr [OF load]
  have d: "?d \<in> set (map lang_code ls)" using found by (force simp: list_ex_iff)
  from comp obtain defaults where defaults: "compile_bundle ?d (raw_bundle raws ?d) = Inr defaults"
    and others: "compile_others ?d raws defaults [?d \<mapsto> defaults] ls = Inr compiled"
    by (auto simp: compile_catalog_def split: sum.splits)
  note compiled = compile_others_Inr [OF others loaded(2)]
  have dflt: "compiled ?d = Some defaults" using compiled(1) [of ?d] by simp
  have raw: "file_bundle props opts c = Inr (raw_bundle raws c)" if "c \<in> set (map lang_code ls)" for c
    using loaded(3) [OF that] fs by (auto simp: file_bundle_def raw_bundle_def)
  show "languages t = map trimmed (opt_languages opts)" "distinct (map lang_code (languages t))"
    "default_locale t = ?d" "default_locale t \<in> set (map lang_code (languages t))"
    using loaded(1,2) d by (simp_all add: t)
  show "catalog t code \<noteq> None \<longleftrightarrow> code \<in> set (map lang_code (languages t))"
  proof (cases "code \<in> set (map lang_code ls)")
    case True
    with compiled(2) [of code] dflt show ?thesis by (cases "code = ?d") (auto simp: t)
  next
    case False
    with compiled(1) [of code] d have "compiled code = None" by auto
    with False show ?thesis by (simp add: t)
  qed
  show "\<exists>kvs ms defaults. file_bundle props opts code = Inr kvs \<and> catalog t code = Some ms \<and>
        compile_bundle code kvs = Inr ms \<and> catalog t (default_locale t) = Some defaults \<and>
        (code = default_locale t \<or> check_contract code (default_locale t) defaults ms = None)"
    if "code \<in> set (map lang_code (languages t))"
    using that raw [of code] compiled(2) [of code] defaults dflt by (cases "code = ?d") (auto simp: t)
qed

subsection \<open>Lookups\<close>

lemma compile_bundle_lookup:
  assumes "compile_bundle locale kvs = Inr ms"
  shows "case map_of kvs key of None \<Rightarrow> map_of ms key = None
    | Some msg \<Rightarrow> \<exists>m. map_of ms key = Some m \<and> compile_message msg = Inr m"
proof -
  have "list_all2 (\<lambda>kv km. compile_entry locale kv = Inr km) kvs ms"
    using assms by (simp add: compile_bundle_def map_result_Inr)
  then show ?thesis
    by (induction rule: list_all2_induct) (auto simp: compile_entry_def split: sum.splits option.splits)
qed

lemma check_contract_lookup:
  assumes "check_contract locale dflt defaults ms = None"
    and "map_of ms key = Some m" and "map_of defaults key = Some d"
  shows "same_message_signature (msg_signature m) (msg_signature d)"
  using assms
  by (induction ms rule: check_contract.induct) (auto split: if_splits option.splits)

lemma same_message_signature_refl [simp]: "same_message_signature s s"
  by (simp add: same_message_signature_def)

lemma same_message_signature_eq: "same_message_signature s s' \<longleftrightarrow> s = s'"
  by (cases s; cases s') (simp add: same_message_signature_def)

subsection \<open>Properties\<close>

text \<open>What a message shows: placeholders replaced, and formatted when it has a verb.\<close>

definition shown :: "'v printer \<Rightarrow> (string \<Rightarrow> 'v list \<Rightarrow> 'v list \<Rightarrow> string) \<Rightarrow> string \<Rightarrow> 'v list \<Rightarrow> string" where
  "shown pr rest msg ps =
     (if ps = [] then msg
      else if java_format msg then sprintf pr rest (replace_placeholders (inject_match pr ps) msg) ps
      else replace_placeholders (inject_match pr ps) msg)"

lemma find_message_shown:
  assumes "compile_bundle locale kvs = Inr ms" and "catalog t locale = Some ms"
  shows "case map_of kvs key of None \<Rightarrow> find_message t locale key = None
    | Some msg \<Rightarrow> \<exists>m. find_message t locale key = Some m \<and> render pr rest m ps = shown pr rest msg ps"
  using compile_bundle_lookup [OF assms(1), of key] assms(2)
  by (auto simp: find_message_def shown_def render_compiled split: option.splits)

text \<open>
  C22. Translations come from the files: a reader of a locale exists exactly for the declared, trimmed
  codes, and what it shows is the message of its own file, else the one of the default
  locale's file, else the fallback; both files were read and parsed when the translator was made.
\<close>

theorem translation_from_files:
  assumes "NewTranslator props opts = Inr t" and "ForLocale t locale = Inr l"
  shows "locale \<in> trim_space ` lang_code ` set (opt_languages opts) \<and> Locale l = locale \<and>
    (\<exists>own dfl. file_bundle props opts locale = Inr own \<and>
      file_bundle props opts (trim_space (default_locale_option opts)) = Inr dfl \<and>
      TranslateOrDefault pr rest l key fallback ps =
        (case map_of own key of Some msg \<Rightarrow> shown pr rest msg ps
         | None \<Rightarrow> (case map_of dfl key of Some msg \<Rightarrow> shown pr rest msg ps
           | None \<Rightarrow> inject_params pr rest fallback ps)))"
proof -
  note new = new_translator_Inr [OF assms(1)]
  have l: "l = \<lparr>loc_translator = t, loc_locale = locale\<rparr>" and cat: "catalog t locale \<noteq> None"
    using assms(2) by (auto simp: ForLocale_def split: if_splits)
  have declared: "locale \<in> set (map lang_code (languages t))" using new(5) cat by simp
  from new(6) [OF declared] obtain own ms where own: "file_bundle props opts locale = Inr own"
    "catalog t locale = Some ms" "compile_bundle locale own = Inr ms" by blast
  from new(6) [OF new(4)] obtain dfl ds where dfl: "file_bundle props opts (default_locale t) = Inr dfl"
    "catalog t (default_locale t) = Some ds" "compile_bundle (default_locale t) dfl = Inr ds" by blast
  have "locale \<in> trim_space ` lang_code ` set (opt_languages opts)"
    using declared new(1) by (auto simp: trimmed_def image_iff)
  moreover have "TranslateOrDefault pr rest l key fallback ps =
        (case map_of own key of Some msg \<Rightarrow> shown pr rest msg ps
         | None \<Rightarrow> (case map_of dfl key of Some msg \<Rightarrow> shown pr rest msg ps
           | None \<Rightarrow> inject_params pr rest fallback ps))"
    using find_message_shown [OF own(3,2), where key = key and pr = pr and rest = rest and ps = ps]
      find_message_shown [OF dfl(3,2), where key = key and pr = pr and rest = rest and ps = ps]
    by (auto simp: l TranslateOrDefault_def translate_def split: option.splits)
  ultimately show ?thesis using own(1) dfl(1) new(3) by (auto simp: l Locale_def)
qed

text \<open>A catalog with two languages; the file of the second one lacks a message.\<close>

definition demo_files :: "string \<Rightarrow> string result" where
  "demo_files name = (if name = ''locales/en.properties'' then Inr ''english''
     else if name = ''locales/de.properties'' then Inr ''german'' else Inl (External ''not found''))"

definition demo_parser :: properties_parser where
  "demo_parser data = (if data = ''english'' then Inr [(''hi'', ''Hello {0}!''), (''files'', ''%d of %s (100%%)'')]
     else if data = ''german'' then Inr [(''hi'', ''Hallo {0}!'')] else Inl (External ''syntax''))"

definition demo_options :: i18n_options where
  "demo_options = \<lparr>opt_fs = Some demo_files, base_path = ''locales'', default_locale_option = ''en'',
     opt_languages = [\<lparr>lang_code = ''en'', display_name = ''English'', native_name = ''English''\<rparr>,
       \<lparr>lang_code = ''de'', display_name = ''German'', native_name = ''Deutsch''\<rparr>]\<rparr>"

lemma demo_trim: "trim_space ''en'' = ''en''" "trim_space ''de'' = ''de''" "trim_space ''locales'' = ''locales''"
  by (simp_all add: go_text)

lemma demo_names: "bundle_file ''locales'' ''en'' = ''locales/en.properties''"
  "bundle_file ''locales'' ''de'' = ''locales/de.properties''"
  by (simp_all add: bundle_file_def demo_trim path_join_def path_clean_def path_is_abs_def clean_elements_def
      clean_step_def dot_def dotdot_def Let_def)

lemma demo_bundles:
  "file_bundle demo_parser demo_options ''en'' = Inr [(''hi'', ''Hello {0}!''), (''files'', ''%d of %s (100%%)'')]"
  "file_bundle demo_parser demo_options ''de'' = Inr [(''hi'', ''Hallo {0}!'')]"
  by (simp_all add: file_bundle_def demo_options_def load_bundle_def demo_names demo_files_def parse_properties_def
      demo_parser_def)

lemma hallo_compiles:
  "compile_message ''Hallo {0}!'' = Inr \<lparr>msg_template = ''Hallo {0}!'',
     placeholders = [\<lparr>ph_start = 6, ph_end = 9, ph_index = 0\<rparr>],
     msg_signature = \<lparr>indexed = [0], verbs = []\<rparr>, formatted = False\<rparr>"
  by (simp add: compile_message_def parse_message_signature_def compile_placeholder_triple parse_index_def atoi_def
      placeholder_digits_def is_digit_def digits_one_zero max_int_def percent_sign_def is_verb_def)

lemma demo_translator: "\<exists>t. NewTranslator demo_parser demo_options = Inr t"
  by (simp add: NewTranslator_def demo_options_def demo_trim load_bundle_def demo_names demo_files_def demo_parser_def
      parse_properties_def compile_catalog_def compile_bundle_def compile_entry_def raw_bundle_def hello_compiles
      hallo_compiles files_compiles same_message_signature_def Let_def)

lemma declared_signature:
  assumes "NewTranslator props opts = Inr t" and "locale \<in> trim_space ` lang_code ` set (opt_languages opts)"
    and "file_bundle props opts locale = Inr own" and "map_of own key = Some msg"
    and "file_bundle props opts (trim_space (default_locale_option opts)) = Inr dfl" and "map_of dfl key = Some dmsg"
  shows "\<exists>sig. parse_message_signature msg = Inr sig \<and> parse_message_signature dmsg = Inr sig"
proof -
  note new = new_translator_Inr [OF assms(1)]
  have "locale \<in> set (map lang_code (languages t))" using assms(2) new(1) by (auto simp: trimmed_def)
  from new(6) [OF this] assms(3) obtain ms ds where ms: "compile_bundle locale own = Inr ms"
    "catalog t locale = Some ms" "catalog t (default_locale t) = Some ds"
    "locale = default_locale t \<or> check_contract locale (default_locale t) ds ms = None" by auto
  from new(6) [OF new(4)] assms(5) new(3) ms(3) have ds: "compile_bundle (default_locale t) dfl = Inr ds" by auto
  from compile_bundle_lookup [OF ms(1), of key] assms(4) obtain m where
    m: "map_of ms key = Some m" "compile_message msg = Inr m" by auto
  from compile_bundle_lookup [OF ds, of key] assms(6) obtain d where
    d: "map_of ds key = Some d" "compile_message dmsg = Inr d" by auto
  have "msg_signature m = msg_signature d"
    using ms check_contract_lookup [OF _ m(1) d(1)] m(1) d(1) by (auto simp: same_message_signature_eq)
  then show ?thesis using m(2) d(2) by (auto simp: compile_message_Inr)
qed

text \<open>
  C23. One parameter contract for every key that the default locale has: in a translator that \<open>New\<close>
  returned, any two declared languages whose files have a message under such a key give it the same
  signature, so the same placeholders and the same verbs in the same order, which is also that of the
  default locale's message. Keys that the default locale lacks are not compared.
\<close>

theorem one_contract_per_key:
  assumes "NewTranslator props opts = Inr t"
    and "file_bundle props opts (trim_space (default_locale_option opts)) = Inr dfl" and "map_of dfl key = Some dmsg"
    and "locale1 \<in> trim_space ` lang_code ` set (opt_languages opts)"
    and "file_bundle props opts locale1 = Inr own1" and "map_of own1 key = Some msg1"
    and "locale2 \<in> trim_space ` lang_code ` set (opt_languages opts)"
    and "file_bundle props opts locale2 = Inr own2" and "map_of own2 key = Some msg2"
  shows "\<exists>sig. parse_message_signature msg1 = Inr sig \<and> parse_message_signature msg2 = Inr sig \<and>
    parse_message_signature dmsg = Inr sig"
  using declared_signature [OF assms(1,4,5,6,2,3)] declared_signature [OF assms(1,7,8,9,2,3)] by force

theorem one_contract_per_key_witness:
  "\<exists>sig. parse_message_signature ''Hallo {0}!'' = Inr sig \<and> parse_message_signature ''Hello {0}!'' = Inr sig"
proof -
  obtain t where t: "NewTranslator demo_parser demo_options = Inr t" using demo_translator by blast
  have declared: "''de'' \<in> trim_space ` lang_code ` set (opt_languages demo_options)"
    "''en'' \<in> trim_space ` lang_code ` set (opt_languages demo_options)"
    by (simp_all add: demo_options_def demo_trim)
  have "trim_space (default_locale_option demo_options) = ''en''" by (simp add: demo_options_def demo_trim)
  then have en: "file_bundle demo_parser demo_options (trim_space (default_locale_option demo_options)) =
      Inr [(''hi'', ''Hello {0}!''), (''files'', ''%d of %s (100%%)'')]"
    using demo_bundles(1) by simp
  have "\<exists>sig. parse_message_signature ''Hallo {0}!'' = Inr sig \<and> parse_message_signature ''Hello {0}!'' = Inr sig \<and>
      parse_message_signature ''Hello {0}!'' = Inr sig"
    by (rule one_contract_per_key [OF t en _ declared(1) demo_bundles(2) _ declared(2) demo_bundles(1), where key = "''hi''"])
      simp_all
  then show ?thesis by blast
qed

text \<open>
  Nothing is compared without the default locale: two languages may give different signatures
  to a key that it lacks.
\<close>

definition odd_parser :: properties_parser where
  "odd_parser data = (if data = ''english'' then Inr [] else if data = ''german'' then Inr [(''hi'', ''Hallo {0}!'')]
     else Inr [(''hi'', ''%d of %s (100%%)'')])"

definition odd_options :: i18n_options where
  "odd_options = demo_options\<lparr>opt_fs := Some (\<lambda>name. if name = ''locales/fr.properties'' then Inr ''french'' else demo_files name),
     opt_languages := opt_languages demo_options @ [\<lparr>lang_code = ''fr'', display_name = ''French'', native_name = ''Francais''\<rparr>]\<rparr>"

lemma contract_needs_default_key: "\<exists>t. NewTranslator odd_parser odd_options = Inr t"
proof -
  have fr: "trim_space ''fr'' = ''fr''" by (simp add: go_text)
  have "bundle_file ''locales'' ''fr'' = ''locales/fr.properties''"
    by (simp add: bundle_file_def demo_trim path_join_def path_clean_def path_is_abs_def clean_elements_def
        clean_step_def dot_def dotdot_def Let_def)
  with fr show ?thesis
    by (simp add: NewTranslator_def odd_options_def demo_options_def demo_trim load_bundle_def demo_names demo_files_def
        odd_parser_def parse_properties_def compile_catalog_def compile_bundle_def compile_entry_def raw_bundle_def
        hallo_compiles files_compiles Let_def)
qed

theorem translation_from_files_witness:
  "\<exists>t l. NewTranslator demo_parser demo_options = Inr t \<and> ForLocale t ''de'' = Inr l \<and>
     TranslateOrDefault go_printer other_verbs l ''hi'' [] [GString ''Ann''] = ''Hallo Ann!''"
proof -
  obtain t where t: "NewTranslator demo_parser demo_options = Inr t" using demo_translator by blast
  have "''de'' \<in> set (map lang_code (languages t))"
    using new_translator_Inr(1) [OF t] by (simp add: demo_options_def trimmed_def demo_trim)
  then obtain l where l: "ForLocale t ''de'' = Inr l"
    using new_translator_Inr(5) [OF t] by (auto simp: ForLocale_def)
  from translation_from_files [OF t l, where pr = go_printer and rest = other_verbs and key = "''hi''" and fallback = "[]"
      and ps = "[GString ''Ann'']"]
  have "TranslateOrDefault go_printer other_verbs l ''hi'' [] [GString ''Ann''] =
      shown go_printer other_verbs ''Hallo {0}!'' [GString ''Ann'']"
    by (auto simp: demo_bundles)
  also have "\<dots> = ''Hallo Ann!''"
    by (simp add: shown_def placeholder_digits_def is_digit_def inject_match_def atoi_def digits_one_zero max_int_def
        go_printer_def percent_sign_def is_verb_def)
  finally show ?thesis using t l by blast
qed

end
