(* ===== verification/Migration_Runner.thy ===== *)
theory Migration_Runner
  imports Go_Base
begin

section \<open>Package migration: the life of a runner\<close>

text \<open>
  \<open>migration/runner.go\<close>. golang-migrate and its source reader are parameters that work on the
  outside world \<open>'w\<close> (the files, the database). The operations are functions of the runner and
  the world; threads share a runner, so there is also a step relation in which their calls
  interleave: locking, reading the flag, setting it, calling out and unlocking are steps of
  their own. \<open>Migration_Threads\<close> shows that the two agree.
\<close>

definition ErrClosed :: gerror where
  "ErrClosed = Sentinel ''migration runner is closed''"

subsection \<open>The migrator\<close>

text \<open>\<open>no_change\<close> is the library's sentinel for a schema that is up to date.\<close>

record ('m, 'w) migrator =
  mig_up :: "'m \<Rightarrow> 'w \<Rightarrow> gerror option \<times> 'w"
  mig_version :: "'m \<Rightarrow> 'w \<Rightarrow> (nat \<times> bool) result \<times> 'w"
  mig_close :: "'m \<Rightarrow> 'w \<Rightarrow> (gerror option \<times> gerror option) \<times> 'w"
  no_change :: gerror

record ('f, 'src, 'm, 'w) migration_sources =
  iofs_new :: "'f \<Rightarrow> string \<Rightarrow> 'w \<Rightarrow> 'src result \<times> 'w"
  with_source :: "'src \<Rightarrow> string \<Rightarrow> 'w \<Rightarrow> 'm result \<times> 'w"
  source_close :: "'src \<Rightarrow> 'w \<Rightarrow> gerror option \<times> 'w"

record 'm runner =
  run_migrate :: 'm
  run_closed :: bool

definition NewRunner ::
  "('f, 'src, 'm, 'w) migration_sources \<Rightarrow> 'f option \<Rightarrow> string \<Rightarrow> string \<Rightarrow> 'w \<Rightarrow> 'm runner result \<times> 'w" where
  "NewRunner lib files path url w =
     (case files of None \<Rightarrow> (Inl (Plain ''migration filesystem is required''), w) | Some f \<Rightarrow>
      if path = [] \<or> url = [] then (Inl (Plain ''migration path and database URL are required''), w)
      else case iofs_new lib f path w of
          (Inl e, w1) \<Rightarrow> (Inl (Wrapf ''open embedded migrations'' e), w1)
        | (Inr src, w1) \<Rightarrow> (case with_source lib src url w1 of
            (Inl e, w2) \<Rightarrow> (Inl (Wrapf ''construct migrator'' e), snd (source_close lib src w2))
          | (Inr m, w2) \<Rightarrow> (Inr \<lparr>run_migrate = m, run_closed = False\<rparr>, w2)))"

subsection \<open>The operations under the mutex\<close>

definition Up :: "('m, 'w) migrator \<Rightarrow> 'm runner \<times> 'w \<Rightarrow> gerror option \<times> 'm runner \<times> 'w" where
  "Up lib = (\<lambda>(r, w).
     if run_closed r then (Some ErrClosed, r, w)
     else case mig_up lib (run_migrate r) w of
         (Some e, w') \<Rightarrow>
           (if \<not> errors_is e (no_change lib) then Some (Wrapf ''apply migrations'' e) else None, r, w')
       | (None, w') \<Rightarrow> (None, r, w'))"

definition Version :: "('m, 'w) migrator \<Rightarrow> 'm runner \<times> 'w \<Rightarrow> (nat \<times> bool) result \<times> 'm runner \<times> 'w" where
  "Version lib = (\<lambda>(r, w).
     if run_closed r then (Inl ErrClosed, r, w)
     else case mig_version lib (run_migrate r) w of
         (Inl e, w') \<Rightarrow> (Inl (Wrapf ''read migration version'' e), r, w')
       | (Inr v, w') \<Rightarrow> (Inr v, r, w'))"

definition Close :: "('m, 'w) migrator \<Rightarrow> 'm runner \<times> 'w \<Rightarrow> gerror option \<times> 'm runner \<times> 'w" where
  "Close lib = (\<lambda>(r, w).
     if run_closed r then (None, r, w)
     else case mig_close lib (run_migrate r) w of
         ((e1, e2), w') \<Rightarrow> (errors_join [e1, e2], r\<lparr>run_closed := True\<rparr>, w'))"

subsection \<open>Calls in sequence\<close>

text \<open>The mutex serialises the calls; what they do is decided by the order in which they got it.\<close>

datatype call = CallUp | CallVersion | CallClose

datatype answer = AnsweredUp "gerror option" | AnsweredVersion "(nat \<times> bool) result" | AnsweredClose "gerror option"

fun perform :: "('m, 'w) migrator \<Rightarrow> call \<Rightarrow> 'm runner \<times> 'w \<Rightarrow> answer \<times> 'm runner \<times> 'w" where
  "perform lib CallUp s = (case Up lib s of (r, s') \<Rightarrow> (AnsweredUp r, s'))"
| "perform lib CallVersion s = (case Version lib s of (r, s') \<Rightarrow> (AnsweredVersion r, s'))"
| "perform lib CallClose s = (case Close lib s of (r, s') \<Rightarrow> (AnsweredClose r, s'))"

fun run_calls :: "('m, 'w) migrator \<Rightarrow> call list \<Rightarrow> 'm runner \<times> 'w \<Rightarrow> answer list \<times> 'm runner \<times> 'w" where
  "run_calls lib [] s = ([], s)"
| "run_calls lib (c # cs) s =
     (case perform lib c s of (a, s') \<Rightarrow> (case run_calls lib cs s' of (as, s'') \<Rightarrow> (a # as, s'')))"

subsection \<open>Threads\<close>

text \<open>
  Where a thread is: outside, waiting for the mutex, behind \<open>Lock\<close>, past the check of the flag,
  past \<open>r.closed = true\<close>, and with its answer before the deferred \<open>Unlock\<close>.
\<close>

datatype phase = Outside | Wants call | Locked call | Open call | Marked | Leaving answer

text \<open>
  \<open>done\<close> lists the calls in the order in which they got their answers, \<open>reached\<close> the calls that
  reached the migrator.
\<close>

record ('m, 'w) shared =
  holder :: "nat option"
  runner_state :: "'m runner"
  world :: 'w
  phases :: "nat \<Rightarrow> phase"
  done_calls :: "(call \<times> answer) list"
  reached :: "call list"

fun closed_answer :: "call \<Rightarrow> answer" where
  "closed_answer CallUp = AnsweredUp (Some ErrClosed)"
| "closed_answer CallVersion = AnsweredVersion (Inl ErrClosed)"
| "closed_answer CallClose = AnsweredClose None"

definition up_answer :: "('m, 'w) migrator \<Rightarrow> gerror option \<Rightarrow> answer" where
  "up_answer lib e = AnsweredUp (case e of None \<Rightarrow> None
     | Some e \<Rightarrow> if \<not> errors_is e (no_change lib) then Some (Wrapf ''apply migrations'' e) else None)"

definition version_answer :: "(nat \<times> bool) result \<Rightarrow> answer" where
  "version_answer v = AnsweredVersion (case v of Inl e \<Rightarrow> Inl (Wrapf ''read migration version'' e) | Inr v \<Rightarrow> Inr v)"

definition at :: "nat \<Rightarrow> phase \<Rightarrow> ('m, 'w) shared \<Rightarrow> ('m, 'w) shared" where
  "at t p s = s\<lparr>phases := (phases s)(t := p)\<rparr>"

definition answered :: "nat \<Rightarrow> call \<Rightarrow> answer \<Rightarrow> ('m, 'w) shared \<Rightarrow> ('m, 'w) shared" where
  "answered t c a s = at t (Leaving a) (s\<lparr>done_calls := done_calls s @ [(c, a)]\<rparr>)"

inductive runner_step :: "('m, 'w) migrator \<Rightarrow> ('m, 'w) shared \<Rightarrow> ('m, 'w) shared \<Rightarrow> bool" for lib where
  begin_call: "phases s t = Outside \<Longrightarrow> runner_step lib s (at t (Wants c) s)"
| lock: "phases s t = Wants c \<Longrightarrow> holder s = None \<Longrightarrow> runner_step lib s (at t (Locked c) (s\<lparr>holder := Some t\<rparr>))"
| check_closed: "phases s t = Locked c \<Longrightarrow> run_closed (runner_state s) \<Longrightarrow>
    runner_step lib s (answered t c (closed_answer c) s)"
| check_open: "phases s t = Locked c \<Longrightarrow> \<not> run_closed (runner_state s) \<Longrightarrow> runner_step lib s (at t (Open c) s)"
| up: "phases s t = Open CallUp \<Longrightarrow> mig_up lib (run_migrate (runner_state s)) (world s) = (e, w) \<Longrightarrow>
    runner_step lib s (answered t CallUp (up_answer lib e) (s\<lparr>world := w, reached := reached s @ [CallUp]\<rparr>))"
| version: "phases s t = Open CallVersion \<Longrightarrow> mig_version lib (run_migrate (runner_state s)) (world s) = (v, w) \<Longrightarrow>
    runner_step lib s (answered t CallVersion (version_answer v) (s\<lparr>world := w, reached := reached s @ [CallVersion]\<rparr>))"
| mark: "phases s t = Open CallClose \<Longrightarrow>
    runner_step lib s (at t Marked (s\<lparr>runner_state := (runner_state s)\<lparr>run_closed := True\<rparr>\<rparr>))"
| close: "phases s t = Marked \<Longrightarrow> mig_close lib (run_migrate (runner_state s)) (world s) = ((e1, e2), w) \<Longrightarrow>
    runner_step lib s (answered t CallClose (AnsweredClose (errors_join [e1, e2]))
      (s\<lparr>world := w, reached := reached s @ [CallClose]\<rparr>))"
| unlock: "phases s t = Leaving a \<Longrightarrow> runner_step lib s (at t Outside (s\<lparr>holder := None\<rparr>))"

definition fresh :: "'m \<Rightarrow> 'w \<Rightarrow> ('m, 'w) shared" where
  "fresh m w = \<lparr>holder = None, runner_state = \<lparr>run_migrate = m, run_closed = False\<rparr>, world = w,
     phases = (\<lambda>t. Outside), done_calls = [], reached = []\<rparr>"

end
