(* ===== verification/Migration_Threads.thy ===== *)
theory Migration_Threads
  imports Migration_Runner
begin

section \<open>Runners shared by threads\<close>

text \<open>
  Every interleaving of calls on one runner is a sequence of whole calls, in the order in which
  the mutex let them through; the migrator is closed at most once and never used afterwards.
\<close>

subsection \<open>Calls in sequence\<close>

lemma run_calls_snoc:
  "run_calls lib (cs @ [c]) s =
     (case run_calls lib cs s of (as, s') \<Rightarrow> (case perform lib c s' of (a, s'') \<Rightarrow> (as @ [a], s'')))"
  by (induction cs arbitrary: s) (auto split: prod.splits)

lemma perform_closed: "run_closed r \<Longrightarrow> perform lib c (r, w) = (closed_answer c, r, w)"
  by (cases c) (simp_all add: Up_def Version_def Close_def)

lemma perform_up:
  "\<not> run_closed r \<Longrightarrow> mig_up lib (run_migrate r) w = (e, w') \<Longrightarrow> perform lib CallUp (r, w) = (up_answer lib e, r, w')"
  by (cases e) (simp_all add: Up_def up_answer_def)

lemma perform_version:
  "\<not> run_closed r \<Longrightarrow> mig_version lib (run_migrate r) w = (v, w') \<Longrightarrow>
     perform lib CallVersion (r, w) = (version_answer v, r, w')"
  by (cases v) (simp_all add: Version_def version_answer_def)

lemma perform_close:
  "\<not> run_closed r \<Longrightarrow> mig_close lib (run_migrate r) w = ((e1, e2), w') \<Longrightarrow>
     perform lib CallClose (r, w) = (AnsweredClose (errors_join [e1, e2]), r\<lparr>run_closed := True\<rparr>, w')"
  by (simp add: Close_def)

subsection \<open>The invariant\<close>

fun critical :: "phase \<Rightarrow> bool" where
  "critical Outside = False"
| "critical (Wants c) = False"
| "critical _ = True"

text \<open>The runner as it is between calls: a flag that is set before the call out does not count yet.\<close>

definition settled :: "('m, 'w) shared \<Rightarrow> 'm runner" where
  "settled s = (runner_state s)\<lparr>run_closed := run_closed (runner_state s) \<and> (\<forall>t. phases s t \<noteq> Marked)\<rparr>"

definition reached_ok :: "call list \<Rightarrow> bool \<Rightarrow> bool" where
  "reached_ok cs closed \<longleftrightarrow>
     (if closed then cs \<noteq> [] \<and> last cs = CallClose \<and> CallClose \<notin> set (butlast cs) else CallClose \<notin> set cs)"

definition runner_inv :: "('m, 'w) migrator \<Rightarrow> 'm \<Rightarrow> 'w \<Rightarrow> ('m, 'w) shared \<Rightarrow> bool" where
  "runner_inv lib m w0 s \<longleftrightarrow>
     (\<forall>t. critical (phases s t) \<longleftrightarrow> holder s = Some t) \<and>
     (\<forall>t c. phases s t = Open c \<longrightarrow> \<not> run_closed (runner_state s)) \<and>
     (\<forall>t. phases s t = Marked \<longrightarrow> run_closed (runner_state s)) \<and>
     run_calls lib (map fst (done_calls s)) (\<lparr>run_migrate = m, run_closed = False\<rparr>, w0) =
       (map snd (done_calls s), settled s, world s) \<and>
     reached_ok (reached s) (run_closed (settled s))"

lemma settled_alone:
  assumes "\<forall>t. critical (phases s t) \<longleftrightarrow> holder s = Some t" and "holder s = Some t"
  shows "settled s = (runner_state s)\<lparr>run_closed := run_closed (runner_state s) \<and> phases s t \<noteq> Marked\<rparr>"
proof -
  have "phases s u = Marked \<Longrightarrow> u = t" for u using assms by (metis critical.simps(5) option.inject)
  then show ?thesis unfolding settled_def by metis
qed

lemma fresh_inv: "runner_inv lib m w0 (fresh m w0)"
  by (simp add: runner_inv_def fresh_def settled_def reached_ok_def)

text \<open>The step in which a call gets its answer performs it.\<close>

lemma answered_inv:
  assumes "runner_inv lib m w0 s" and "holder s = Some t" and "c' = c"
    and "perform lib c (settled s, world s) = (a, r, w)"
    and "runner_state s' = r" and "world s' = w" and "phases s' = phases s" and "holder s' = holder s"
    and "done_calls s' = done_calls s" and "reached_ok (reached s') (run_closed r)"
  shows "runner_inv lib m w0 (answered t c' a s')"
proof -
  note inv = assms(1) [unfolded runner_inv_def]
  let ?s = "answered t c a s'"
  have ph: "phases ?s = (phases s)(t := Leaving a)" by (simp add: answered_def at_def assms(7))
  have fields: "holder ?s = Some t" "runner_state ?s = r" "world ?s = w" "reached ?s = reached s'"
    "done_calls ?s = done_calls s @ [(c, a)]"
    using assms(2,5,6,8,9) by (simp_all add: answered_def at_def)
  have crit: "\<forall>u. critical (phases ?s u) \<longleftrightarrow> holder ?s = Some u" using inv assms(2) by (auto simp: ph fields)
  then have set: "settled ?s = r" using settled_alone [OF crit, of t] by (simp add: fields ph)
  have others: "phases s u = p \<Longrightarrow> critical p \<Longrightarrow> u = t" for u p using inv assms(2) by (metis option.inject)
  have "\<forall>u c. phases ?s u \<noteq> Open c" "\<forall>u. phases ?s u \<noteq> Marked" using others by (auto simp: ph)
  with crit set inv assms(4,10) show ?thesis
    unfolding runner_inv_def assms(3) by (simp add: fields run_calls_snoc)
qed

text \<open>A step that only moves a thread, or sets the flag, and leaves the settled runner as it is.\<close>

lemma moved_inv:
  assumes "runner_inv lib m w0 s"
    and "\<forall>u. critical (phases s' u) \<longleftrightarrow> holder s' = Some u"
    and "\<forall>u c. phases s' u = Open c \<longrightarrow> \<not> run_closed (runner_state s')"
    and "\<forall>u. phases s' u = Marked \<longrightarrow> run_closed (runner_state s')"
    and "settled s' = settled s" and "world s' = world s" and "done_calls s' = done_calls s" and "reached s' = reached s"
  shows "runner_inv lib m w0 s'"
  using assms unfolding runner_inv_def by simp

lemma settled_at: "phases s t \<noteq> Marked \<Longrightarrow> p \<noteq> Marked \<Longrightarrow> settled (at t p s) = settled s"
proof -
  assume "phases s t \<noteq> Marked" "p \<noteq> Marked"
  then have "(\<forall>u. ((phases s)(t := p)) u \<noteq> Marked) = (\<forall>u. phases s u \<noteq> Marked)" by (metis fun_upd_apply)
  then show ?thesis by (simp add: settled_def at_def)
qed

lemma at_simps [simp]: "phases (at t p s) = (phases s)(t := p)" "holder (at t p s) = holder s"
  "runner_state (at t p s) = runner_state s" "world (at t p s) = world s" "done_calls (at t p s) = done_calls s"
  "reached (at t p s) = reached s"
  by (simp_all add: at_def)

lemma settled_holder [simp]: "settled (s\<lparr>holder := h\<rparr>) = settled s"
  by (simp add: settled_def)

lemma inv_outside:
  assumes "runner_inv lib m w0 s" and "\<not> critical (phases s t)"
  shows "holder s \<noteq> Some t"
  using assms by (auto simp: runner_inv_def)

lemma inv_holder:
  assumes "runner_inv lib m w0 s" and "critical (phases s t)"
  shows "holder s = Some t" and "settled s = (runner_state s)\<lparr>run_closed := run_closed (runner_state s) \<and> phases s t \<noteq> Marked\<rparr>"
    and "\<And>u. critical (phases s u) \<Longrightarrow> u = t"
proof -
  have crit: "\<forall>t. critical (phases s t) \<longleftrightarrow> holder s = Some t" using assms(1) by (simp add: runner_inv_def)
  then show h: "holder s = Some t" using assms(2) by simp
  show "settled s = (runner_state s)\<lparr>run_closed := run_closed (runner_state s) \<and> phases s t \<noteq> Marked\<rparr>"
    by (rule settled_alone [OF crit h])
  show "\<And>u. critical (phases s u) \<Longrightarrow> u = t" using crit h by auto
qed

lemma runner_step_inv:
  assumes "runner_inv lib m w0 s" and "runner_step lib s s'"
  shows "runner_inv lib m w0 s'"
proof -
  note inv = assms(1) [unfolded runner_inv_def]
  have ok: "reached_ok (reached s) (run_closed (settled s))" using inv by simp
  from assms(2) show ?thesis
  proof cases
    case (begin_call t c)
    show ?thesis unfolding begin_call
      by (rule moved_inv [OF assms(1)])
        (use inv begin_call inv_outside [OF assms(1), of t] in \<open>auto simp: settled_at\<close>)
  next
    case (lock t c)
    show ?thesis unfolding lock
      by (rule moved_inv [OF assms(1)]) (use inv lock in \<open>auto simp: settled_at\<close>)
  next
    case (check_closed t c)
    note own = inv_holder [OF assms(1), of t]
    have r: "settled s = runner_state s" using own(2) check_closed by simp
    show ?thesis unfolding check_closed(1)
      by (rule answered_inv [OF assms(1), where r = "runner_state s" and w = "world s"])
        (use own(1) check_closed ok in \<open>simp_all add: r perform_closed\<close>)
  next
    case (check_open t c)
    note own = inv_holder [OF assms(1), of t]
    show ?thesis unfolding check_open
      by (rule moved_inv [OF assms(1)]) (use inv check_open own(1) in \<open>auto simp: settled_at\<close>)
  next
    case (up t e w)
    note own = inv_holder [OF assms(1), of t]
    have open': "\<not> run_closed (runner_state s)" using inv up by blast
    have r: "settled s = runner_state s" using own(2) up open' by simp
    show ?thesis unfolding up(1)
      by (rule answered_inv [OF assms(1), where r = "runner_state s" and w = w])
        (use own(1) up(2) ok open' perform_up [OF open' up(3)] in \<open>simp_all del: perform.simps add: r reached_ok_def\<close>)
  next
    case (version t v w)
    note own = inv_holder [OF assms(1), of t]
    have open': "\<not> run_closed (runner_state s)" using inv version by blast
    have r: "settled s = runner_state s" using own(2) version open' by simp
    show ?thesis unfolding version(1)
      by (rule answered_inv [OF assms(1), where r = "runner_state s" and w = w])
        (use own(1) version(2) ok open' perform_version [OF open' version(3)] in \<open>simp_all del: perform.simps add: r reached_ok_def\<close>)
  next
    case (mark t)
    note own = inv_holder [OF assms(1), of t]
    have open': "\<not> run_closed (runner_state s)" using inv mark by blast
    show ?thesis unfolding mark
      by (rule moved_inv [OF assms(1)]) (use inv mark own open' in \<open>auto simp: at_def settled_def\<close>)
  next
    case (close t e1 e2 w)
    note own = inv_holder [OF assms(1), of t]
    have closed: "run_closed (runner_state s)" using inv close by blast
    have r: "settled s = (runner_state s)\<lparr>run_closed := False\<rparr>" using own(2) close by simp
    have same: "settled s\<lparr>run_closed := True\<rparr> = runner_state s" using closed by (simp add: r)
    have open': "\<not> run_closed (settled s)" by (simp add: r)
    have "mig_close lib (run_migrate (settled s)) (world s) = ((e1, e2), w)"
      using close(3) by (simp_all add: r)
    from perform_close [OF open' this, unfolded same] show ?thesis unfolding close(1)
      by (intro answered_inv [OF assms(1), where r = "runner_state s" and w = w])
        (use own(1) close(2) ok open' closed in \<open>simp_all del: perform.simps add: reached_ok_def\<close>)
  next
    case (unlock t a)
    note own = inv_holder [OF assms(1), of t]
    show ?thesis unfolding unlock
      by (rule moved_inv [OF assms(1)]) (use inv unlock own(1) in \<open>auto simp: settled_at\<close>)
  qed
qed

lemma reachable_inv: "(runner_step lib)\<^sup>*\<^sup>* (fresh m w0) s \<Longrightarrow> runner_inv lib m w0 s"
  by (induction rule: rtranclp_induct) (auto intro: fresh_inv runner_step_inv)

subsection \<open>Properties\<close>

text \<open>
  C19. Any number of threads share a runner safely: in every state they can reach, the answers given
  so far, the runner's flag and the outside world are those of performing the same calls one
  after the other, in the order in which the mutex let them through.
\<close>

theorem runner_linearizes:
  assumes "(runner_step lib)\<^sup>*\<^sup>* (fresh m w0) s"
  shows "run_calls lib (map fst (done_calls s)) (\<lparr>run_migrate = m, run_closed = False\<rparr>, w0) =
    (map snd (done_calls s), settled s, world s)"
  using reachable_inv [OF assms] by (simp add: runner_inv_def)

lemma run_calls_closed:
  "run_closed r \<Longrightarrow> run_calls lib cs (r, w) = (map closed_answer cs, r, w)"
  by (induction cs) (simp_all add: perform_closed del: perform.simps)

lemma run_calls_append:
  "run_calls lib (cs @ ds) s =
     (case run_calls lib cs s of (as, s') \<Rightarrow> (case run_calls lib ds s' of (bs, s'') \<Rightarrow> (as @ bs, s'')))"
  by (induction cs arbitrary: s) (auto split: prod.splits)

lemma close_closes: "perform lib CallClose (r, w) = (a, r', w') \<Longrightarrow> run_closed r'"
  by (auto simp: Close_def split: if_splits prod.splits)

lemma run_calls_after_close:
  assumes "run_calls lib (pre @ CallClose # post) s = (bs, s')" and "length as = length pre" and "bs = as @ a # cs"
  shows "cs = map closed_answer post"
proof -
  obtain as' r w where pre: "run_calls lib pre s = (as', r, w)" by (metis prod_cases3)
  obtain a' r' w' where cl: "perform lib CallClose (r, w) = (a', r', w')" by (metis prod_cases3)
  have "bs = as' @ a' # map closed_answer post"
    using assms(1) run_calls_closed [OF close_closes [OF cl], of lib post w'] pre cl
    by (simp add: run_calls_append del: perform.simps)
  moreover have "length as' = length pre" using pre by (induction pre arbitrary: as' s r w) (auto split: prod.splits)
  ultimately show ?thesis using assms(2,3) by simp
qed

text \<open>
  C37. A closed runner is dead: once a \<open>Close\<close> got its answer, every later \<open>Up\<close> and \<open>Version\<close> is answered
  with \<open>ErrClosed\<close> and every later \<open>Close\<close> with success, and the migrator is closed at most once,
  as the last thing that reaches it.
\<close>

theorem closed_runner_is_dead:
  assumes "(runner_step lib)\<^sup>*\<^sup>* (fresh m w0) s" and "done_calls s = pre @ (CallClose, a) # post"
  shows "map snd post = map closed_answer (map fst post) \<and> CallClose \<notin> set (butlast (reached s))"
proof -
  note inv = reachable_inv [OF assms(1), unfolded runner_inv_def]
  have "map snd post = map closed_answer (map fst post)"
    by (rule run_calls_after_close [where lib = lib and pre = "map fst pre" and as = "map snd pre" and a = a
          and s = "(\<lparr>run_migrate = m, run_closed = False\<rparr>, w0)" and s' = "(settled s, world s)"])
      (use inv assms(2) in simp_all)
  moreover have "CallClose \<notin> set (butlast (reached s))"
    using inv by (auto simp: reached_ok_def split: if_splits dest: in_set_butlastD)
  ultimately show ?thesis by simp
qed

definition demo_migrator :: "(unit, nat) migrator" where
  "demo_migrator = \<lparr>mig_up = (\<lambda>m w. (None, Suc w)), mig_version = (\<lambda>m w. (Inr (w, False), w)),
     mig_close = (\<lambda>m w. ((None, None), w)), no_change = Sentinel ''no change''\<rparr>"

text \<open>A thread closes the runner, then another one asks for migrations.\<close>

lemma demo_history:
  "\<exists>s. (runner_step demo_migrator)\<^sup>*\<^sup>* (fresh () 0) s \<and>
     done_calls s = [(CallClose, AnsweredClose None), (CallUp, AnsweredUp (Some ErrClosed))]"
proof -
  let ?R = "(runner_step demo_migrator)\<^sup>*\<^sup>* (fresh () 0)"
  note go = rtranclp.rtrancl_into_rtrancl [of "runner_step demo_migrator" "fresh () 0"]
  define s1 where "s1 = at 0 (Wants CallClose) (fresh () (0 :: nat))"
  define s2 where "s2 = at 0 (Locked CallClose) (s1\<lparr>holder := Some 0\<rparr>)"
  define s3 where "s3 = at 0 (Open CallClose) s2"
  define s4 where "s4 = at 0 Marked (s3\<lparr>runner_state := (runner_state s3)\<lparr>run_closed := True\<rparr>\<rparr>)"
  define s5 where "s5 = answered 0 CallClose (AnsweredClose (errors_join [None, None]))
    (s4\<lparr>world := 0, reached := reached s4 @ [CallClose]\<rparr>)"
  define s6 where "s6 = at 0 Outside (s5\<lparr>holder := None\<rparr>)"
  define s7 where "s7 = at 1 (Wants CallUp) s6"
  define s8 where "s8 = at 1 (Locked CallUp) (s7\<lparr>holder := Some 1\<rparr>)"
  define s9 where "s9 = answered 1 CallUp (closed_answer CallUp) s8"
  have "runner_step demo_migrator (fresh () 0) s1" unfolding s1_def by (rule begin_call) (simp add: fresh_def)
  then have 1: "?R s1" by (rule r_into_rtranclp)
  have 2: "?R s2" by (rule go [OF 1]) (unfold s2_def, rule lock, simp_all add: s1_def fresh_def)
  have 3: "?R s3" by (rule go [OF 2]) (unfold s3_def, rule check_open, simp_all add: s2_def s1_def fresh_def)
  have 4: "?R s4" by (rule go [OF 3]) (unfold s4_def, rule mark, simp add: s3_def)
  have 5: "?R s5"
    by (rule go [OF 4], unfold s5_def, rule close) (simp_all add: s4_def s3_def s2_def s1_def fresh_def demo_migrator_def)
  have 6: "?R s6" by (rule go [OF 5], unfold s6_def, rule unlock) (simp add: s5_def answered_def)
  have 7: "?R s7"
    by (rule go [OF 6], unfold s7_def, rule begin_call)
      (simp add: s6_def s5_def s4_def s3_def s2_def s1_def fresh_def answered_def)
  have 8: "?R s8" by (rule go [OF 7], unfold s8_def, rule lock) (simp_all add: s7_def s6_def)
  have 9: "?R s9"
    by (rule go [OF 8], unfold s9_def, rule check_closed)
      (simp_all add: s8_def s7_def s6_def s5_def s4_def answered_def)
  have "done_calls s9 = [(CallClose, AnsweredClose None), (CallUp, AnsweredUp (Some ErrClosed))]"
    by (simp add: s9_def s8_def s7_def s6_def s5_def s4_def s3_def s2_def s1_def fresh_def answered_def)
  with 9 show ?thesis by blast
qed

theorem runner_linearizes_witness:
  "\<exists>s. done_calls s = [(CallClose, AnsweredClose None), (CallUp, AnsweredUp (Some ErrClosed))] \<and>
     run_calls demo_migrator [CallClose, CallUp] (\<lparr>run_migrate = (), run_closed = False\<rparr>, 0) =
       ([AnsweredClose None, AnsweredUp (Some ErrClosed)], settled s, world s)"
  using demo_history runner_linearizes [of demo_migrator "()" 0] by fastforce

theorem closed_runner_is_dead_witness:
  "\<exists>s. (runner_step demo_migrator)\<^sup>*\<^sup>* (fresh () 0) s \<and> done_calls s \<noteq> [] \<and> CallClose \<notin> set (butlast (reached s))"
proof -
  obtain s where s: "(runner_step demo_migrator)\<^sup>*\<^sup>* (fresh () 0) s"
    "done_calls s = [] @ (CallClose, AnsweredClose None) # [(CallUp, AnsweredUp (Some ErrClosed))]"
    using demo_history by auto
  from closed_runner_is_dead [OF s] s show ?thesis by auto
qed

end
