(* ===== verification/Service_Base.thy ===== *)
theory Service_Base
  imports Go_Base
begin

section \<open>Services in front of a store\<close>

text \<open>
  Packages \<open>group\<close>, \<open>faq\<close> and \<open>member\<close> check and normalise their input before they call a store
  of the application. The store is a parameter of every operation; what the operations share
  is the interface \<open>validated\<close>.
\<close>

text \<open>Text as a service hands it on: not blank, without space at its ends, at most so many runes.\<close>

definition tidy :: "nat \<Rightarrow> string \<Rightarrow> bool" where
  "tidy n t \<longleftrightarrow> t \<noteq> [] \<and> trim_space t = t \<and> rune_count t \<le> n"

lemma tidy_trim: "tidy n (trim_space t) \<longleftrightarrow> trim_space t \<noteq> [] \<and> \<not> n < rune_count (trim_space t)"
  by (auto simp: tidy_def)

locale validated =
  fixes operation :: "('i \<Rightarrow> 's \<Rightarrow> 'r \<times> 's) \<Rightarrow> 'i \<Rightarrow> 's \<Rightarrow> 'r \<times> 's"
    and admissible :: "'i \<Rightarrow> bool"
    and normal :: "'i \<Rightarrow> 'i"
    and refusal :: 'r
  assumes shape: "operation call i s = (if admissible i then call (normal i) s else (refusal, s))"
    and normal_admissible: "admissible (normal i) = admissible i"
    and normal_normal: "normal (normal i) = normal i"
begin

lemma refused: "\<not> admissible i \<Longrightarrow> operation call i s = (refusal, s)"
  by (simp add: shape)

text \<open>Space around the input makes no difference.\<close>

lemma padding: "operation call (normal i) s = operation call i s"
  by (simp add: shape normal_admissible normal_normal)

text \<open>The store only sees admissible, normalised input.\<close>

lemma only_normal:
  assumes "\<And>i s. admissible i \<Longrightarrow> normal i = i \<Longrightarrow> call i s = other i s"
  shows "operation call = operation other"
proof (intro ext)
  fix i s
  show "operation call i s = operation other i s"
    using assms [of "normal i" s] by (simp add: shape normal_admissible normal_normal)
qed

end

end
