(* ===== verification/Group_Service.thy ===== *)
theory Group_Service
  imports Service_Base
begin

section \<open>Package group: membership workflows\<close>

text \<open>The service of \<open>group/group.go\<close> over the application's store, whose state is \<open>'s\<close>.\<close>

definition ErrInvalidInput :: gerror where
  "ErrInvalidInput = Sentinel ''group: invalid input''"

record 's group_store =
  store_create :: "string \<Rightarrow> string \<Rightarrow> string \<Rightarrow> 's \<Rightarrow> string result \<times> 's"
  store_join :: "string \<Rightarrow> string \<Rightarrow> 's \<Rightarrow> gerror option \<times> 's"
  store_leave :: "string \<Rightarrow> string \<Rightarrow> 's \<Rightarrow> gerror option \<times> 's"

definition NewGroups :: "'s group_store option \<Rightarrow> 's group_store result" where
  "NewGroups store = (case store of None \<Rightarrow> Inl ErrInvalidInput | Some st \<Rightarrow> Inr st)"

definition CreateGroup :: "'s group_store \<Rightarrow> string \<Rightarrow> string \<Rightarrow> string \<Rightarrow> 's \<Rightarrow> string result \<times> 's" where
  "CreateGroup svc creator name0 description0 s =
     (let name = trim_space name0; description = trim_space description0 in
      if creator = [] \<or> name = [] \<or> description = [] \<or> rune_count name > 100 \<or> rune_count description > 500
      then (Inl ErrInvalidInput, s) else store_create svc creator name description s)"

definition JoinGroup :: "'s group_store \<Rightarrow> string \<Rightarrow> string \<Rightarrow> 's \<Rightarrow> gerror option \<times> 's" where
  "JoinGroup svc group_id member_id s =
     (if group_id = [] \<or> member_id = [] then (Some ErrInvalidInput, s) else store_join svc group_id member_id s)"

definition LeaveGroup :: "'s group_store \<Rightarrow> string \<Rightarrow> string \<Rightarrow> 's \<Rightarrow> gerror option \<times> 's" where
  "LeaveGroup svc group_id member_id s =
     (if group_id = [] \<or> member_id = [] then (Some ErrInvalidInput, s) else store_leave svc group_id member_id s)"

subsection \<open>The operations as validated calls\<close>

definition create_via ::
  "(string \<times> string \<times> string \<Rightarrow> 's \<Rightarrow> string result \<times> 's) \<Rightarrow> string \<times> string \<times> string \<Rightarrow> 's \<Rightarrow> string result \<times> 's" where
  "create_via call i s = CreateGroup \<lparr>store_create = (\<lambda>c n d. call (c, n, d)), store_join = (\<lambda>g m s. (None, s)),
     store_leave = (\<lambda>g m s. (None, s))\<rparr> (fst i) (fst (snd i)) (snd (snd i)) s"

definition member_via ::
  "(string \<times> string \<Rightarrow> 's \<Rightarrow> gerror option \<times> 's) \<Rightarrow> string \<times> string \<Rightarrow> 's \<Rightarrow> gerror option \<times> 's" where
  "member_via call i s = JoinGroup \<lparr>store_create = (\<lambda>c n d s. (Inr [], s)), store_join = (\<lambda>g m. call (g, m)),
     store_leave = (\<lambda>g m s. (None, s))\<rparr> (fst i) (snd i) s"

interpretation create: validated create_via
  "\<lambda>(c, n, d). c \<noteq> [] \<and> tidy 100 (trim_space n) \<and> tidy 500 (trim_space d)"
  "\<lambda>(c, n, d). (c, trim_space n, trim_space d)" "Inl ErrInvalidInput"
  by unfold_locales (auto simp: create_via_def CreateGroup_def Let_def tidy_trim split: prod.splits)

interpretation membership: validated member_via "\<lambda>(g, m). g \<noteq> [] \<and> m \<noteq> []" id "Some ErrInvalidInput"
  by unfold_locales (auto simp: member_via_def JoinGroup_def split: prod.splits)

lemma create_group_via:
  "CreateGroup svc c n d s = create_via (\<lambda>(c, n, d). store_create svc c n d) (c, n, d) s"
  by (simp add: create_via_def CreateGroup_def Let_def)

lemma membership_via:
  "JoinGroup svc g m s = member_via (\<lambda>(g, m). store_join svc g m) (g, m) s"
  "LeaveGroup svc g m s = member_via (\<lambda>(g, m). store_leave svc g m) (g, m) s"
  by (simp_all add: member_via_def JoinGroup_def LeaveGroup_def)

text \<open>
  C28. The store of the groups only ever sees valid input: two stores that agree on calls with a
  creator, a name of at most 100 and a description of at most 500 runes, both trimmed and not
  blank, and on memberships with both ids, behave the same behind the service, whatever the
  service is called with.
\<close>

theorem group_store_sees_valid_input:
  assumes "\<And>c n d s. c \<noteq> [] \<Longrightarrow> tidy 100 n \<Longrightarrow> tidy 500 d \<Longrightarrow> store_create st c n d s = store_create st' c n d s"
    and "\<And>g m s. g \<noteq> [] \<Longrightarrow> m \<noteq> [] \<Longrightarrow> store_join st g m s = store_join st' g m s"
    and "\<And>g m s. g \<noteq> [] \<Longrightarrow> m \<noteq> [] \<Longrightarrow> store_leave st g m s = store_leave st' g m s"
  shows "CreateGroup st = CreateGroup st' \<and> JoinGroup st = JoinGroup st' \<and> LeaveGroup st = LeaveGroup st'"
proof -
  have "create_via (\<lambda>(c, n, d). store_create st c n d) = create_via (\<lambda>(c, n, d). store_create st' c n d)"
    by (rule create.only_normal) (auto simp: tidy_def intro!: assms(1) split: prod.splits)
  moreover have "member_via (\<lambda>(g, m). store_join st g m) = member_via (\<lambda>(g, m). store_join st' g m)"
    "member_via (\<lambda>(g, m). store_leave st g m) = member_via (\<lambda>(g, m). store_leave st' g m)"
    by (rule membership.only_normal; use assms(2,3) in auto)+
  ultimately show ?thesis by (simp add: fun_eq_iff create_group_via membership_via)
qed

text \<open>Two stores that keep the names of their groups; the second one would also keep blank names.\<close>

definition demo_store :: "string list group_store" where
  "demo_store = \<lparr>store_create = (\<lambda>c n d s. if n = [] then (Inl (External ''blank''), s) else (Inr n, n # s)),
     store_join = (\<lambda>g m s. (None, s)), store_leave = (\<lambda>g m s. (None, s))\<rparr>"

definition lax_store :: "string list group_store" where
  "lax_store = demo_store\<lparr>store_create := (\<lambda>c n d s. (Inr n, n # s))\<rparr>"

theorem group_store_sees_valid_input_witness:
  "CreateGroup demo_store ''ann'' [] ''about'' [''first''] = CreateGroup lax_store ''ann'' [] ''about'' [''first'']"
proof -
  have "CreateGroup demo_store = CreateGroup lax_store \<and> JoinGroup demo_store = JoinGroup lax_store \<and>
      LeaveGroup demo_store = LeaveGroup lax_store"
    by (rule group_store_sees_valid_input) (simp_all add: demo_store_def lax_store_def tidy_def)
  then show ?thesis by simp
qed

end
