(* ===== verification/Faq_Service.thy ===== *)
theory Faq_Service
  imports Service_Base
begin

section \<open>Package faq: question-and-answer workflows\<close>

text \<open>
  The service of \<open>faq/faq.go\<close> over the application's store, a parameter of which nothing is
  assumed. What the service adds is shown by comparing stores: two that agree on valid calls
  cannot be told apart behind it.
\<close>

definition ErrInvalid :: gerror where
  "ErrInvalid = Sentinel ''faq: invalid question, answer, or search''"

definition ErrMissing :: gerror where
  "ErrMissing = Sentinel ''faq: entry not found''"

record entry =
  ID :: string
  Question :: string
  Answer :: string
  Published :: bool
  UpdatedAt :: int

record 's faq_store =
  list_published :: "string \<Rightarrow> 's \<Rightarrow> entry list result \<times> 's"
  list_all_entries :: "'s \<Rightarrow> entry list result \<times> 's"
  find_entry :: "string \<Rightarrow> 's \<Rightarrow> entry result \<times> 's"
  create_entry :: "entry \<Rightarrow> 's \<Rightarrow> string result \<times> 's"
  update_entry :: "entry \<Rightarrow> 's \<Rightarrow> bool result \<times> 's"
  delete_entry :: "string \<Rightarrow> 's \<Rightarrow> bool result \<times> 's"

subsection \<open>Operations\<close>

definition NewFaq :: "'s faq_store option \<Rightarrow> 's faq_store result" where
  "NewFaq store = (case store of None \<Rightarrow> Inl ErrInvalid | Some st \<Rightarrow> Inr st)"

definition Search :: "'s faq_store \<Rightarrow> string \<Rightarrow> 's \<Rightarrow> entry list result \<times> 's" where
  "Search svc text0 s = (let t = trim_space text0 in
     if rune_count t > 100 then (Inl ErrInvalid, s) else list_published svc t s)"

definition AllEntries :: "'s faq_store \<Rightarrow> 's \<Rightarrow> entry list result \<times> 's" where
  "AllEntries svc s = list_all_entries svc s"

definition ByID :: "'s faq_store \<Rightarrow> string \<Rightarrow> 's \<Rightarrow> entry result \<times> 's" where
  "ByID svc key s = (if key = [] then (Inl ErrInvalid, s) else find_entry svc key s)"

definition Save :: "'s faq_store \<Rightarrow> entry \<Rightarrow> 's \<Rightarrow> string result \<times> 's" where
  "Save svc entry0 s =
     (let e = entry0\<lparr>Question := trim_space (Question entry0), Answer := trim_space (Answer entry0)\<rparr> in
      if Question e = [] \<or> Answer e = [] \<or> rune_count (Question e) > 200 \<or> rune_count (Answer e) > 8000
      then (Inl ErrInvalid, s)
      else if ID e = [] then create_entry svc e s
      else case update_entry svc e s of
          (Inl err, s') \<Rightarrow> (Inl err, s')
        | (Inr changed, s') \<Rightarrow> if \<not> changed then (Inl ErrMissing, s') else (Inr (ID e), s'))"

definition Delete :: "'s faq_store \<Rightarrow> string \<Rightarrow> 's \<Rightarrow> gerror option \<times> 's" where
  "Delete svc key s =
     (if key = [] then (Some ErrInvalid, s)
      else case delete_entry svc key s of
          (Inl err, s') \<Rightarrow> (Some err, s')
        | (Inr changed, s') \<Rightarrow> if \<not> changed then (Some ErrMissing, s') else (None, s'))"

subsection \<open>Calls as values\<close>

datatype faq_request =
    AskSearch string
  | AskAll
  | AskByID string
  | AskSave entry
  | AskDelete string

datatype faq_answer =
    Entries "entry list result"
  | Found "entry result"
  | Saved "string result"
  | Deleted "gerror option"

fun faq_call :: "'s faq_store \<Rightarrow> faq_request \<Rightarrow> 's \<Rightarrow> faq_answer \<times> 's" where
  "faq_call svc (AskSearch t) s = map_prod Entries id (Search svc t s)"
| "faq_call svc AskAll s = map_prod Entries id (AllEntries svc s)"
| "faq_call svc (AskByID key) s = map_prod Found id (ByID svc key s)"
| "faq_call svc (AskSave e) s = map_prod Saved id (Save svc e s)"
| "faq_call svc (AskDelete key) s = map_prod Deleted id (Delete svc key s)"

fun faq_run :: "'s faq_store \<Rightarrow> faq_request list \<Rightarrow> 's \<Rightarrow> faq_answer list \<times> 's" where
  "faq_run svc [] s = ([], s)"
| "faq_run svc (q # qs) s =
     (let (a, s1) = faq_call svc q s; (as, s2) = faq_run svc qs s1 in (a # as, s2))"

subsection \<open>Valid calls of a store\<close>

definition valid_entry :: "entry \<Rightarrow> bool" where
  "valid_entry e \<longleftrightarrow> tidy 200 (Question e) \<and> tidy 8000 (Answer e)"

text \<open>
  Two stores that may differ in every call the service must not make: on entries with blank,
  untrimmed or too long texts, on the creation of an entry that has an identity and the update of one
  that has none, on blank identities, on untrimmed or too long search texts.
\<close>

definition faq_agree :: "'s faq_store \<Rightarrow> 's faq_store \<Rightarrow> bool" where
  "faq_agree st st' \<longleftrightarrow>
     (\<forall>t. trim_space t = t \<longrightarrow> rune_count t \<le> 100 \<longrightarrow> list_published st t = list_published st' t) \<and>
     list_all_entries st = list_all_entries st' \<and>
     (\<forall>key. key \<noteq> [] \<longrightarrow> find_entry st key = find_entry st' key \<and> delete_entry st key = delete_entry st' key) \<and>
     (\<forall>e. valid_entry e \<longrightarrow> ID e = [] \<longrightarrow> create_entry st e = create_entry st' e) \<and>
     (\<forall>e. valid_entry e \<longrightarrow> ID e \<noteq> [] \<longrightarrow> update_entry st e = update_entry st' e)"

definition tidied :: "entry \<Rightarrow> entry" where
  "tidied e = e\<lparr>Question := trim_space (Question e), Answer := trim_space (Answer e)\<rparr>"

lemma ID_tidied [simp]: "ID (tidied e) = ID e"
  by (simp add: tidied_def)

lemma Save_tidied:
  "Save svc e s =
     (if \<not> valid_entry (tidied e) then (Inl ErrInvalid, s)
      else if ID e = [] then create_entry svc (tidied e) s
      else case update_entry svc (tidied e) s of
          (Inl err, s') \<Rightarrow> (Inl err, s')
        | (Inr changed, s') \<Rightarrow> if \<not> changed then (Inl ErrMissing, s') else (Inr (ID e), s'))"
  by (auto simp: Save_def valid_entry_def tidied_def tidy_trim Let_def split: prod.splits sum.splits)

text \<open>A search is a validated call: trimmed, and refused beyond 100 runes.\<close>

definition search_via ::
  "(string \<Rightarrow> 's \<Rightarrow> entry list result \<times> 's) \<Rightarrow> string \<Rightarrow> 's \<Rightarrow> entry list result \<times> 's" where
  "search_via call t s = Search \<lparr>list_published = call, list_all_entries = (\<lambda>s. (Inr [], s)),
     find_entry = (\<lambda>key s. (Inl ErrMissing, s)), create_entry = (\<lambda>e s. (Inl ErrInvalid, s)),
     update_entry = (\<lambda>e s. (Inr False, s)), delete_entry = (\<lambda>key s. (Inr False, s))\<rparr> t s"

interpretation search: validated search_via "\<lambda>t. \<not> rune_count (trim_space t) > 100" trim_space "Inl ErrInvalid"
  by unfold_locales (auto simp: search_via_def Search_def Let_def)

lemma Search_via: "Search svc t s = search_via (list_published svc) t s"
  by (simp add: search_via_def Search_def Let_def)

lemma search_agrees:
  assumes "faq_agree st st'"
  shows "Search st = Search st'"
proof -
  have "search_via (list_published st) = search_via (list_published st')"
    by (rule search.only_normal) (metis assms faq_agree_def not_less)
  then show ?thesis by (simp add: fun_eq_iff Search_via)
qed

lemma save_agrees: "faq_agree st st' \<Longrightarrow> Save st e s = Save st' e s"
  by (simp add: Save_tidied faq_agree_def)

lemma faq_call_agrees:
  assumes "faq_agree st st'"
  shows "faq_call st q s = faq_call st' q s"
proof (cases q)
  case (AskSearch t)
  then show ?thesis by (simp add: search_agrees [OF assms])
next
  case (AskSave e)
  then show ?thesis by (simp add: save_agrees [OF assms])
qed (use assms in \<open>simp_all add: faq_agree_def AllEntries_def ByID_def Delete_def\<close>)

lemma faq_run_agrees: "faq_agree st st' \<Longrightarrow> faq_run st qs s = faq_run st' qs s"
  by (induction qs arbitrary: s) (simp_all add: faq_call_agrees)

text \<open>
  C30. The store only ever sees valid calls, and readers only the published listing. Over any history
  of calls of the service, two stores give the same answers and end in the same state when
  they agree on trimmed searches of at most 100 runes, on identities that are not blank, on creating entries
  without and updating entries with an identity, both with a trimmed question of 1 to 200
  and answer of 1 to 8000 runes. And whatever the rest of a store does, a search gives what
  the published listing gives: replacing every other operation makes no difference to it.
\<close>

theorem faq_store_confined:
  assumes "faq_agree st st'"
  shows "faq_run st qs s = faq_run st' qs s \<and>
    faq_call st (AskSearch t) s = faq_call (other\<lparr>list_published := list_published st'\<rparr>) (AskSearch t) s"
  using faq_run_agrees [OF assms] search_agrees [OF assms] by (simp add: Search_def Let_def)

text \<open>
  A store that keeps what it is given, and one that breaks on an entry, an identity or a search
  that is not valid.
\<close>

definition keep_store :: "entry list faq_store" where
  "keep_store = \<lparr>
     list_published = (\<lambda>t s. (Inr (filter Published s), s)),
     list_all_entries = (\<lambda>s. (Inr s, s)),
     find_entry = (\<lambda>key s. (case filter (\<lambda>e. ID e = key) s of [] \<Rightarrow> Inl ErrMissing | e # es \<Rightarrow> Inr e, s)),
     create_entry = (\<lambda>e s. (Inr ''x'', e\<lparr>ID := ''x''\<rparr> # s)),
     update_entry = (\<lambda>e s. (Inr (ID e \<in> ID ` set s), map (\<lambda>d. if ID d = ID e then e else d) s)),
     delete_entry = (\<lambda>key s. (Inr (key \<in> ID ` set s), filter (\<lambda>e. ID e \<noteq> key) s))\<rparr>"

definition fragile_store :: "entry list faq_store" where
  "fragile_store = keep_store\<lparr>
     list_published := (\<lambda>t s. if rune_count t > 100 then (Inr s, []) else list_published keep_store t s),
     create_entry := (\<lambda>e s. if Answer e = [] \<or> rune_count (Question e) > 200 then (Inr [], [])
       else create_entry keep_store e s),
     delete_entry := (\<lambda>key s. if key = [] then (Inr True, []) else delete_entry keep_store key s)\<rparr>"

lemma stores_agree: "faq_agree keep_store fragile_store"
  by (auto simp: faq_agree_def fragile_store_def valid_entry_def tidy_def)

definition demo_entry :: entry where
  "demo_entry = \<lparr>ID = [], Question = ''Why'', Answer = '' '', Published = False, UpdatedAt = 0\<rparr>"

theorem faq_store_confined_witness:
  "faq_run keep_store [AskSave demo_entry, AskDelete [], AskSearch ''x''] [demo_entry] =
     faq_run fragile_store [AskSave demo_entry, AskDelete [], AskSearch ''x''] [demo_entry]"
  using faq_store_confined [OF stores_agree] by blast

text \<open>What that history gives: two refusals, no draft in the search, and nothing is lost.\<close>

lemma demo_refusals:
  "faq_run keep_store [AskSave demo_entry, AskDelete [], AskSearch ''x''] [demo_entry] =
     ([Saved (Inl ErrInvalid), Deleted (Some ErrInvalid), Entries (Inr [])], [demo_entry])"
  by (simp add: Save_def Delete_def Search_def keep_store_def demo_entry_def go_text Let_def)

end
