(* ===== verification/Member_Profile.thy ===== *)
theory Member_Profile
  imports Service_Base Go_Url
begin

section \<open>Package member: profiles\<close>

text \<open>\<open>NormalizeProfile\<close> of \<open>member/member.go\<close>, with the website parsed by \<open>net/url\<close>.\<close>

definition ErrInvalidInput :: gerror where
  "ErrInvalidInput = Sentinel ''member: invalid input''"

record profile =
  DisplayName :: string
  Headline :: string
  Location :: string
  Pronouns :: string
  Bio :: string
  Website :: string
  Public :: bool
  HasAvatar :: bool

definition trim_profile :: "profile \<Rightarrow> profile" where
  "trim_profile p = p\<lparr>DisplayName := trim_space (DisplayName p), Headline := trim_space (Headline p),
     Location := trim_space (Location p), Pronouns := trim_space (Pronouns p), Bio := trim_space (Bio p),
     Website := trim_space (Website p)\<rparr>"

definition website_ok :: "string \<Rightarrow> bool" where
  "website_ok v = (case url_parse v of
       None \<Rightarrow> False
     | Some link \<Rightarrow> \<not> (Scheme link \<noteq> ''https'' \<and> Scheme link \<noteq> ''http'' \<or> hostname link = [] \<or> User link \<noteq> None))"

definition NormalizeProfile :: "profile \<Rightarrow> profile result" where
  "NormalizeProfile profile0 =
     (let p = trim_profile profile0 in
      if rune_count (DisplayName p) > 80 \<or> rune_count (Headline p) > 120 \<or> rune_count (Location p) > 120 \<or>
         rune_count (Pronouns p) > 60 \<or> rune_count (Bio p) > 1000 \<or> length (Website p) > 300 \<or>
         (Public p \<and> DisplayName p = [])
      then Inl ErrInvalidInput
      else if Website p \<noteq> [] \<and> \<not> website_ok (Website p) then Inl ErrInvalidInput
      else Inr p)"

subsection \<open>What an accepted website is\<close>

text \<open>
  A link as a browser reads it: one of two schemes, in any case, two slashes, and an authority in
  which no credentials stand before the host.
\<close>

definition authority_text :: "string \<Rightarrow> string" where
  "authority_text rest = takeWhile (\<lambda>c. c \<noteq> slash_char)
     (takeWhile (\<lambda>c. c \<noteq> CHR ''?'') (takeWhile (\<lambda>c. c \<noteq> CHR ''#'') rest))"

definition web_link :: "string \<Rightarrow> bool" where
  "web_link v \<longleftrightarrow> (\<exists>n \<in> {4, 5}. map to_lower (take n v) \<in> {''http'', ''https''} \<and>
     take 3 (drop n v) = ''://'' \<and> authority_text (drop (n + 3) v) \<noteq> [] \<and>
     at_sign \<notin> set (authority_text (drop (n + 3) v)))"

lemma parse_rest_host:
  assumes "parse_rest u rest = Some w" and "Host w \<noteq> []" and "User w = None" and "Host u = []"
  shows "take 2 rest = ''//''" and "at_sign \<notin> set (takeWhile (\<lambda>c. c \<noteq> slash_char) (drop 2 rest))"
    and "takeWhile (\<lambda>c. c \<noteq> slash_char) (drop 2 rest) \<noteq> []"
proof -
  let ?a = "takeWhile (\<lambda>c. c \<noteq> slash_char) (drop 2 rest)"
  show two: "take 2 rest = ''//''"
    using assms by (auto simp: parse_rest_def parse_path_def split: if_splits)
  then obtain t where t: "rest = ''//'' @ t" by (metis append_take_drop_id)
  from assms two obtain user host where au: "parse_authority ?a = Some (user, host)"
    and w: "parse_path (u\<lparr>User := user, Host := host\<rparr>) (dropWhile (\<lambda>c. c \<noteq> slash_char) (drop 2 rest)) = Some w"
    by (auto simp: parse_rest_def parse_path_def Let_def split: if_splits option.splits)
  have uh: "User w = user" "Host w = host" using w by (auto simp: parse_path_def)
  then have "cut_last at_sign ?a = None" using au assms(3) by (auto simp: parse_authority_def split: option.splits)
  then show "at_sign \<notin> set ?a" by (simp add: cut_last_None)
  show "?a \<noteq> []"
  proof
    assume "?a = []"
    then have "host = []" using au
      by (auto simp: parse_authority_def cut_last_def parse_host_def)
    then show False using uh(2) assms(2) by simp
  qed
qed

lemma take_takeWhile_two: "take 2 (takeWhile P s) = [a, b] \<Longrightarrow> take 2 s = [a, b]"
  by (cases s; cases "tl s") (auto split: if_splits)

lemma website_web_link:
  assumes "website_ok v"
  shows "web_link v"
proof -
  let ?raw = "takeWhile (\<lambda>c. c \<noteq> CHR ''#'') v"
  from assms obtain u where u: "url_parse v = Some u" "Scheme u = ''https'' \<or> Scheme u = ''http''"
    "hostname u \<noteq> []" "User u = None"
    by (auto simp: website_ok_def simp del: not_None_eq not_Some_eq split: option.splits)
  have "Host u \<noteq> []" using u(3) by (auto simp: hostname_def cut_last_def)
  with u obtain w where w: "parse_no_fragment ?raw = Some w" "Scheme w = Scheme u" "Host w \<noteq> []" "User w = None"
    by (auto simp: url_parse_def cut_def split: option.splits if_splits)
  have "parse_no_fragment ''*'' = Some w \<Longrightarrow> Scheme w = []"
    by (auto simp: parse_no_fragment_def empty_url_def split: if_splits)
  then have "?raw \<noteq> ''*''" using w(1,2) u(2) by auto
  with w obtain scheme rest0 where g: "get_scheme [] ?raw = Some (scheme, rest0)"
    and pr: "parse_rest (empty_url\<lparr>Scheme := map to_lower scheme, RawQuery := snd (cut_query rest0)\<rparr>)
      (fst (cut_query rest0)) = Some w"
    by (auto simp: parse_no_fragment_def split: if_splits option.splits prod.splits)
  have "Host (empty_url\<lparr>Scheme := map to_lower scheme, RawQuery := snd (cut_query rest0)\<rparr>) = []"
    by (simp add: empty_url_def)
  note host = parse_rest_host [OF pr w(3,4) this]
  have "Scheme w = map to_lower scheme"
    using pr by (auto simp: parse_rest_def parse_path_def Let_def split: if_splits option.splits)
  with w(2) u(2) have sc: "map to_lower scheme = ''https'' \<or> map to_lower scheme = ''http''" by simp
  then have "length (map to_lower scheme) = 5 \<or> length (map to_lower scheme) = 4" by (elim disjE) simp_all
  then have n: "length scheme \<in> {4, 5}" by auto
  from sc have "scheme \<noteq> []" by auto
  with get_scheme_Some [OF g] have raw: "?raw = scheme @ colon # rest0" by simp
  have two: "take 2 (fst (cut_query rest0)) = ''//''" by (rule host(1))
  then have "take 2 rest0 = ''//''" by (simp add: cut_query_path) (metis take_takeWhile_two)
  then obtain t where t: "rest0 = ''//'' @ t" by (metis append_take_drop_id)
  define tail where "tail = dropWhile (\<lambda>c. c \<noteq> CHR ''#'') v"
  have v: "v = scheme @ ''://'' @ t @ tail"
    using takeWhile_dropWhile_id [of "\<lambda>c. c \<noteq> CHR ''#''" v] raw t unfolding tail_def by simp
  have "CHR ''#'' \<notin> set t" using raw t set_takeWhileD [of _ "\<lambda>c. c \<noteq> CHR ''#''" v] by force
  moreover have "tail = [] \<or> hd tail = CHR ''#''" using hd_dropWhile [of "\<lambda>c. c \<noteq> CHR ''#''" v] unfolding tail_def by auto
  ultimately have "takeWhile (\<lambda>c. c \<noteq> CHR ''#'') (t @ tail) = t"
    by (cases tail) (auto simp: takeWhile_append)
  then have au: "authority_text (t @ tail) = takeWhile (\<lambda>c. c \<noteq> slash_char) (drop 2 (fst (cut_query rest0)))"
    by (simp add: authority_text_def cut_query_path t)
  have parts: "take (length scheme) v = scheme" "take 3 (drop (length scheme) v) = ''://''"
    "drop (length scheme + 3) v = t @ tail"
    unfolding v by simp_all
  show ?thesis unfolding web_link_def
    by (rule bexI [OF _ n]) (use sc host(2,3) in \<open>simp only: parts au; blast\<close>)
qed

subsection \<open>Properties\<close>

lemma trim_profile_idem [simp]: "trim_profile (trim_profile p) = trim_profile p"
  by (simp add: trim_profile_def)

text \<open>
  C39. A normalised profile stays as it is when it is normalised again, its fields are within their
  limits, a public one has a name, and its website, when there is one, is a link with the
  scheme \<open>http\<close> or \<open>https\<close> to a host, without credentials in front of it; what is no text is
  left alone.
\<close>

theorem normalize_profile_sound:
  assumes "NormalizeProfile p = Inr q"
  shows "NormalizeProfile q = Inr q \<and> list_all (\<lambda>(t, n). trim_space t = t \<and> rune_count t \<le> n)
      [(DisplayName q, 80), (Headline q, 120), (Location q, 120), (Pronouns q, 60), (Bio q, 1000)] \<and>
    length (Website q) \<le> 300 \<and> (Website q = [] \<or> web_link (Website q)) \<and>
    Public q = Public p \<and> HasAvatar q = HasAvatar p \<and> (if Public q then DisplayName q \<noteq> [] else True)"
proof -
  have q: "q = trim_profile p" and
    ok: "\<not> (rune_count (DisplayName q) > 80 \<or> rune_count (Headline q) > 120 \<or> rune_count (Location q) > 120 \<or>
         rune_count (Pronouns q) > 60 \<or> rune_count (Bio q) > 1000 \<or> length (Website q) > 300 \<or>
         (Public q \<and> DisplayName q = []))"
    and site: "Website q = [] \<or> website_ok (Website q)"
    using assms by (auto simp: NormalizeProfile_def Let_def split: if_splits)
  have "NormalizeProfile q = Inr q" using ok site by (auto simp: NormalizeProfile_def Let_def q)
  moreover have "Website q = [] \<or> web_link (Website q)" using site website_web_link by blast
  ultimately show ?thesis using ok by (simp add: q) (simp add: trim_profile_def)
qed

definition demo_profile :: profile where
  "demo_profile = \<lparr>DisplayName = ''Ann'', Headline = [], Location = [], Pronouns = [], Bio = [],
     Website = ''HTTPS://ann.example/me'', Public = True, HasAvatar = False\<rparr>"

lemma demo_profile_normal: "NormalizeProfile demo_profile = Inr demo_profile"
proof -
  have t: "trim_space ''Ann'' = ''Ann''" "trim_space ''HTTPS://ann.example/me'' = ''HTTPS://ann.example/me''"
    by (simp_all add: go_text)
  have low: "to_lower CHR ''H'' = CHR ''h''" "to_lower CHR ''T'' = CHR ''t''" "to_lower CHR ''P'' = CHR ''p''"
    "to_lower CHR ''S'' = CHR ''s''" by code_simp+
  have "website_ok ''HTTPS://ann.example/me''"
    by (simp add: website_ok_def url_parse_def parse_no_fragment_def parse_rest_def parse_path_def parse_authority_def
        parse_host_def cut_def cut_query_def cut_last_def empty_url_def is_ctl_def is_letter_def is_digit_def
        plain_allowed_def host_char_def low hostname_def)
  moreover have "rune_count ''Ann'' = 3" by (simp add: rune_count_ascii)
  ultimately show ?thesis using t by (simp add: NormalizeProfile_def trim_profile_def demo_profile_def)
qed

theorem normalize_profile_sound_witness: "web_link ''HTTPS://ann.example/me''"
  using normalize_profile_sound [OF demo_profile_normal] by (simp add: demo_profile_def)

end
