(* ===== verification/Member_Account.thy ===== *)
theory Member_Account
  imports Member_Profile
begin

section \<open>Package member: account changes\<close>

text \<open>
  The service of \<open>member/member.go\<close> over the application's store. The roles of a service are a set,
  built by the loop of \<open>New\<close>.
\<close>

definition ErrSelfChange :: gerror where
  "ErrSelfChange = Sentinel ''member: cannot change own account access''"

definition Approve :: string where "Approve = ''approve''"
definition Disable :: string where "Disable = ''disable''"
definition Enable :: string where "Enable = ''enable''"
definition SetRole :: string where "SetRole = ''role''"

lemmas action_defs = Approve_def Disable_def Enable_def SetRole_def

type_synonym 's change = "'s \<Rightarrow> bool result \<times> 's"

record 's member_store =
  approve_member :: "string \<Rightarrow> 's change"
  set_member_disabled :: "string \<Rightarrow> bool \<Rightarrow> 's change"
  set_member_role :: "string \<Rightarrow> string \<Rightarrow> 's change"

record 's member_service =
  member_store :: "'s member_store"
  member_roles :: "string set"

fun allow_roles :: "string set \<Rightarrow> string list \<Rightarrow> string set result" where
  "allow_roles allowed [] = Inr allowed"
| "allow_roles allowed (r # rs) =
     (if r = [] \<or> trim_space r \<noteq> r then Inl ErrInvalidInput else allow_roles (insert r allowed) rs)"

definition NewMembers :: "'s member_store option \<Rightarrow> string list \<Rightarrow> 's member_service result" where
  "NewMembers store allowed =
     (case store of None \<Rightarrow> Inl ErrInvalidInput | Some st \<Rightarrow>
      if length allowed = 0 then Inl ErrInvalidInput
      else case allow_roles {} allowed of
          Inl e \<Rightarrow> Inl e | Inr rs \<Rightarrow> Inr \<lparr>member_store = st, member_roles = rs\<rparr>)"

definition ChangeAccount :: "'s member_service \<Rightarrow> string \<Rightarrow> string \<Rightarrow> string \<Rightarrow> string \<Rightarrow> 's change" where
  "ChangeAccount svc actor target action role s =
     (if actor = [] \<or> target = [] then (Inl ErrInvalidInput, s)
      else if actor = target then (Inl ErrSelfChange, s)
      else if action = Approve then approve_member (member_store svc) target s
      else if action = Disable then set_member_disabled (member_store svc) target True s
      else if action = Enable then set_member_disabled (member_store svc) target False s
      else if action = SetRole then
        (if role \<notin> member_roles svc then (Inl ErrInvalidInput, s) else set_member_role (member_store svc) target role s)
      else (Inl ErrInvalidInput, s))"

subsection \<open>What reaches the store\<close>

lemma allow_roles_Inr: "allow_roles rs0 allowed = Inr rs \<Longrightarrow> rs = rs0 \<union> set allowed \<and> list_all (\<lambda>r. r \<noteq> [] \<and> trim_space r = r) allowed"
  by (induction rs0 allowed rule: allow_roles.induct) (auto split: if_splits)

lemma new_members_Inr:
  "NewMembers store allowed = Inr svc \<Longrightarrow>
     store = Some (member_store svc) \<and> member_roles svc = set allowed \<and> allowed \<noteq> [] \<and>
     list_all (\<lambda>r. r \<noteq> [] \<and> trim_space r = r) allowed"
  by (auto simp: NewMembers_def dest: allow_roles_Inr split: option.splits if_splits sum.splits)

text \<open>Two stores that may differ only in calls the service must not make.\<close>

definition agree_for :: "'s member_store \<Rightarrow> 's member_store \<Rightarrow> string \<Rightarrow> string list \<Rightarrow> bool" where
  "agree_for st st' actor allowed \<longleftrightarrow>
     (\<forall>t. t \<noteq> [] \<longrightarrow> t \<noteq> actor \<longrightarrow> approve_member st t = approve_member st' t \<and>
        set_member_disabled st t = set_member_disabled st' t \<and>
        (\<forall>r \<in> set allowed. set_member_role st t r = set_member_role st' t r))"

text \<open>
  C21. An account change never touches the actor's own account and never sets a role outside the list
  the service was made with: whatever actor, target, action and role are asked for, the outcome
  depends on the store only through calls for another account and roles of that list. The
  actor's own account gives an error and leaves the store as it is.
\<close>

theorem change_account_confined:
  assumes "NewMembers (Some st) allowed = Inr svc" and "NewMembers (Some st') allowed = Inr svc'"
    and "agree_for st st' actor allowed"
  shows "ChangeAccount svc actor target action role s = ChangeAccount svc' actor target action role s \<and>
    ChangeAccount svc actor actor action role s = (Inl (if actor = [] then ErrInvalidInput else ErrSelfChange), s)"
  using new_members_Inr [OF assms(1)] new_members_Inr [OF assms(2)] assms(3)
  by (auto simp: ChangeAccount_def agree_for_def)

definition open_store :: "(string \<times> string) list member_store" where
  "open_store = \<lparr>approve_member = (\<lambda>t s. (Inr True, (t, ''approved'') # s)),
     set_member_disabled = (\<lambda>t b s. (Inr True, (t, if b then ''disabled'' else ''enabled'') # s)),
     set_member_role = (\<lambda>t r s. (Inr True, (t, r) # s))\<rparr>"

definition strict_store :: "(string \<times> string) list member_store" where
  "strict_store = open_store\<lparr>set_member_role := (\<lambda>t r s. if r = ''owner'' \<or> t = ''ann'' then (Inl (External ''no''), s)
     else (Inr True, (t, r) # s)), approve_member := (\<lambda>t s. if t = ''ann'' then (Inl (External ''no''), s)
     else (Inr True, (t, ''approved'') # s)), set_member_disabled := (\<lambda>t b s. if t = ''ann'' then (Inl (External ''no''), s)
     else (Inr True, (t, if b then ''disabled'' else ''enabled'') # s))\<rparr>"

lemma demo_roles: "trim_space ''editor'' = ''editor''"
  by (simp add: go_text)

theorem change_account_confined_witness:
  "ChangeAccount \<lparr>member_store = open_store, member_roles = {''editor''}\<rparr> ''ann'' ''bob'' ''role'' ''owner'' [] =
   ChangeAccount \<lparr>member_store = strict_store, member_roles = {''editor''}\<rparr> ''ann'' ''bob'' ''role'' ''owner'' []"
proof -
  have new: "NewMembers (Some st) [''editor''] = Inr \<lparr>member_store = st, member_roles = {''editor''}\<rparr>"
    for st :: "(string \<times> string) list member_store"
    by (simp add: NewMembers_def demo_roles)
  have "agree_for open_store strict_store ''ann'' [''editor'']"
    by (simp add: agree_for_def open_store_def strict_store_def)
  from change_account_confined [OF new new this] show ?thesis by blast
qed

end
