(* ===== verification/Observability_Tracing.thy ===== *)
theory Observability_Tracing
  imports Complex_Main Go_Slices
begin

section \<open>Package observability: tracing\<close>

text \<open>
  \<open>observability/tracing.go\<close>. OpenTelemetry and its instrumentations are parameters; what the
  file decides is which options they get, who shuts what down, and that clients of the
  application are copied and not changed. Clients are cells of a store, because a pointer to
  one is what \<open>HTTPClient\<close> is given.
\<close>

subsection \<open>Configuration\<close>

text \<open>A \<open>float64\<close> as far as the comparisons with zero and one go.\<close>

datatype go_float = Finite rat | PosInf | NegInf | NaN

fun float_less :: "go_float \<Rightarrow> go_float \<Rightarrow> bool" where
  "float_less (Finite x) (Finite y) = (x < y)"
| "float_less NegInf (Finite y) = True"
| "float_less NegInf PosInf = True"
| "float_less (Finite x) PosInf = True"
| "float_less _ _ = False"

record tracing_config =
  ServiceName :: string
  ServiceVersion :: string
  Environment :: string
  EndpointURL :: string
  Headers :: "(string \<times> string) list"
  Insecure :: bool
  SampleRatio :: go_float

datatype exporter_option = WithEndpointURL string | WithInsecure | WithHeaders "(string \<times> string) list"

definition exporter_options :: "tracing_config \<Rightarrow> exporter_option list" where
  "exporter_options c =
     (if EndpointURL c \<noteq> [] then [WithEndpointURL (EndpointURL c)] else []) @
     (if Insecure c then [WithInsecure] else []) @
     (if 0 < length (Headers c) then [WithHeaders (Headers c)] else [])"

definition service_attributes :: "tracing_config \<Rightarrow> (string \<times> string) list" where
  "service_attributes c = [(''service.name'', ServiceName c)] @
     (if ServiceVersion c \<noteq> [] then [(''service.version'', ServiceVersion c)] else []) @
     (if Environment c \<noteq> [] then [(''deployment.environment.name'', Environment c)] else [])"

subsection \<open>OpenTelemetry\<close>

text \<open>The provider is made from its exporter, its resource and the ratio of the parent-based sampler.\<close>

record ('e, 'r, 'p, 'w) otel =
  exporter_new :: "exporter_option list \<Rightarrow> 'w \<Rightarrow> 'e result \<times> 'w"
  exporter_shutdown :: "'e \<Rightarrow> 'w \<Rightarrow> gerror option \<times> 'w"
  merge_resource :: "(string \<times> string) list \<Rightarrow> 'r result"
  provider_new :: "'e \<Rightarrow> 'r \<Rightarrow> go_float \<Rightarrow> 'w \<Rightarrow> 'p \<times> 'w"
  provider_shutdown :: "'p \<Rightarrow> 'w \<Rightarrow> gerror option \<times> 'w"

record 'p tracing =
  trc_provider :: 'p

definition NewTracing :: "('e, 'r, 'p, 'w) otel \<Rightarrow> tracing_config \<Rightarrow> 'w \<Rightarrow> 'p tracing result \<times> 'w" where
  "NewTracing lib c w =
     (if ServiceName c = [] then (Inl (Plain ''tracing service name is required''), w)
      else if float_less (SampleRatio c) (Finite 0) \<or> float_less (Finite 1) (SampleRatio c)
        then (Inl (Plain ''tracing sample ratio must be between zero and one''), w)
      else case exporter_new lib (exporter_options c) w of
          (Inl e, w1) \<Rightarrow> (Inl (Wrapf ''create OTLP trace exporter'' e), w1)
        | (Inr exporter, w1) \<Rightarrow> (case merge_resource lib (service_attributes c) of
            Inl e \<Rightarrow>
              (let resource_err = Wrapf ''create tracing resource'' e in
               case exporter_shutdown lib exporter w1 of
                 (Some se, w2) \<Rightarrow> (Inl (Joined [resource_err,
                    Wrapf ''shutdown trace exporter after resource failure'' se]), w2)
               | (None, w2) \<Rightarrow> (Inl resource_err, w2))
          | Inr resource \<Rightarrow>
              (case provider_new lib exporter resource (SampleRatio c) w1 of
                 (p, w2) \<Rightarrow> (Inr \<lparr>trc_provider = p\<rparr>, w2))))"

definition Provider :: "'p tracing \<Rightarrow> 'p" where
  "Provider t = trc_provider t"

definition Shutdown :: "('e, 'r, 'p, 'w) otel \<Rightarrow> 'p tracing \<Rightarrow> 'w \<Rightarrow> gerror option \<times> 'w" where
  "Shutdown lib t w = (case provider_shutdown lib (trc_provider t) w of
       (Some e, w') \<Rightarrow> (Some (Wrapf ''shutdown tracing'' e), w') | (None, w') \<Rightarrow> (None, w'))"

subsection \<open>Propagation and the process-wide installation\<close>

datatype propagator = TraceContext | Baggage

definition text_map_propagator :: "propagator list" where
  "text_map_propagator = [TraceContext, Baggage]"

record 'p otel_globals =
  global_provider :: "'p option"
  global_propagator :: "propagator list"

definition InstallGlobal :: "'p tracing \<Rightarrow> 'p otel_globals \<Rightarrow> 'p otel_globals" where
  "InstallGlobal t g = g\<lparr>global_provider := Some (trc_provider t), global_propagator := text_map_propagator\<rparr>"

subsection \<open>Instrumentation\<close>

datatype 'p instrument_option = WithTracerProvider 'p | WithPropagators "propagator list"

definition instrument_options :: "'p tracing \<Rightarrow> 'p instrument_option list" where
  "instrument_options t = [WithTracerProvider (trc_provider t), WithPropagators text_map_propagator]"

text \<open>The instrumentations are functions of what they wrap and of their options.\<close>

definition HTTP ::
  "('h \<Rightarrow> string \<Rightarrow> 'p instrument_option list \<Rightarrow> 'h) \<Rightarrow> 'p tracing \<Rightarrow> string \<Rightarrow> 'h \<Rightarrow> 'h" where
  "HTTP new_handler t operation next = new_handler next operation (instrument_options t)"

definition GRPCServerOption :: "('p instrument_option list \<Rightarrow> 'o) \<Rightarrow> 'p tracing \<Rightarrow> 'o" where
  "GRPCServerOption server_handler t = server_handler (instrument_options t)"

definition GRPCClientOption :: "('p instrument_option list \<Rightarrow> 'o) \<Rightarrow> 'p tracing \<Rightarrow> 'o" where
  "GRPCClientOption client_handler t = client_handler (instrument_options t)"

datatype 'p pgx_option = PgxTracerProvider 'p | DisableSQLStatementInAttributes | TrimSQLInSpanName

definition PostgreSQLTracer :: "('p pgx_option list \<Rightarrow> 'o) \<Rightarrow> 'p tracing \<Rightarrow> 'o" where
  "PostgreSQLTracer new_tracer t =
     new_tracer [PgxTracerProvider (trc_provider t), DisableSQLStatementInAttributes, TrimSQLInSpanName]"

text \<open>
  An HTTP client: its transport (\<open>nil\<close> is none) and its other fields. The default client is a cell
  of the store like any other; \<open>new_transport\<close> is the instrumentation's.
\<close>

record ('tr, 'f) http_client =
  Transport :: "'tr option"
  client_rest :: 'f

definition instrument_http_client ::
  "('tr \<Rightarrow> 'p instrument_option list \<Rightarrow> 'tr) \<Rightarrow> nat \<Rightarrow> 'tr \<Rightarrow> nat option \<Rightarrow> 'p instrument_option list \<Rightarrow>
     ('tr, 'f) http_client store \<Rightarrow> nat \<times> ('tr, 'f) http_client store" where
  "instrument_http_client new_transport default_client default_transport base opts st =
     (let base' = (case base of None \<Rightarrow> default_client | Some b \<Rightarrow> b);
          client = cell st base';
          transport = (case Transport client of None \<Rightarrow> default_transport | Some tr \<Rightarrow> tr) in
      new_cell (client\<lparr>Transport := Some (new_transport transport opts)\<rparr>) st)"

definition HTTPClient ::
  "('tr \<Rightarrow> 'p instrument_option list \<Rightarrow> 'tr) \<Rightarrow> nat \<Rightarrow> 'tr \<Rightarrow> 'p tracing \<Rightarrow> nat option \<Rightarrow>
     ('tr, 'f) http_client store \<Rightarrow> nat \<times> ('tr, 'f) http_client store" where
  "HTTPClient new_transport default_client default_transport t base st =
     instrument_http_client new_transport default_client default_transport base (instrument_options t) st"

subsection \<open>Exporters that stay open\<close>

text \<open>
  What the library documents, over the exporters that are open in a state: creating one opens it,
  a shutdown without an error closes it, a provider owns the exporter it was made with and
  closes it when it is shut down.
\<close>

definition otel_laws :: "('e, 'r, 'p, 'w) otel \<Rightarrow> ('w \<Rightarrow> 'e set) \<Rightarrow> ('p \<Rightarrow> 'e) \<Rightarrow> bool" where
  "otel_laws lib opened owned \<longleftrightarrow>
     (\<forall>opts w e w'. exporter_new lib opts w = (Inl e, w') \<longrightarrow> opened w' = opened w) \<and>
     (\<forall>opts w x w'. exporter_new lib opts w = (Inr x, w') \<longrightarrow> x \<notin> opened w \<and> opened w' = insert x (opened w)) \<and>
     (\<forall>x w w'. exporter_shutdown lib x w = (None, w') \<longrightarrow> opened w' = opened w - {x}) \<and>
     (\<forall>x r f w p w'. provider_new lib x r f w = (p, w') \<longrightarrow> owned p = x \<and> opened w' = opened w) \<and>
     (\<forall>p w w'. provider_shutdown lib p w = (None, w') \<longrightarrow> opened w' = opened w - {owned p})"

lemmas otel_laws_unfolded = otel_laws_def [THEN iffD1]

lemmas otel_rules =
  otel_laws_unfolded [THEN conjunct1, rule_format]
  otel_laws_unfolded [THEN conjunct2, THEN conjunct1, rule_format]
  otel_laws_unfolded [THEN conjunct2, THEN conjunct2, THEN conjunct1, rule_format]
  otel_laws_unfolded [THEN conjunct2, THEN conjunct2, THEN conjunct2, THEN conjunct1, rule_format]
  otel_laws_unfolded [THEN conjunct2, THEN conjunct2, THEN conjunct2, THEN conjunct2, rule_format]

text \<open>
  C40. No exporter is left open: when \<open>NewTracing\<close> fails, nothing is open that was not open before,
  unless shutting the new exporter down failed too, which the error then says; when it
  succeeds, exactly one more is open, and shutting the tracing down closes that one again.
\<close>

theorem tracing_leaves_nothing_open:
  assumes "otel_laws lib opened owned" and "NewTracing lib c w = (r, w')"
  shows "case r of
      Inl e \<Rightarrow> opened w' = opened w \<or>
        (\<exists>re se. e = Joined [re, Wrapf ''shutdown trace exporter after resource failure'' se])
    | Inr t \<Rightarrow> owned (Provider t) \<notin> opened w \<and> opened w' = insert (owned (Provider t)) (opened w) \<and>
        (case Shutdown lib t w' of (None, w'') \<Rightarrow> opened w'' = opened w | (Some _, _) \<Rightarrow> True)"
proof -
  note laws = otel_rules [OF assms(1)]
  show ?thesis
  proof (cases r)
    case (Inr t)
    then obtain x w1 res where x: "exporter_new lib (exporter_options c) w = (Inr x, w1)"
      "provider_new lib x res (SampleRatio c) w1 = (trc_provider t, w')"
      using assms(2) by (auto simp: NewTracing_def Let_def split: if_splits prod.splits sum.splits option.splits)
    note new = laws(2) [OF x(1)] laws(4) [OF x(2)]
    show ?thesis
    proof (cases "provider_shutdown lib (trc_provider t) w'")
      case (Pair e w'')
      show ?thesis
        using new Pair laws(5) [of "trc_provider t" w' w''] Inr
        by (cases e) (auto simp: Shutdown_def Provider_def)
    qed
  next
    case (Inl e)
    then show ?thesis
      using assms(2) laws(1,2,3)
      by (fastforce simp: NewTracing_def Let_def split: if_splits prod.splits sum.splits option.splits)
  qed
qed

text \<open>A library whose state lists the open exporters, and which refuses one resource.\<close>

definition demo_otel :: "(nat, string, nat, nat list) otel" where
  "demo_otel = \<lparr>exporter_new = (\<lambda>opts w. (Inr (Suc (sum_list w)), Suc (sum_list w) # w)),
     exporter_shutdown = (\<lambda>x w. (None, filter (\<lambda>y. y \<noteq> x) w)),
     merge_resource = (\<lambda>attrs. if length attrs = 1 then Inl (External ''conflict'') else Inr ''resource''),
     provider_new = (\<lambda>x r f w. (x, w)), provider_shutdown = (\<lambda>x w. (None, filter (\<lambda>y. y \<noteq> x) w))\<rparr>"

lemma demo_otel_laws: "otel_laws demo_otel set (\<lambda>p. p)"
proof -
  have "Suc (sum_list w) \<notin> set w" for w :: "nat list" using member_le_sum_list [of "Suc (sum_list w)" w] by auto
  then show ?thesis by (auto simp: otel_laws_def demo_otel_def)
qed

definition demo_tracing_config :: tracing_config where
  "demo_tracing_config = \<lparr>ServiceName = ''shop'', ServiceVersion = ''1'', Environment = [], EndpointURL = [],
     Headers = [], Insecure = False, SampleRatio = Finite 1\<rparr>"

lemma demo_new_tracing:
  "NewTracing demo_otel demo_tracing_config [5] = (Inr \<lparr>trc_provider = 6\<rparr>, [6, 5])"
  by (simp add: NewTracing_def demo_tracing_config_def demo_otel_def service_attributes_def)

theorem tracing_leaves_nothing_open_witness:
  "case Shutdown demo_otel \<lparr>trc_provider = 6\<rparr> [6, 5] of (None, w) \<Rightarrow> set w = {5} | (Some e, w) \<Rightarrow> True"
  using tracing_leaves_nothing_open [OF demo_otel_laws demo_new_tracing] by (auto split: prod.splits option.splits)

text \<open>
  The check of the ratio is written with the comparisons that reject, and every comparison with
  a value that is not a number is false: such a ratio passes.
\<close>

lemma nan_ratio_is_accepted:
  "fst (NewTracing demo_otel (demo_tracing_config\<lparr>SampleRatio := NaN\<rparr>) [5]) = Inr \<lparr>trc_provider = 6\<rparr>"
  by (simp add: NewTracing_def demo_tracing_config_def demo_otel_def service_attributes_def)

subsection \<open>Clients are copied\<close>

text \<open>
  \<open>HTTPClient\<close> leaves every client that exists as it is, the given one and the default one too: the
  result is a new cell with the same settings whose transport is the instrumented one of the
  source, with this provider and this propagation.
\<close>

lemma http_client_is_a_copy:
  assumes "HTTPClient new_transport default_client default_transport t base st = (p, st')"
    and "default_client < unused st" and "case base of None \<Rightarrow> True | Some b \<Rightarrow> b < unused st"
  shows "p = unused st \<and> (\<forall>q < unused st. cell st' q = cell st q) \<and>
    client_rest (cell st' p) = client_rest (cell st (case base of None \<Rightarrow> default_client | Some b \<Rightarrow> b)) \<and>
    (\<exists>tr. Transport (cell st' p) = Some (new_transport tr [WithTracerProvider (Provider t), WithPropagators [TraceContext, Baggage]]))"
  using assms
  by (auto simp: HTTPClient_def instrument_http_client_def new_cell_def Let_def instrument_options_def
      text_map_propagator_def Provider_def)

end
