(* ===== verification/Spec2Isabelle.thy ===== *)
theory Spec2Isabelle
  imports Durable_Gaps Auth_Token Auth_Principal Auth_Revocation Auth_Password Auth_Jwt Auth_Totp Web_Headers
    Web_Json Web_Csrf Ui_Renderer I18n_Contract Migration_Threads Group_Service Faq_Service Member_Account
    Observability_Tracing Repository_Tests
begin

text \<open>
  A verification library for the Go module \<open>gouterstellar-platform\<close>: packages that web applications
  share. The packages do not call each other; an application composes them. Every package
  is modelled, function by function and in the order of its file.

  Values. A Go string is the list of its bytes (\<open>Go_Base\<close>), an \<open>error\<close> a \<^typ>\<open>gerror\<close>, a pair of
  value and error a sum. Error texts keep the words of the code; a value printed with
  \<open>%q\<close> or with the quotes of a format stands in them without quotes, and the file mode of a validation error is left out. Unsigned integers whose
  width matters are words (Argon2 parameters, one-time passwords, SHA-256), sizes are naturals,
  durations and \<open>int\<close> values that are only compared are integers. Slices, maps and clients that alias
  live in an explicit store (\<open>Go_Slices\<close>). A state is passed along explicitly; where threads
  share it there is a step relation.

  The standard library. \<open>Go_Base\<close> translates what is used of \<open>errors\<close>, \<open>unicode/utf8\<close>,
  \<open>strings\<close> and \<open>strconv\<close>; \<open>Go_Path\<close> of \<open>path/filepath\<close>, \<open>Go_Base64\<close> and \<open>Go_Sha256\<close> of
  \<open>encoding/base64\<close>, \<open>crypto/sha256\<close> and \<open>crypto/hmac\<close>, \<open>Go_Url\<close> of \<open>net/url\<close>, \<open>Go_Format\<close> of
  \<open>regexp\<close> and \<open>fmt\<close>, \<open>Go_Json\<close> of \<open>encoding/json\<close>, \<open>Web_Http\<close> of \<open>net/http\<close>, and \<open>Durable_Fs\<close> of
  \<open>os\<close>, over a kernel with system calls that may fail and with crashes.

  The parts of the program and their theories.

  \<^item> \<open>durablefile/durablefile.go\<close>, \<open>syncdir.go\<close>: \<open>Durable_Lock\<close> has the registry of destination
    locks with its interleavings, which refine one independent mutex per destination, \<open>Durable_File\<close> the operations \<open>Write\<close>, \<open>WriteReader\<close>, \<open>Replace\<close>
    and the replacement transaction. \<open>Durable_Frame\<close>, \<open>Durable_Safety\<close> and \<open>Durable_Persist\<close> hold
    what single steps keep, and \<open>Durable_Contract\<close> what callers get: at every crash point the
    old file or the complete new one, what the result means, nothing left behind,
    termination, durability. \<open>Durable_Threads\<close> splits a call of \<open>WriteReader\<close> or \<open>Replace\<close> into one step per system call
    and critical section and lets any number of calls run at the same time; \<open>Durable_Interleaved\<close> shows
    that destinations are safe in every interleaving, \<open>Durable_Exclusive\<close> what the destination locks
    add (success means the own file) and that every schedule ends, \<open>Durable_Gaps\<close> two runs beyond the
    assumptions.
  \<^item> \<open>auth/token.go\<close>: \<open>Auth_Token\<close>, opaque tokens behind the interface \<open>token_issuer\<close>, which the
    plain and the keyed issuer interpret.
  \<^item> \<open>auth/session.go\<close>: \<open>Auth_Principal\<close> (principals on a heap, so that copies are visible),
    \<open>Auth_Session\<close> (the manager, the middleware, signing in and out, the guards), \<open>Auth_Access\<close>
    (a verdict on a session as the specification, the refinement, and who is let in), \<open>Auth_Revocation\<close> (sign-ins, rotations of versions and
    requests in any order).
  \<^item> \<open>auth/password.go\<close>: \<open>Auth_Password\<close>. \<open>auth/jwt.go\<close>: \<open>Auth_Jwt\<close>. \<open>auth/totp.go\<close>: \<open>Auth_Totp\<close>.
  \<^item> \<open>web/headers.go\<close>: \<open>Web_Headers\<close>. \<open>web/json.go\<close>: \<open>Web_Json\<close>, with the
    grammar of JSON texts in \<open>Json_Grammar\<close> and, in \<open>Json_Scan\<close>, the proof that the scanner of \<open>Go_Json\<close> accepts exactly its
    texts. \<open>web/csrf.go\<close>: \<open>Web_Csrf\<close>. Middlewares are functions on handlers; those that admit or reject share the interface
    \<open>guard\<close> of \<open>Web_Http\<close>, and two in a row are one by a sublocale. The end of this theory puts the
    middlewares of \<open>web\<close> and \<open>auth\<close> in a row, as an application does.
  \<^item> \<open>ui/shell.go\<close>: \<open>Ui_Shell\<close>, with the consequences of its validation in \<open>Ui_Shell_Safe\<close>;
    the links of the footer are rendered without being validated.
    \<open>ui/renderer.go\<close>: \<open>Ui_Renderer\<close>.
  \<^item> \<open>i18n/i18n.go\<close>: \<open>I18n_Message\<close> (compiling, checking, rendering one message), \<open>I18n_Render\<close>
    (what rendering gives), \<open>I18n_Catalog\<close> (loading and lookup), \<open>I18n_Contract\<close> (what a
    translator that was made promises).
  \<^item> \<open>migration/runner.go\<close>: \<open>Migration_Runner\<close> has the operations, and the same operations as
    steps of threads under the runner's mutex; \<open>Migration_Threads\<close> shows that the two agree.
  \<^item> \<open>group/group.go\<close>, \<open>faq/faq.go\<close>, \<open>member/member.go\<close>: \<open>Group_Service\<close>, \<open>Faq_Service\<close>,
    \<open>Member_Profile\<close>, \<open>Member_Account\<close>. What services in front of a store share is the interface
    \<open>validated\<close> of \<open>Service_Base\<close>; of the stores of groups, questions and accounts nothing is assumed.
  \<^item> \<open>observability/tracing.go\<close>: \<open>Observability_Tracing\<close>.
  \<^item> \<open>Repository_Tests\<close> repeats the inputs of the repository's unit tests on these definitions, each
    lemma under the name of its test, and shows that the results are those the tests demand.

  Parameters. Code that is not in the repository is an argument of the definitions that use it:
  natefinch/atomic's replacement, SCS, argon2id, golang-jwt, pquerna/otp, golang-migrate,
  the properties parser, filippo.io/csrf, OpenTelemetry, and the stores and resolvers of the application.
  What the code relies on is a named predicate over the parameter (\<open>manager_laws\<close>, \<open>calm_manager\<close>, \<open>authority_laws\<close>, \<open>argon_laws\<close>,
  \<open>jwt_laws\<close>, \<open>otp_laws\<close>, \<open>otel_laws\<close>), which states documented behaviour and is
  instantiated by a concrete function wherever a theorem assumes it. So are the parts of
  the standard library that depend on the types of Go values or are languages of
  their own: what \<open>fmt\<close> prints for one value and for verbs other than \<open>%s\<close> and \<open>%d\<close>, storing JSON
  in a typed destination, \<open>html/template\<close>. Several properties compare two such parameters that
  agree on the calls the code may make and differ elsewhere; the results are then equal,
  so nothing else is called.

  Loops end by structure or by a measure; only the lock of a destination that another thread keeps
  can block, and \<open>WriteReader\<close> is then \<^const>\<open>None\<close>; concurrent calls give it back. No bound is assumed on inputs. A Go \<open>int\<close>
  has 64 bits where a message's index is parsed.

  Concurrent calls of \<open>WriteReader\<close> and \<open>Replace\<close> are interleaved by system calls, each of which is one step.
  They draw different random names there (\<open>jobs_ok\<close>) and do not share sources (\<open>sources_ok\<close>); the
  failures of a call are fixed in advance, but arbitrary. Other programs do not touch their files.

  Not modelled: the templates and other text that is no Go code, the code of the tests, the case folding of
  destination keys on Windows, the version of \<open>net/url\<close> other than that of Go 1.24, the adapter
  \<open>PrincipalResolverFunc\<close>, which is application of a function, and the order in which Go visits the entries of a map,
  which decides only between several errors.
\<close>

section \<open>The packages together\<close>

subsection \<open>A protected route\<close>

text \<open>
  An application puts the middlewares in a row: security headers, a bound on the body,
  the session, a role, and then its own handler.
\<close>

definition protected_route ::
  "'s randomness \<Rightarrow> security_headers_config \<Rightarrow> 's middleware \<Rightarrow> 's session_manager \<Rightarrow> 's resolver \<Rightarrow> string \<Rightarrow>
   's middleware" where
  "protected_route rnd config bound m resolver role hnd =
     SecurityHeaders rnd config (bound (resolve_session m resolver (RequireRole role hnd)))"

text \<open>The requests a handler behind it may see, when the session is in state \<open>s\<close>.\<close>

definition entitled ::
  "'s session_manager \<Rightarrow> 's resolver \<Rightarrow> string \<Rightarrow> int \<Rightarrow> string \<Rightarrow> 's \<Rightarrow> request \<Rightarrow> bool" where
  "entitled m resolver role limit nonce s r \<longleftrightarrow>
     (\<exists>p. PrincipalFromContext (ctx r) = Some p \<and> is_current m s p \<and>
        fst (resolver (get_string m session_subject_key s) s) = Inr p \<and> role \<in> set (roles p)) \<and>
     CSPNonce (ctx r) = nonce \<and> (\<exists>n. body_limit r = Some n \<and> n \<le> limit)"

lemma role_agrees:
  assumes "\<And>p. PrincipalFromContext (ctx r) = Some p \<Longrightarrow> role \<in> set (roles p) \<Longrightarrow> hnd ws r = other ws r"
  shows "RequireRole role hnd ws r = RequireRole role other ws r"
  using assms by (simp add: RequireRole_def RequireAuthenticated_def require_held_role_def HasRole_def split: option.splits)

lemma role_keeps:
  assumes "keeps (hardening config nonce) hnd"
  shows "keeps (hardening config nonce) (RequireRole role hnd)"
  unfolding RequireRole_def
  by (intro authenticated.guard_keeps held_role.guard_keeps assms) (simp_all add: refuse_def error_keeps_hardening)

lemma sessions_keep:
  assumes "\<And>e. keeps hs (error_func m e)" and "keeps hs hnd"
  shows "keeps hs (resolve_session m resolver hnd)"
  by (rule sessions.guard_keeps [OF _ _ assms(2)])
    (auto simp: Let_def split: prod.splits intro: keepsD [OF assms(1), of "(w, s)" for w s, simplified])

lemma session_agrees:
  assumes "PrincipalFromContext (ctx r) = None" and "body_limit r = Some n" and "n \<le> limit"
    and "\<And>ws r'. entitled m resolver role limit (CSPNonce (ctx r)) s r' \<Longrightarrow> hnd ws r' = other ws r'"
  shows "resolve_session m resolver (RequireRole role hnd) (w, s) r =
    resolve_session m resolver (RequireRole role other) (w, s) r"
proof -
  obtain v s' where v: "session_verdict m resolver s = (v, s')" by fastforce
  have "RequireRole role hnd ws (see_verdict v r) = RequireRole role other ws (see_verdict v r)" for ws
  proof (rule role_agrees)
    fix p
    assume p: "PrincipalFromContext (ctx (see_verdict v r)) = Some p" and role: "role \<in> set (roles p)"
    then obtain q where q: "see_verdict v r = with_principal q r" "is_current m s q"
      "fst (resolver (get_string m session_subject_key s) s) = Inr q"
      using verdict_vouched [OF v, of r] assms(1) by (auto simp: vouched_def)
    moreover from this p have "q = p" by (simp add: with_principal_def PrincipalFromContext_def)
    ultimately have "entitled m resolver role limit (CSPNonce (ctx r)) s (see_verdict v r)"
      using p role assms(2,3) by (auto simp: entitled_def with_principal_def CSPNonce_def)
    then show "hnd ws (see_verdict v r) = other ws (see_verdict v r)" by (rule assms(4))
  qed
  with v show ?thesis by (cases v) (simp_all add: resolve_session_verdict)
qed

text \<open>
  C3. A protected route keeps its promises whatever happens inside it. Its handler sees only requests
  with a current principal that holds the role and was just confirmed by the resolver, with the nonce of the policy and a
  bounded body: handlers that agree on those give the same response. And every response,
  refusals and failures included, goes out with all hardening headers.
\<close>

theorem protected_route_safe:
  assumes "MaxBodyBytes limit = Some bound" and "sent w = None" and "rnd 18 s = (Inr v, s1)"
    and "PrincipalFromContext (ctx r) = None"
    and "\<And>e. keeps (hardening (with_defaults config) (b64_encode v)) (error_func m e)"
    and "keeps (hardening (with_defaults config) (b64_encode v)) hnd"
    and "\<And>ws r'. entitled m resolver role limit (b64_encode v) s1 r' \<Longrightarrow> hnd ws r' = other ws r'"
  shows "protected_route rnd config bound m resolver role hnd (w, s) r =
      protected_route rnd config bound m resolver role other (w, s) r \<and>
    carries (hardening (with_defaults config) (b64_encode v))
      (fst (protected_route rnd config bound m resolver role hnd (w, s) r))"
proof -
  let ?w = "hardened (with_defaults config) (b64_encode v) w" and ?r = "with_nonce (b64_encode v) r"
  have run: "protected_route rnd config bound m resolver role h (w, s) r =
      bound (resolve_session m resolver (RequireRole role h)) (?w, s1) ?r" for h
    using assms(3) by (simp add: protected_route_def SecurityHeaders_def new_nonce_def)
  obtain n where n: "limit = int (Suc n)" "bound = max_body (int (Suc n))"
    using MaxBodyBytes_Some [OF assms(1)] by blast
  have same: "bound (resolve_session m resolver (RequireRole role hnd)) (?w, s1) ?r =
      bound (resolve_session m resolver (RequireRole role other)) (?w, s1) ?r"
  proof (cases "content_length ?r \<le> int (Suc n)")
    case True
    have "CSPNonce (ctx (max_bytes_reader limit ?r)) = b64_encode v"
      by (simp add: max_bytes_reader_def with_nonce_def CSPNonce_def)
    moreover have "PrincipalFromContext (ctx (max_bytes_reader limit ?r)) = None"
      using assms(4) by (simp add: max_bytes_reader_def with_nonce_def PrincipalFromContext_def)
    moreover obtain k where "body_limit (max_bytes_reader limit ?r) = Some k" "k \<le> limit"
      by (cases "body_limit ?r") (simp_all add: max_bytes_reader_def)
    ultimately have "resolve_session m resolver (RequireRole role hnd) (?w, s1) (max_bytes_reader limit ?r) =
        resolve_session m resolver (RequireRole role other) (?w, s1) (max_bytes_reader limit ?r)"
      using assms(7) by (intro session_agrees [of _ k limit]) simp_all
    moreover have "bound h (?w, s1) ?r = h (?w, s1) (max_bytes_reader limit ?r)" for h :: "'a handler"
      using max_body.admitted [of ?r n h "(?w, s1)"] True n by simp
    ultimately show ?thesis by simp
  next
    case False
    then show ?thesis using max_body.independent n(2) by metis
  qed
  have "carries (hardening (with_defaults config) (b64_encode v)) (fst (?w, s1))"
    using hardened_carries [OF assms(2)] by simp
  moreover have "keeps (hardening (with_defaults config) (b64_encode v))
      (bound (resolve_session m resolver (RequireRole role hnd)))"
    by (intro max_body_keeps [OF assms(1)] sessions_keep role_keeps assms(5,6))
  ultimately have "carries (hardening (with_defaults config) (b64_encode v))
      (fst (bound (resolve_session m resolver (RequireRole role hnd)) (?w, s1) ?r))"
    by (rule keepsD [rotated])
  with same show ?thesis by (simp add: run)
qed

lemma carries_frame_options: "carries (hardening config nonce) w \<Longrightarrow> outgoing w ''X-Frame-Options'' = Some [''DENY'']"
  by (auto simp: carries_def map_le_def hardening_def dom_def split: if_splits)

text \<open>A handler that greets a principal, and what it does without one; a policy of defaults.\<close>

definition greet :: "(response \<Rightarrow> response) \<Rightarrow> 's handler" where
  "greet stranger ws r = (case PrincipalFromContext (ctx r) of
       None \<Rightarrow> on_response (write_body [] \<circ> stranger) ws
     | Some p \<Rightarrow> on_response (write_body (subject p)) ws)"

definition fixed_bytes :: "'s randomness" where
  "fixed_bytes n s = (Inr (replicate n CHR ''x''), s)"

theorem protected_route_safe_witness:
  "outgoing (fst (protected_route fixed_bytes demo_headers (max_body 4) demo_manager demo_resolver ''user'' (greet id)
      (empty_response, demo_session ''u1'' ''v0'') plain_request)) ''X-Frame-Options'' = Some [''DENY''] \<and>
   protected_route fixed_bytes demo_headers (max_body 4) demo_manager demo_resolver ''user'' (greet id)
      (empty_response, demo_session ''u1'' ''v0'') plain_request =
   protected_route fixed_bytes demo_headers (max_body 4) demo_manager demo_resolver ''user'' (greet (write_body ''secret''))
      (empty_response, demo_session ''u1'' ''v0'') plain_request"
proof -
  let ?H = "hardening (with_defaults demo_headers) (b64_encode (replicate 18 CHR ''x''))"
  have m: "MaxBodyBytes 4 = Some (max_body 4)" by (simp add: MaxBodyBytes_def max_body_def)
  have e: "sent empty_response = None" by (simp add: empty_response_def)
  have b: "fixed_bytes 18 (demo_session ''u1'' ''v0'') = (Inr (replicate 18 CHR ''x''), demo_session ''u1'' ''v0'')"
    by (simp add: fixed_bytes_def)
  have p: "PrincipalFromContext (ctx plain_request) = None"
    by (simp add: plain_request_def PrincipalFromContext_def)
  have f: "keeps ?H (error_func demo_manager err)" for err
    by (rule keepsI) (simp add: demo_manager_def error_keeps_hardening)
  have g: "keeps ?H (greet id)"
    by (rule keepsI) (auto simp: greet_def carries_write_body split: option.splits)
  have a: "entitled demo_manager demo_resolver ''user'' 4 (b64_encode (replicate 18 CHR ''x'')) (demo_session ''u1'' ''v0'') r'
      \<Longrightarrow> greet id ws r' = greet (write_body ''secret'') ws r'" for ws r'
    by (auto simp: entitled_def greet_def)
  have safe: "protected_route fixed_bytes demo_headers (max_body 4) demo_manager demo_resolver ''user'' (greet id)
        (empty_response, demo_session ''u1'' ''v0'') plain_request =
      protected_route fixed_bytes demo_headers (max_body 4) demo_manager demo_resolver ''user'' (greet (write_body ''secret''))
        (empty_response, demo_session ''u1'' ''v0'') plain_request \<and>
      carries ?H (fst (protected_route fixed_bytes demo_headers (max_body 4) demo_manager demo_resolver ''user'' (greet id)
        (empty_response, demo_session ''u1'' ''v0'') plain_request))"
    by (rule protected_route_safe [where rnd = fixed_bytes, OF m e b p f g a])
  show ?thesis by (rule conjI [OF carries_frame_options [OF conjunct2 [OF safe]] conjunct1 [OF safe]])
qed

end
